(* ===== verification/Gateway_Prelude.thy ===== *)
theory Gateway_Prelude
  imports Complex_Main "HOL-Library.AList"
begin

text \<open>
  The vocabulary every component of the gateway shares: JavaScript's insertion-ordered \<open>Map\<close>
  and \<open>Set\<close> as association lists and distinct lists, JSON values with \<open>String(v)\<close>,
  substring search, and the collections of simp rules (\<open>js_simps\<close>, \<open>gw_simps\<close>) the component
  theories extend.
\<close>

named_theorems js_simps \<open>lookup and membership after an update of a JavaScript collection\<close>
named_theorems gw_simps \<open>read-over-write rules of the gateway's components\<close>

section \<open>Insertion-ordered maps\<close>

text \<open>
  A JavaScript \<open>Map\<close> iterates in insertion order and a \<open>set\<close> on a present key keeps the key's
  position: \<open>AList.update\<close> does exactly that.
\<close>

type_synonym ('k, 'v) jsmap = "('k \<times> 'v) list"

definition jm_get :: "('k, 'v) jsmap \<Rightarrow> 'k \<Rightarrow> 'v option" where
  "jm_get m k = map_of m k"

definition jm_has :: "('k, 'v) jsmap \<Rightarrow> 'k \<Rightarrow> bool" where
  "jm_has m k = (jm_get m k \<noteq> None)"

definition jm_set :: "('k, 'v) jsmap \<Rightarrow> 'k \<Rightarrow> 'v \<Rightarrow> ('k, 'v) jsmap" where
  "jm_set m k v = AList.update k v m"

definition jm_delete :: "('k, 'v) jsmap \<Rightarrow> 'k \<Rightarrow> ('k, 'v) jsmap" where
  "jm_delete m k = AList.delete k m"

definition jm_keys :: "('k, 'v) jsmap \<Rightarrow> 'k list" where
  "jm_keys m = map fst m"

definition jm_values :: "('k, 'v) jsmap \<Rightarrow> 'v list" where
  "jm_values m = map snd m"

definition jm_size :: "('k, 'v) jsmap \<Rightarrow> nat" where
  "jm_size m = length m"

definition jm_map :: "('k \<Rightarrow> 'v \<Rightarrow> 'v) \<Rightarrow> ('k, 'v) jsmap \<Rightarrow> ('k, 'v) jsmap" where
  "jm_map f m = map (\<lambda>(k, v). (k, f k v)) m"

text \<open>Every map the program builds has distinct keys.\<close>

definition jm_wf :: "('k, 'v) jsmap \<Rightarrow> bool" where
  "jm_wf m = distinct (map fst m)"

lemma jm_get_Nil [simp, js_simps]: "jm_get [] k = None"
  by (simp add: jm_get_def)

lemma jm_get_Cons [js_simps]: "jm_get ((k, v) # m) k' = (if k' = k then Some v else jm_get m k')"
  by (simp add: jm_get_def)

lemma jm_get_set [simp, js_simps]:
  "jm_get (jm_set m k v) k' = (if k' = k then Some v else jm_get m k')"
  by (simp add: jm_get_def jm_set_def update_conv')

lemma jm_get_delete [simp, js_simps]:
  "jm_get (jm_delete m k) k' = (if k' = k then None else jm_get m k')"
  by (simp add: jm_get_def jm_delete_def delete_conv')

lemma jm_get_map [simp, js_simps]: "jm_get (jm_map f m) k = map_option (f k) (jm_get m k)"
  by (induction m) (auto simp: jm_get_def jm_map_def)

lemma jm_has_iff [js_simps]: "jm_has m k \<longleftrightarrow> k \<in> set (jm_keys m)"
  by (auto simp: jm_has_def jm_get_def jm_keys_def map_of_eq_None_iff)

lemma jm_delete_set [simp, js_simps]: "jm_delete (jm_set m k v) k = jm_delete m k"
  unfolding jm_delete_def jm_set_def by (induction m) auto

lemma jm_delete_absent: "jm_get m k = None \<Longrightarrow> jm_delete m k = m"
  by (simp add: jm_get_def jm_delete_def delete_idem map_of_eq_None_iff)

lemma jm_wf_Nil [simp]: "jm_wf []"
  by (simp add: jm_wf_def)

lemma jm_wf_set [simp, intro]: "jm_wf m \<Longrightarrow> jm_wf (jm_set m k v)"
  by (simp add: jm_wf_def jm_set_def distinct_update)

lemma jm_wf_delete [simp, intro]: "jm_wf m \<Longrightarrow> jm_wf (jm_delete m k)"
  by (simp add: jm_wf_def jm_delete_def distinct_delete)

lemma jm_keys_map [simp]: "jm_keys (jm_map f m) = jm_keys m"
  by (auto simp: jm_keys_def jm_map_def)

lemma jm_wf_map [simp]: "jm_wf (jm_map f m) = jm_wf m"
proof -
  have "map fst (jm_map f m) = map fst m" by (auto simp: jm_map_def)
  then show ?thesis by (simp add: jm_wf_def)
qed

lemma set_jm_keys: "set (jm_keys m) = {k. jm_get m k \<noteq> None}"
  by (auto simp: jm_keys_def jm_get_def map_of_eq_None_iff)

lemma jm_keys_delete [simp, js_simps]: "set (jm_keys (jm_delete m k)) = set (jm_keys m) - {k}"
  by (auto simp: set_jm_keys)

lemma jm_keys_set [simp, js_simps]: "set (jm_keys (jm_set m k v)) = insert k (set (jm_keys m))"
  by (auto simp: set_jm_keys)

lemma jm_get_mem: "jm_wf m \<Longrightarrow> (k, v) \<in> set m \<longleftrightarrow> jm_get m k = Some v"
  by (auto simp: jm_wf_def jm_get_def)

lemma jm_get_in_values: "jm_get m k = Some v \<Longrightarrow> v \<in> set (jm_values m)"
  by (auto simp: jm_get_def jm_values_def dest: map_of_SomeD intro!: image_eqI)

section \<open>Insertion-ordered sets\<close>

text \<open>A JavaScript \<open>Set\<close>: adding a present element changes nothing, a new one goes last.\<close>

definition js_add :: "'a list \<Rightarrow> 'a \<Rightarrow> 'a list" where
  "js_add xs x = (if x \<in> set xs then xs else xs @ [x])"

definition js_remove :: "'a list \<Rightarrow> 'a \<Rightarrow> 'a list" where
  "js_remove xs x = filter (\<lambda>y. y \<noteq> x) xs"

lemma set_js_add [simp, js_simps]: "set (js_add xs x) = insert x (set xs)"
  by (auto simp: js_add_def)

lemma set_js_remove [simp, js_simps]: "set (js_remove xs x) = set xs - {x}"
  by (auto simp: js_remove_def)

lemma distinct_js_add [simp, intro]: "distinct xs \<Longrightarrow> distinct (js_add xs x)"
  by (auto simp: js_add_def)

lemma distinct_js_remove [simp, intro]: "distinct xs \<Longrightarrow> distinct (js_remove xs x)"
  by (auto simp: js_remove_def)

lemma js_add_nonempty [simp]: "js_add xs x \<noteq> []"
  by (auto simp: js_add_def)

lemma js_remove_notin: "x \<notin> set xs \<Longrightarrow> js_remove xs x = xs"
  by (auto simp: js_remove_def intro!: filter_True)

lemma js_remove_add: "x \<notin> set xs \<Longrightarrow> js_remove (js_add xs x) x = xs"
  by (auto simp: js_add_def js_remove_def intro!: filter_True)

section \<open>Strings\<close>

text \<open>\<open>s.includes(t)\<close>: some suffix of \<open>s\<close> starts with \<open>t\<close>.\<close>

fun starts_with :: "string \<Rightarrow> string \<Rightarrow> bool" where
  "starts_with s [] = True"
| "starts_with [] (c # cs) = False"
| "starts_with (d # ds) (c # cs) = (d = c \<and> starts_with ds cs)"

fun js_includes :: "string \<Rightarrow> string \<Rightarrow> bool" where
  "js_includes [] t = (t = [])"
| "js_includes (c # cs) t = (starts_with (c # cs) t \<or> js_includes cs t)"

lemma starts_with_iff: "starts_with s t \<longleftrightarrow> (\<exists>r. s = t @ r)"
  by (induction s t rule: starts_with.induct) auto

lemma js_includes_iff: "js_includes s t \<longleftrightarrow> (\<exists>l r. s = l @ t @ r)"
proof (induction s)
  case Nil
  then show ?case by auto
next
  case (Cons c cs)
  have "(\<exists>l r. c # cs = l @ t @ r) \<longleftrightarrow> (\<exists>r. c # cs = t @ r) \<or> (\<exists>l r. cs = l @ t @ r)"
    by (metis append.assoc append_Cons append_Nil append_eq_Cons_conv)
  with Cons show ?case by (simp add: starts_with_iff)
qed

lemma js_includes_append [simp]: "js_includes (a @ t @ b) t"
  by (auto simp: js_includes_iff)

section \<open>JSON values and their printed form\<close>

text \<open>
  The payloads the gateway forwards are JSON values it never computes with; numbers are kept as
  integers. \<open>JUndef\<close> is \<open>undefined\<close>.
\<close>

datatype jval =
    JUndef
  | JNull
  | JBool bool
  | JNum int
  | JStr string
  | JArr "jval list"
  | JObj "(string \<times> jval) list"

fun nat_string :: "nat \<Rightarrow> string" where
  "nat_string n =
     (if n < 10 then [char_of (48 + n)] else nat_string (n div 10) @ [char_of (48 + n mod 10)])"

declare nat_string.simps [simp del]

definition int_string :: "int \<Rightarrow> string" where
  "int_string i = (if i < 0 then ''-'' @ nat_string (nat (- i)) else nat_string (nat i))"

text \<open>
  \<open>String(v)\<close>. A JSON object with a member of its own called \<open>toString\<close> (never a function)
  makes the conversion throw a \<open>TypeError\<close>: \<open>None\<close>. Arrays print as their joined elements.
\<close>

fun js_String :: "jval \<Rightarrow> string option"
and js_join :: "jval list \<Rightarrow> string option" where
  "js_String JUndef = Some ''undefined''"
| "js_String JNull = Some ''null''"
| "js_String (JBool b) = Some (if b then ''true'' else ''false'')"
| "js_String (JNum i) = Some (int_string i)"
| "js_String (JStr s) = Some s"
| "js_String (JArr vs) = js_join vs"
| "js_String (JObj fs) =
     (if ''toString'' \<in> set (map fst fs) then None else Some ''[object Object]'')"
| "js_join [] = Some ''''"
| "js_join (v # vs) =
     (case (if v = JUndef \<or> v = JNull then Some '''' else js_String v) of
        None \<Rightarrow> None
      | Some s \<Rightarrow>
          (if vs = [] then Some s
           else (case js_join vs of None \<Rightarrow> None | Some r \<Rightarrow> Some (s @ '','' @ r))))"

text \<open>\<open>v[key]\<close> on an object: a missing member, and any member of an array here, reads \<open>undefined\<close>.\<close>

fun js_member :: "jval \<Rightarrow> string \<Rightarrow> jval" where
  "js_member (JObj fs) k = (case map_of fs k of Some v \<Rightarrow> v | None \<Rightarrow> JUndef)"
| "js_member v k = JUndef"

text \<open>\<open>a ?? b\<close>.\<close>

definition js_nullish :: "jval \<Rightarrow> jval \<Rightarrow> jval" where
  "js_nullish a b = (if a = JUndef \<or> a = JNull then b else a)"

text \<open>\<open>a ?? b\<close> where \<open>None\<close> is \<open>null\<close> or \<open>undefined\<close>.\<close>

definition or_else :: "'a option \<Rightarrow> 'a \<Rightarrow> 'a" where
  "or_else a b = (case a of Some x \<Rightarrow> x | None \<Rightarrow> b)"

lemma or_else_simps [simp]: "or_else (Some x) b = x" "or_else None b = b"
  by (simp_all add: or_else_def)

definition or_else_opt :: "'a option \<Rightarrow> 'a option \<Rightarrow> 'a option" where
  "or_else_opt a b = (case a of Some x \<Rightarrow> Some x | None \<Rightarrow> b)"

lemma or_else_opt_simps [simp]:
  "or_else_opt (Some x) b = Some x" "or_else_opt None b = b" "or_else_opt a None = a"
  by (simp_all add: or_else_opt_def split: option.splits)

text \<open>The truth value of a JSON value in a condition.\<close>

fun js_truthy :: "jval \<Rightarrow> bool" where
  "js_truthy (JBool b) = b"
| "js_truthy (JNum i) = (i \<noteq> 0)"
| "js_truthy (JStr s) = (s \<noteq> [])"
| "js_truthy (JArr vs) = True"
| "js_truthy (JObj fs) = True"
| "js_truthy JUndef = False"
| "js_truthy JNull = False"

text \<open>A string is truthy when it is present and not empty.\<close>

definition truthy :: "string option \<Rightarrow> bool" where
  "truthy s = (case s of None \<Rightarrow> False | Some t \<Rightarrow> t \<noteq> [])"

lemma truthy_simps [simp]: "truthy None = False" "truthy (Some t) = (t \<noteq> [])"
  by (simp_all add: truthy_def)

section \<open>Sequences of fallible operations\<close>

text \<open>Running operations one after the other, stopping at the first that throws.\<close>

fun try_all :: "('x \<Rightarrow> 's \<Rightarrow> 'e + 's) \<Rightarrow> 'x list \<Rightarrow> 's \<Rightarrow> 'e + 's" where
  "try_all f [] s = Inr s"
| "try_all f (x # xs) s = (case f x s of Inl e \<Rightarrow> Inl e | Inr s' \<Rightarrow> try_all f xs s')"

lemma try_all_append [simp]:
  "try_all f (xs @ ys) s =
     (case try_all f xs s of Inl e \<Rightarrow> Inl e | Inr s' \<Rightarrow> try_all f ys s')"
  by (induction xs arbitrary: s) (auto split: sum.splits)

end
