(* ===== verification/Gateway_Contracts.thy ===== *)
theory Gateway_Contracts
  imports Gateway_Prelude
begin

text \<open>
  The data of packages/gateway-contracts: hosts and their registration (host.ts), the auth
  context and the JWT payload (auth.ts), the host protocol, execution events and adapter calls
  (protocol.ts), the observer-client protocol (client-protocol.ts), and the parsers of the
  enumerations the code validates at run time.

  A field the schema makes optional is an \<open>option\<close>. \<open>JwtPayload\<close> and \<open>AuthContext\<close> are
  casts in the code (\<open>payload as unknown as JwtPayload\<close>), never validated, so their fields are
  optional too: \<open>None\<close> is the \<open>undefined\<close> that a missing claim reads as.
\<close>

section \<open>Hosts (host.ts)\<close>

datatype host_capability = Filesystem | Git | Editor_context | Execution

definition capability_string :: "host_capability \<Rightarrow> string" where
  "capability_string c = (case c of Filesystem \<Rightarrow> ''filesystem'' | Git \<Rightarrow> ''git''
     | Editor_context \<Rightarrow> ''editor-context'' | Execution \<Rightarrow> ''execution'')"

text \<open>\<open>HostCapabilitySchema.safeParse\<close>.\<close>

definition parse_capability :: "string \<Rightarrow> host_capability option" where
  "parse_capability s =
     (if s = ''filesystem'' then Some Filesystem
      else if s = ''git'' then Some Git
      else if s = ''editor-context'' then Some Editor_context
      else if s = ''execution'' then Some Execution
      else None)"

lemma parse_capability_string [simp, gw_simps]: "parse_capability (capability_string c) = Some c"
  by (cases c) (simp_all add: parse_capability_def capability_string_def)

lemma parse_capability_Some: "parse_capability s = Some c \<longleftrightarrow> s = capability_string c"
  by (cases c) (auto simp: parse_capability_def capability_string_def split: if_splits)

datatype host_status = Online | Offline | Degraded | Reconnecting

datatype host_type = Local | Cloud

record workspace_info =
  wi_workspaceId :: string
  wi_repoFingerprint :: "string option"
  wi_branch :: "string option"

record plugin_info =
  pi_id :: string
  pi_version :: string

record host_registration =
  hr_name :: string
  hr_namespaceId :: string
  hr_capabilities :: "host_capability list"
  hr_workspacePaths :: "string list"
  hr_hostType :: "host_type option"

record host_descriptor =
  hd_hostId :: string
  hd_name :: string
  hd_namespaceId :: string
  hd_capabilities :: "host_capability list"
  hd_status :: host_status
  hd_lastSeen :: int
  hd_connections :: "string list"
  hd_hostType :: "host_type option"
  hd_workspaces :: "workspace_info list option"
  hd_plugins :: "plugin_info list option"
  hd_createdAt :: "int option"
  hd_updatedAt :: "int option"

section \<open>Authentication (auth.ts)\<close>

text \<open>Token types and tiers are strings in a JWT and are cast, not parsed, when it is read.\<close>

record jwt_payload =
  jp_sub :: "string option"
  jp_namespaceId :: "string option"
  jp_tier :: "string option"
  jp_type :: "string option"
  jp_jti :: "string option"
  jp_iat :: "int option"
  jp_exp :: "int option"

record auth_context =
  ac_type :: "string option"
  ac_userId :: "string option"
  ac_namespaceId :: "string option"
  ac_tier :: "string option"
  ac_permissions :: "string list"

record register_request =
  rq_name :: string
  rq_namespaceId :: string
  rq_capabilities :: "string list"
  rq_publicKey :: "string option"

record register_response =
  rr_clientId :: string
  rr_clientSecret :: string
  rr_hostId :: string

record token_response =
  tr_accessToken :: string
  tr_refreshToken :: string
  tr_expiresIn :: int
  tr_tokenType :: string

text \<open>\<open>RegisterRequestSchema\<close>: name and namespace hold 1 to 64 characters.\<close>

definition valid_register_request :: "register_request \<Rightarrow> bool" where
  "valid_register_request r \<longleftrightarrow>
     1 \<le> length (rq_name r) \<and> length (rq_name r) \<le> 64 \<and>
     1 \<le> length (rq_namespaceId r) \<and> length (rq_namespaceId r) \<le> 64"

section \<open>Host protocol (protocol.ts)\<close>

record trace_context =
  tc_traceId :: string
  tc_spanId :: string
  tc_parentId :: "string option"

record hello_message =
  hm_protocolVersion :: string
  hm_agentVersion :: string
  hm_hostId :: "string option"
  hm_capabilities :: "string list option"
  hm_hostType :: "host_type option"
  hm_workspaces :: "workspace_info list option"
  hm_plugins :: "plugin_info list option"

definition SUPPORTED_PROTOCOL_VERSIONS :: "string list" where
  "SUPPORTED_PROTOCOL_VERSIONS = [''1.0'']"

text \<open>
  What \<open>handleInbound\<close> reads of a message: \<open>type\<close>, \<open>requestId\<close>, \<open>data\<close> and \<open>error\<close>, each
  possibly missing (\<open>msg as { type: string; ... }\<close>).
\<close>

record inbound_msg =
  im_type :: string
  im_requestId :: "string option"
  im_data :: jval
  im_error :: jval

record serialized_error =
  se_code :: string
  se_message :: string
  se_retryable :: bool
  se_details :: "jval option"

text \<open>The JSON of a \<open>SerializedError\<close> the gateway builds itself.\<close>

definition error_json :: "serialized_error \<Rightarrow> jval" where
  "error_json e = JObj ([(''code'', JStr (se_code e)), (''message'', JStr (se_message e)),
     (''retryable'', JBool (se_retryable e))] @
     (case se_details e of None \<Rightarrow> [] | Some v \<Rightarrow> [(''details'', v)]))"

datatype adapter_name = A_llm | A_cache | A_vectorStore | A_embeddings | A_storage | A_state

definition parse_adapter :: "string \<Rightarrow> adapter_name option" where
  "parse_adapter s =
     (if s = ''llm'' then Some A_llm
      else if s = ''cache'' then Some A_cache
      else if s = ''vectorStore'' then Some A_vectorStore
      else if s = ''embeddings'' then Some A_embeddings
      else if s = ''storage'' then Some A_storage
      else if s = ''state'' then Some A_state
      else None)"

record adapter_call_context =
  cc_namespaceId :: string
  cc_hostId :: string
  cc_workspaceId :: "string option"
  cc_environmentId :: "string option"
  cc_executionRequestId :: "string option"

record adapter_call =
  al_requestId :: string
  al_adapter :: string
  al_method :: string
  al_args :: "jval list"
  al_timeout :: "int option"
  al_context :: adapter_call_context

text \<open>The messages the gateway sends to a host.\<close>

datatype outbound_msg =
    O_connected string string string
      \<comment> \<open>protocolVersion, hostId, sessionId\<close>
  | O_negotiate "string list"
  | O_call string string string "jval list" trace_context
      \<comment> \<open>requestId, adapter, method, args, trace\<close>
  | O_ack
  | O_adapter_response string jval
  | O_adapter_error jval jval
      \<comment> \<open>requestId (whatever the host sent) and the serialized error\<close>

section \<open>Execution events (protocol.ts)\<close>

text \<open>
  The events the execute route and the retry executor write; \<open>execution:output\<close>,
  \<open>execution:progress\<close> and \<open>execution:artifact\<close> are declared in the contracts but nothing in
  the gateway emits them.
\<close>

datatype execution_event =
    E_error string string string string bool
      \<comment> \<open>requestId, executionId, code, message, retryable\<close>
  | E_done string string int int "jval option"
      \<comment> \<open>requestId, executionId, exitCode, durationMs, metadata.result\<close>
  | E_retry string string int int rat string
      \<comment> \<open>requestId, executionId, attempt, maxAttempts, delayMs, error\<close>
  | E_cancelled string string string int
      \<comment> \<open>requestId, executionId, reason, durationMs\<close>

record execute_request =
  er_pluginId :: string
  er_handlerRef :: string
  er_exportName :: "string option"
  er_input :: jval
  er_timeoutMs :: "int option"

section \<open>Observer-client protocol (client-protocol.ts)\<close>

definition CLIENT_PROTOCOL_VERSION :: string where
  "CLIENT_PROTOCOL_VERSION = ''1.0''"

datatype client_error_code = EXECUTION_NOT_FOUND | FORBIDDEN | INVALID_MESSAGE | CANCEL_FAILED

datatype client_outbound =
    C_connected string string
      \<comment> \<open>protocolVersion, connectionId\<close>
  | C_error client_error_code string "string option"
      \<comment> \<open>code, message, executionId\<close>
  | C_event execution_event

end
