(* ===== verification/Cache_Interface.thy ===== *)
theory Cache_Interface
  imports Gateway_Contracts
begin

text \<open>
  \<open>ICache\<close> of @kb-labs/core-platform is not part of this repository: the model takes its
  operations as a parameter \<open>C\<close> (a record of functions over a state the model never looks into)
  and relies on the two laws of the locale \<open>icache\<close>: a read returns what was last set under
  that very key, and nothing once the key is deleted. The values the gateway stores, the keys it
  builds for them (README, ``ICache Key Namespace'') and their separation are the repository's own
  and are defined here. \<open>mem_cache\<close> is the in-memory cache of the repository's end-to-end tests;
  it satisfies the laws.
\<close>

section \<open>Cached values\<close>

text \<open>\<open>BufferedCall\<close> (buffer/adaptive.ts) and \<open>ClientRecord\<close> (gateway-auth/src/store.ts).\<close>

record buffered_call =
  bc_requestId :: string
  bc_adapter :: string
  bc_method :: string
  bc_args :: "jval list"
  bc_enqueuedAt :: int

record client_record =
  cr_clientId :: string
  cr_secretHash :: string
  cr_hostId :: string
  cr_namespaceId :: string
  cr_tier :: string
  cr_name :: string
  cr_capabilities :: "string list"
  cr_publicKey :: "string option"
  cr_createdAt :: int

datatype cval =
    V_host host_descriptor
  | V_token string string
  | V_strings "string list"
  | V_calls "buffered_call list"
  | V_client client_record
  | V_string string
  | V_refresh string string

section \<open>Keys\<close>

definition hostKey :: "string \<Rightarrow> string \<Rightarrow> string" where
  "hostKey namespaceId hostId = ''host:registry:'' @ namespaceId @ '':'' @ hostId"

definition tokenKey :: "string \<Rightarrow> string" where
  "tokenKey token = ''host:token:'' @ token"

definition indexKey :: "string \<Rightarrow> string" where
  "indexKey namespaceId = ''host:index:'' @ namespaceId"

definition namespacesKey :: string where
  "namespacesKey = ''host:namespaces''"

definition bufferKey :: "string \<Rightarrow> string" where
  "bufferKey hostId = ''host:buffer:'' @ hostId"

definition clientKey :: "string \<Rightarrow> string" where
  "clientKey clientId = ''auth:client:'' @ clientId"

definition hostIndexKey :: "string \<Rightarrow> string" where
  "hostIndexKey hostId = ''auth:hostindex:'' @ hostId"

definition refreshKey :: "string \<Rightarrow> string" where
  "refreshKey tokenHash = ''auth:refresh:'' @ tokenHash"

definition publicKeyKey :: "string \<Rightarrow> string" where
  "publicKeyKey hostId = ''auth:publickey:'' @ hostId"

lemmas key_defs = hostKey_def tokenKey_def indexKey_def namespacesKey_def bufferKey_def
  clientKey_def hostIndexKey_def refreshKey_def publicKeyKey_def

text \<open>The family of a key is read off its prefix; keys of different families differ.\<close>

definition key_family :: "string \<Rightarrow> nat" where
  "key_family k =
     (if starts_with k ''host:registry:'' then 1
      else if starts_with k ''host:token:'' then 2
      else if starts_with k ''host:index:'' then 3
      else if k = ''host:namespaces'' then 4
      else if starts_with k ''host:buffer:'' then 5
      else if starts_with k ''auth:client:'' then 6
      else if starts_with k ''auth:hostindex:'' then 7
      else if starts_with k ''auth:refresh:'' then 8
      else if starts_with k ''auth:publickey:'' then 9
      else 0)"

lemma key_family_simps [simp]:
  "key_family (hostKey n h) = 1"
  "key_family (tokenKey t) = 2"
  "key_family (indexKey n) = 3"
  "key_family namespacesKey = 4"
  "key_family (bufferKey h) = 5"
  "key_family (clientKey c) = 6"
  "key_family (hostIndexKey h) = 7"
  "key_family (refreshKey x) = 8"
  "key_family (publicKeyKey h) = 9"
  by (simp_all add: key_family_def key_defs)

lemma key_distinct [simp]:
  "key_family k \<noteq> 1 \<Longrightarrow> (hostKey n h = k) = False"
  "key_family k \<noteq> 2 \<Longrightarrow> (tokenKey t = k) = False"
  "key_family k \<noteq> 3 \<Longrightarrow> (indexKey n = k) = False"
  "key_family k \<noteq> 4 \<Longrightarrow> (namespacesKey = k) = False"
  "key_family k \<noteq> 5 \<Longrightarrow> (bufferKey h = k) = False"
  "key_family k \<noteq> 6 \<Longrightarrow> (clientKey c = k) = False"
  "key_family k \<noteq> 7 \<Longrightarrow> (hostIndexKey h = k) = False"
  "key_family k \<noteq> 8 \<Longrightarrow> (refreshKey x = k) = False"
  "key_family k \<noteq> 9 \<Longrightarrow> (publicKeyKey h = k) = False"
  by auto

lemma key_inj [simp]:
  "tokenKey t = tokenKey t' \<longleftrightarrow> t = t'"
  "indexKey n = indexKey n' \<longleftrightarrow> n = n'"
  "bufferKey h = bufferKey h' \<longleftrightarrow> h = h'"
  "clientKey c = clientKey c' \<longleftrightarrow> c = c'"
  "hostIndexKey h = hostIndexKey h' \<longleftrightarrow> h = h'"
  "refreshKey x = refreshKey x' \<longleftrightarrow> x = x'"
  "publicKeyKey h = publicKeyKey h' \<longleftrightarrow> h = h'"
  by (simp_all add: key_defs)

text \<open>
  The registry's key joins namespace and host with a colon and so is injective only as far as
  neither namespace holds one: \<open>hostKey ''a:b'' ''c'' = hostKey ''a'' ''b:c''\<close>.
\<close>

definition no_colon :: "string \<Rightarrow> bool" where
  "no_colon s = (CHR '':'' \<notin> set s)"

lemma append_sep_inject:
  "c \<notin> set a \<Longrightarrow> c \<notin> set a' \<Longrightarrow> a @ c # b = a' @ c # b' \<longleftrightarrow> a = a' \<and> b = b'"
proof (induction a arbitrary: a')
  case Nil
  then show ?case by (cases a') auto
next
  case (Cons x xs)
  then show ?case by (cases a') auto
qed

lemma hostKey_inj:
  "no_colon n \<Longrightarrow> no_colon n' \<Longrightarrow> hostKey n h = hostKey n' h' \<longleftrightarrow> n = n' \<and> h = h'"
  by (simp add: hostKey_def no_colon_def append_sep_inject)

lemma hostKey_same_namespace [simp]: "hostKey n h = hostKey n h' \<longleftrightarrow> h = h'"
  by (simp add: hostKey_def)

section \<open>The interface\<close>

record 'c cache_ops =
  cget :: "'c \<Rightarrow> string \<Rightarrow> cval option"
  cset :: "'c \<Rightarrow> string \<Rightarrow> cval \<Rightarrow> int option \<Rightarrow> 'c"
    \<comment> \<open>the last argument is the TTL in milliseconds, \<open>None\<close> for none\<close>
  cdelete :: "'c \<Rightarrow> string \<Rightarrow> 'c"

text \<open>
  \<open>cache.get<T>(key)\<close> is an unchecked cast. Each reader projects the constructor its key family
  holds; that no key ever holds another one is the invariant \<open>cache_typed\<close> below.
\<close>

definition c_host :: "'c cache_ops \<Rightarrow> 'c \<Rightarrow> string \<Rightarrow> host_descriptor option" where
  "c_host C c k = (case cget C c k of Some (V_host h) \<Rightarrow> Some h | _ \<Rightarrow> None)"

definition c_token :: "'c cache_ops \<Rightarrow> 'c \<Rightarrow> string \<Rightarrow> (string \<times> string) option" where
  "c_token C c k = (case cget C c k of Some (V_token h n) \<Rightarrow> Some (h, n) | _ \<Rightarrow> None)"

definition c_strings :: "'c cache_ops \<Rightarrow> 'c \<Rightarrow> string \<Rightarrow> string list option" where
  "c_strings C c k = (case cget C c k of Some (V_strings xs) \<Rightarrow> Some xs | _ \<Rightarrow> None)"

definition c_calls :: "'c cache_ops \<Rightarrow> 'c \<Rightarrow> string \<Rightarrow> buffered_call list option" where
  "c_calls C c k = (case cget C c k of Some (V_calls xs) \<Rightarrow> Some xs | _ \<Rightarrow> None)"

definition c_client :: "'c cache_ops \<Rightarrow> 'c \<Rightarrow> string \<Rightarrow> client_record option" where
  "c_client C c k = (case cget C c k of Some (V_client r) \<Rightarrow> Some r | _ \<Rightarrow> None)"

definition c_string :: "'c cache_ops \<Rightarrow> 'c \<Rightarrow> string \<Rightarrow> string option" where
  "c_string C c k = (case cget C c k of Some (V_string s) \<Rightarrow> Some s | _ \<Rightarrow> None)"

definition c_refresh :: "'c cache_ops \<Rightarrow> 'c \<Rightarrow> string \<Rightarrow> (string \<times> string) option" where
  "c_refresh C c k = (case cget C c k of Some (V_refresh h n) \<Rightarrow> Some (h, n) | _ \<Rightarrow> None)"

lemmas c_reads = c_host_def c_token_def c_strings_def c_calls_def c_client_def c_string_def
  c_refresh_def

definition val_ok :: "string \<Rightarrow> cval \<Rightarrow> bool" where
  "val_ok k v = (case v of
       V_host h \<Rightarrow> key_family k = 1
     | V_token _ _ \<Rightarrow> key_family k = 2
     | V_strings _ \<Rightarrow> key_family k = 3 \<or> key_family k = 4
     | V_calls _ \<Rightarrow> key_family k = 5
     | V_client _ \<Rightarrow> key_family k = 6
     | V_string _ \<Rightarrow> key_family k = 7 \<or> key_family k = 9
     | V_refresh _ _ \<Rightarrow> key_family k = 8)"

definition cache_typed :: "'c cache_ops \<Rightarrow> 'c \<Rightarrow> bool" where
  "cache_typed C c = (\<forall>k v. cget C c k = Some v \<longrightarrow> val_ok k v)"

locale icache =
  fixes C :: "'c cache_ops"
  assumes get_set: "cget C (cset C c k v ttl) k' = (if k' = k then Some v else cget C c k')"
    and get_delete: "cget C (cdelete C c k) k' = (if k' = k then None else cget C c k')"
begin

lemma read_over_set:
  "c_host C (cset C c k v ttl) k' =
     (if k' = k then (case v of V_host h \<Rightarrow> Some h | _ \<Rightarrow> None) else c_host C c k')"
  "c_token C (cset C c k v ttl) k' =
     (if k' = k then (case v of V_token h n \<Rightarrow> Some (h, n) | _ \<Rightarrow> None) else c_token C c k')"
  "c_strings C (cset C c k v ttl) k' =
     (if k' = k then (case v of V_strings xs \<Rightarrow> Some xs | _ \<Rightarrow> None) else c_strings C c k')"
  "c_calls C (cset C c k v ttl) k' =
     (if k' = k then (case v of V_calls xs \<Rightarrow> Some xs | _ \<Rightarrow> None) else c_calls C c k')"
  "c_client C (cset C c k v ttl) k' =
     (if k' = k then (case v of V_client r \<Rightarrow> Some r | _ \<Rightarrow> None) else c_client C c k')"
  "c_string C (cset C c k v ttl) k' =
     (if k' = k then (case v of V_string s \<Rightarrow> Some s | _ \<Rightarrow> None) else c_string C c k')"
  "c_refresh C (cset C c k v ttl) k' =
     (if k' = k then (case v of V_refresh h n \<Rightarrow> Some (h, n) | _ \<Rightarrow> None) else c_refresh C c k')"
  by (simp_all add: c_reads get_set split: cval.splits)

lemma read_over_delete:
  "c_host C (cdelete C c k) k' = (if k' = k then None else c_host C c k')"
  "c_token C (cdelete C c k) k' = (if k' = k then None else c_token C c k')"
  "c_strings C (cdelete C c k) k' = (if k' = k then None else c_strings C c k')"
  "c_calls C (cdelete C c k) k' = (if k' = k then None else c_calls C c k')"
  "c_client C (cdelete C c k) k' = (if k' = k then None else c_client C c k')"
  "c_string C (cdelete C c k) k' = (if k' = k then None else c_string C c k')"
  "c_refresh C (cdelete C c k) k' = (if k' = k then None else c_refresh C c k')"
  by (simp_all add: c_reads get_delete)

lemmas cache_simps = get_set get_delete read_over_set read_over_delete

lemma typed_set: "cache_typed C c \<Longrightarrow> val_ok k v \<Longrightarrow> cache_typed C (cset C c k v ttl)"
  by (auto simp: cache_typed_def get_set)

lemma typed_delete: "cache_typed C c \<Longrightarrow> cache_typed C (cdelete C c k)"
  by (auto simp: cache_typed_def get_delete)

end

section \<open>The in-memory cache of the tests\<close>

definition mem_cache :: "(string, cval) jsmap cache_ops" where
  "mem_cache = \<lparr>cget = jm_get, cset = (\<lambda>c k v ttl. jm_set c k v), cdelete = jm_delete\<rparr>"

interpretation mem: icache mem_cache
  by unfold_locales (simp_all add: mem_cache_def)

lemma mem_typed_empty: "cache_typed mem_cache []"
  by (simp add: cache_typed_def mem_cache_def)

end
