(* ===== verification/Auth_Service.thy ===== *)
theory Auth_Service
  imports Cache_Interface
begin

text \<open>
  packages/gateway-auth: client credentials and refresh tokens in the cache (store.ts), JWTs
  (jwt.ts) and \<open>AuthService\<close> (service.ts), and the token resolution of
  apps/gateway-app/src/auth/tokens.ts.

  The library jose is a parameter \<open>J\<close> of which only \<open>jose_laws\<close> is used: a signed token verifies to
  its payload under the same secret until it expires, and under no other secret. SHA-256 is a
  parameter \<open>H\<close> of which nothing is assumed; properties are stated up to equal hashes. Random bytes,
  UUIDs and the time in milliseconds are arguments.
\<close>

section \<open>jose\<close>

record jose =
  jwt_sign :: "string \<Rightarrow> jwt_payload \<Rightarrow> string"
  jwt_verify :: "string \<Rightarrow> int \<Rightarrow> string \<Rightarrow> jwt_payload option"
    \<comment> \<open>secret, current time in seconds, token\<close>

definition not_expired :: "int \<Rightarrow> jwt_payload \<Rightarrow> bool" where
  "not_expired now p = (case jp_exp p of None \<Rightarrow> True | Some e \<Rightarrow> now < e)"

definition jose_laws :: "jose \<Rightarrow> bool" where
  "jose_laws J \<longleftrightarrow>
     (\<forall>k p now. jwt_verify J k now (jwt_sign J k p) = (if not_expired now p then Some p else None)) \<and>
     (\<forall>k k' p now. k \<noteq> k' \<longrightarrow> jwt_verify J k' now (jwt_sign J k p) = None)"

section \<open>store.ts\<close>

definition REFRESH_TTL_MS :: int where
  "REFRESH_TTL_MS = 30 * 24 * 60 * 60 * 1000"

definition generateClientId :: "string \<Rightarrow> string" where
  "generateClientId hex = ''clt_'' @ hex"

definition generateClientSecret :: "string \<Rightarrow> string" where
  "generateClientSecret b64 = ''cs_'' @ b64"

definition generateHostId :: "string \<Rightarrow> string" where
  "generateHostId hex = ''host_'' @ hex"

definition saveClient :: "'c cache_ops \<Rightarrow> client_record \<Rightarrow> 'c \<Rightarrow> 'c" where
  "saveClient C record c =
     cset C (cset C c (clientKey (cr_clientId record)) (V_client record) None)
       (hostIndexKey (cr_hostId record)) (V_string (cr_clientId record)) None"

definition getClient :: "'c cache_ops \<Rightarrow> string \<Rightarrow> 'c \<Rightarrow> client_record option" where
  "getClient C clientId c = c_client C c (clientKey clientId)"

definition getClientByHostId :: "'c cache_ops \<Rightarrow> string \<Rightarrow> 'c \<Rightarrow> client_record option" where
  "getClientByHostId C hostId c =
     (case c_string C c (hostIndexKey hostId) of
        None \<Rightarrow> None
      | Some clientId \<Rightarrow> if clientId = [] then None else getClient C clientId c)"

definition verifyClientSecret ::
  "'c cache_ops \<Rightarrow> (string \<Rightarrow> string) \<Rightarrow> string \<Rightarrow> string \<Rightarrow> 'c \<Rightarrow> client_record option" where
  "verifyClientSecret C H clientId secret c =
     (case getClient C clientId c of
        None \<Rightarrow> None
      | Some record \<Rightarrow> if cr_secretHash record \<noteq> H secret then None else Some record)"

definition buildClientRecord ::
  "(string \<Rightarrow> string) \<Rightarrow> string \<Rightarrow> string \<Rightarrow> string \<Rightarrow> string \<Rightarrow> string list \<Rightarrow> string option \<Rightarrow> string \<Rightarrow> int \<Rightarrow>
     client_record" where
  "buildClientRecord H clientHex hostHex name namespaceId capabilities publicKey secret now =
     \<lparr>cr_clientId = generateClientId clientHex, cr_secretHash = H secret,
      cr_hostId = generateHostId hostHex, cr_namespaceId = namespaceId, cr_tier = ''free'',
      cr_name = name, cr_capabilities = capabilities, cr_publicKey = publicKey, cr_createdAt = now\<rparr>"

definition saveRefreshToken ::
  "'c cache_ops \<Rightarrow> (string \<Rightarrow> string) \<Rightarrow> string \<Rightarrow> string \<Rightarrow> string \<Rightarrow> 'c \<Rightarrow> 'c" where
  "saveRefreshToken C H token hostId namespaceId c =
     cset C c (refreshKey (H token)) (V_refresh hostId namespaceId) (Some REFRESH_TTL_MS)"

definition consumeRefreshToken ::
  "'c cache_ops \<Rightarrow> (string \<Rightarrow> string) \<Rightarrow> string \<Rightarrow> 'c \<Rightarrow> (string \<times> string) option \<times> 'c" where
  "consumeRefreshToken C H token c =
     (case c_refresh C c (refreshKey (H token)) of
        None \<Rightarrow> (None, c)
      | Some entry \<Rightarrow> (Some entry, cdelete C c (refreshKey (H token))))"

definition savePublicKey :: "'c cache_ops \<Rightarrow> string \<Rightarrow> string \<Rightarrow> 'c \<Rightarrow> 'c" where
  "savePublicKey C hostId publicKey c = cset C c (publicKeyKey hostId) (V_string publicKey) None"

definition getPublicKey :: "'c cache_ops \<Rightarrow> string \<Rightarrow> 'c \<Rightarrow> string option" where
  "getPublicKey C hostId c = c_string C c (publicKeyKey hostId)"

section \<open>jwt.ts\<close>

definition ACCESS_TOKEN_TTL :: int where
  "ACCESS_TOKEN_TTL = 15 * 60"

definition REFRESH_TOKEN_TTL :: int where
  "REFRESH_TOKEN_TTL = 30 * 24 * 3600"

text \<open>\<open>Math.floor(Date.now() / 1000)\<close>\<close>

definition seconds :: "int \<Rightarrow> int" where
  "seconds ms = ms div 1000"

definition access_payload :: "string \<Rightarrow> string \<Rightarrow> string \<Rightarrow> string \<Rightarrow> int \<Rightarrow> jwt_payload" where
  "access_payload hostId namespaceId tier type now =
     \<lparr>jp_sub = Some hostId, jp_namespaceId = Some namespaceId, jp_tier = Some tier, jp_type = Some type,
      jp_jti = None, jp_iat = Some now, jp_exp = Some (now + ACCESS_TOKEN_TTL)\<rparr>"

definition refresh_payload :: "string \<Rightarrow> string \<Rightarrow> int \<Rightarrow> jwt_payload" where
  "refresh_payload hostId jti now =
     \<lparr>jp_sub = Some hostId, jp_namespaceId = None, jp_tier = None, jp_type = Some ''refresh'',
      jp_jti = Some jti, jp_iat = Some now, jp_exp = Some (now + REFRESH_TOKEN_TTL)\<rparr>"

definition signAccessToken ::
  "jose \<Rightarrow> string \<Rightarrow> string \<Rightarrow> string \<Rightarrow> string \<Rightarrow> string \<Rightarrow> int \<Rightarrow> string \<times> int" where
  "signAccessToken J secret hostId namespaceId tier type ms =
     (jwt_sign J secret (access_payload hostId namespaceId tier type (seconds ms)), ACCESS_TOKEN_TTL)"

definition signRefreshToken :: "jose \<Rightarrow> string \<Rightarrow> string \<Rightarrow> string \<Rightarrow> int \<Rightarrow> string" where
  "signRefreshToken J secret hostId jti ms = jwt_sign J secret (refresh_payload hostId jti (seconds ms))"

definition verifyAccessToken :: "jose \<Rightarrow> string \<Rightarrow> int \<Rightarrow> string \<Rightarrow> jwt_payload option" where
  "verifyAccessToken J secret ms token = jwt_verify J secret (seconds ms) token"

definition verifyRefreshToken :: "jose \<Rightarrow> string \<Rightarrow> int \<Rightarrow> string \<Rightarrow> string option" where
  "verifyRefreshToken J secret ms token =
     (case jwt_verify J secret (seconds ms) token of
        None \<Rightarrow> None
      | Some payload \<Rightarrow>
          if jp_type payload \<noteq> Some ''refresh'' then None
          else if \<not> truthy (jp_sub payload) then None
          else jp_sub payload)"

section \<open>service.ts\<close>

definition auth_register ::
  "'c cache_ops \<Rightarrow> (string \<Rightarrow> string) \<Rightarrow> string \<Rightarrow> string \<Rightarrow> string \<Rightarrow> int \<Rightarrow> register_request \<Rightarrow> 'c \<Rightarrow>
     register_response \<times> 'c" where
  "auth_register C H secretB64 clientHex hostHex now req c =
     (let secret = generateClientSecret secretB64;
          record = buildClientRecord H clientHex hostHex (rq_name req) (rq_namespaceId req)
                     (rq_capabilities req) (rq_publicKey req) secret now;
          c1 = saveClient C record c;
          c2 = (case rq_publicKey req of
                  None \<Rightarrow> c1
                | Some key \<Rightarrow> if key = [] then c1 else savePublicKey C (cr_hostId record) key c1)
      in (\<lparr>rr_clientId = cr_clientId record, rr_clientSecret = secret, rr_hostId = cr_hostId record\<rparr>, c2))"

text \<open>Both tokens are signed at the same time \<open>ms\<close>; the refresh token's hash is stored.\<close>

definition issue_pair ::
  "'c cache_ops \<Rightarrow> (string \<Rightarrow> string) \<Rightarrow> jose \<Rightarrow> string \<Rightarrow> string \<Rightarrow> string \<Rightarrow> string \<Rightarrow> string \<Rightarrow> int \<Rightarrow> 'c \<Rightarrow>
     token_response option \<times> 'c" where
  "issue_pair C H J secret hostId namespaceId tier jti ms c =
     (let (accessToken, expiresIn) = signAccessToken J secret hostId namespaceId tier ''machine'' ms;
          refreshToken = signRefreshToken J secret hostId jti ms
      in (Some \<lparr>tr_accessToken = accessToken, tr_refreshToken = refreshToken, tr_expiresIn = expiresIn,
                tr_tokenType = ''Bearer''\<rparr>,
          saveRefreshToken C H refreshToken hostId namespaceId c))"

definition issueTokens ::
  "'c cache_ops \<Rightarrow> (string \<Rightarrow> string) \<Rightarrow> jose \<Rightarrow> string \<Rightarrow> string \<Rightarrow> string \<Rightarrow> string \<Rightarrow> int \<Rightarrow> 'c \<Rightarrow>
     token_response option \<times> 'c" where
  "issueTokens C H J secret clientId clientSecret jti ms c =
     (case verifyClientSecret C H clientId clientSecret c of
        None \<Rightarrow> (None, c)
      | Some record \<Rightarrow>
          issue_pair C H J secret (cr_hostId record) (cr_namespaceId record) (cr_tier record) jti ms c)"

definition refreshTokens ::
  "'c cache_ops \<Rightarrow> (string \<Rightarrow> string) \<Rightarrow> jose \<Rightarrow> string \<Rightarrow> string \<Rightarrow> string \<Rightarrow> int \<Rightarrow> 'c \<Rightarrow>
     token_response option \<times> 'c" where
  "refreshTokens C H J secret refreshToken jti ms c =
     (case verifyRefreshToken J secret ms refreshToken of
        None \<Rightarrow> (None, c)
      | Some _ \<Rightarrow>
          (case consumeRefreshToken C H refreshToken c of
             (None, c1) \<Rightarrow> (None, c1)
           | (Some (hostId, namespaceId), c1) \<Rightarrow>
               issue_pair C H J secret hostId namespaceId ''free'' jti ms c1))"

definition auth_verify :: "jose \<Rightarrow> string \<Rightarrow> int \<Rightarrow> string \<Rightarrow> auth_context option" where
  "auth_verify J secret ms token =
     map_option (\<lambda>payload. \<lparr>ac_type = jp_type payload, ac_userId = jp_sub payload,
         ac_namespaceId = jp_namespaceId payload, ac_tier = jp_tier payload,
         ac_permissions = [''host:connect'']\<rparr>)
       (verifyAccessToken J secret ms token)"

section \<open>tokens.ts\<close>

text \<open>\<open>resolveToken\<close>: a JWT first, else a static machine token of the cache.\<close>

definition auth_resolveToken ::
  "'c cache_ops \<Rightarrow> jose \<Rightarrow> string \<Rightarrow> int \<Rightarrow> string \<Rightarrow> 'c \<Rightarrow> auth_context option" where
  "auth_resolveToken C J secret ms token c =
     (case auth_verify J secret ms token of
        Some ctx \<Rightarrow> Some ctx
      | None \<Rightarrow>
          map_option (\<lambda>(hostId, namespaceId). \<lparr>ac_type = Some ''machine'', ac_userId = Some hostId,
              ac_namespaceId = Some namespaceId, ac_tier = Some ''free'',
              ac_permissions = [''host:connect'']\<rparr>)
            (c_token C c (tokenKey token)))"

text \<open>
  \<open>/^Bearer\s+(.+)$/i\<close>. Header values are Latin-1: white space there is the six ASCII characters and
  the no-break space, a line terminator is a line feed or a carriage return.
\<close>

definition js_space :: "char \<Rightarrow> bool" where
  "js_space c = (c \<in> {CHR '' '', CHR 0x09, CHR 0x0A, CHR 0x0B, CHR 0x0C, CHR 0x0D, CHR 0xA0})"

definition line_end :: "char \<Rightarrow> bool" where
  "line_end c = (c = CHR 0x0A \<or> c = CHR 0x0D)"

definition ascii_lower :: "char \<Rightarrow> char" where
  "ascii_lower c = (if 65 \<le> (of_char c :: nat) \<and> (of_char c :: nat) \<le> 90 then char_of (of_char c + 32 :: nat) else c)"

text \<open>The longest possible white space is tried first, then one character less, and so on.\<close>

fun match_token :: "nat \<Rightarrow> string \<Rightarrow> string option" where
  "match_token 0 s = None"
| "match_token (Suc n) s =
     (let rest = drop (Suc n) s
      in if rest \<noteq> [] \<and> (\<forall>c\<in>set rest. \<not> line_end c) then Some rest else match_token n s)"

definition extractBearerToken :: "string option \<Rightarrow> string option" where
  "extractBearerToken authHeader =
     (case authHeader of
        None \<Rightarrow> None
      | Some h \<Rightarrow>
          if map ascii_lower (take 6 h) = ''bearer''
          then match_token (length (takeWhile js_space (drop 6 h))) (drop 6 h)
          else None)"

end
