(* ===== verification/Auth_Properties.thy ===== *)
theory Auth_Properties
  imports Auth_Service
begin

text \<open>
  The properties of the credential and token code of packages/gateway-auth, for any cache with the
  laws of \<open>icache\<close>, any hash and any JWT library with \<open>jose_laws\<close>. The first section holds a
  concrete, unsigned stand-in for jose that has those laws, used by the witnesses only.
\<close>

section \<open>A JWT library for the witnesses\<close>

fun enc_string :: "string \<Rightarrow> string" where
  "enc_string [] = ''|''"
| "enc_string (c # cs) = CHR ''.'' # c # enc_string cs"

fun dec_string :: "string \<Rightarrow> (string \<times> string) option" where
  "dec_string [] = None"
| "dec_string [x] = (if x = CHR ''|'' then Some ([], []) else None)"
| "dec_string (x # y # r) =
     (if x = CHR ''|'' then Some ([], y # r)
      else if x = CHR ''.'' then map_option (\<lambda>(s, t). (y # s, t)) (dec_string r) else None)"

lemma dec_enc_string [simp]: "dec_string (enc_string s @ r) = Some (s, r)"
proof (induction s)
  case Nil
  then show ?case by (cases r) auto
qed simp

fun dec_strings :: "nat \<Rightarrow> string \<Rightarrow> string list option" where
  "dec_strings 0 s = (if s = [] then Some [] else None)"
| "dec_strings (Suc n) s =
     (case dec_string s of None \<Rightarrow> None | Some (x, r) \<Rightarrow> map_option (\<lambda>xs. x # xs) (dec_strings n r))"

lemma dec_enc_strings [simp]: "dec_strings (length xs) (concat (map enc_string xs)) = Some xs"
  by (induction xs) simp_all

definition enc_int :: "int \<Rightarrow> string" where
  "enc_int i = (if i < 0 then CHR ''-'' else CHR ''+'') # replicate (nat \<bar>i\<bar>) CHR ''1''"

definition dec_int :: "string \<Rightarrow> int" where
  "dec_int s = (if hd s = CHR ''-'' then - int (length (tl s)) else int (length (tl s)))"

lemma dec_enc_int [simp]: "dec_int (enc_int i) = i"
  by (simp add: enc_int_def dec_int_def)

definition enc_opt :: "('a \<Rightarrow> string) \<Rightarrow> 'a option \<Rightarrow> string" where
  "enc_opt f x = (case x of None \<Rightarrow> [] | Some y \<Rightarrow> CHR ''s'' # f y)"

definition dec_opt :: "(string \<Rightarrow> 'a) \<Rightarrow> string \<Rightarrow> 'a option" where
  "dec_opt g s = (if s = [] then None else Some (g (tl s)))"

lemma dec_enc_opt [simp]: "(\<And>y. g (f y) = y) \<Longrightarrow> dec_opt g (enc_opt f x) = x"
  by (simp add: dec_opt_def enc_opt_def split: option.splits)

definition plain_jose :: jose where
  "plain_jose =
     \<lparr>jwt_sign = (\<lambda>k p. concat (map enc_string [k, enc_opt id (jp_sub p), enc_opt id (jp_namespaceId p),
        enc_opt id (jp_tier p), enc_opt id (jp_type p), enc_opt id (jp_jti p),
        enc_opt enc_int (jp_iat p), enc_opt enc_int (jp_exp p)])),
      jwt_verify = (\<lambda>k now t. case dec_strings 8 t of
        Some [k', sub, ns, tier, type, jti, iat, ex] \<Rightarrow>
          let p = \<lparr>jp_sub = dec_opt id sub, jp_namespaceId = dec_opt id ns, jp_tier = dec_opt id tier,
                   jp_type = dec_opt id type, jp_jti = dec_opt id jti, jp_iat = dec_opt dec_int iat,
                   jp_exp = dec_opt dec_int ex\<rparr>
          in if k' = k \<and> not_expired now p then Some p else None
      | _ \<Rightarrow> None)\<rparr>"

lemma plain_jose_laws: "jose_laws plain_jose"
proof -
  have d: "dec_strings 8 (concat (map enc_string [a, b, c, d, e, f, g, h])) = Some [a, b, c, d, e, f, g, h]"
    for a b c d e f g h
    using dec_enc_strings [of "[a, b, c, d, e, f, g, h]"] by (simp only: list.size) (simp add: numeral_eq_Suc)
  show ?thesis
    unfolding jose_laws_def plain_jose_def jose.select_convs d by (simp add: not_expired_def)
qed

section \<open>Reading tokens back\<close>

lemma verify_signed:
  assumes "jose_laws J"
  shows "jwt_verify J k now (jwt_sign J k p) = (if not_expired now p then Some p else None)"
    "k \<noteq> k' \<Longrightarrow> jwt_verify J k' now (jwt_sign J k p) = None"
  using assms by (auto simp: jose_laws_def)

lemma verify_access:
  assumes "jose_laws J"
  shows "auth_verify J k ms' (fst (signAccessToken J k h n tier ty ms)) =
    (if seconds ms' < seconds ms + ACCESS_TOKEN_TTL
     then Some \<lparr>ac_type = Some ty, ac_userId = Some h, ac_namespaceId = Some n, ac_tier = Some tier,
                ac_permissions = [''host:connect'']\<rparr> else None)"
  by (simp add: auth_verify_def verifyAccessToken_def signAccessToken_def verify_signed [OF assms]
      not_expired_def access_payload_def)

lemma verify_refresh:
  assumes "jose_laws J"
  shows "verifyRefreshToken J k ms' (signRefreshToken J k h jti ms) =
    (if seconds ms' < seconds ms + REFRESH_TOKEN_TTL \<and> h \<noteq> [] then Some h else None)"
  by (simp add: verifyRefreshToken_def signRefreshToken_def verify_signed [OF assms] not_expired_def
      refresh_payload_def)

lemma issue_pair_result:
  "fst (issue_pair C H J k h n tier jti ms c) =
     Some \<lparr>tr_accessToken = fst (signAccessToken J k h n tier ''machine'' ms),
       tr_refreshToken = signRefreshToken J k h jti ms, tr_expiresIn = ACCESS_TOKEN_TTL,
       tr_tokenType = ''Bearer''\<rparr>"
  "snd (issue_pair C H J k h n tier jti ms c) =
     saveRefreshToken C H (signRefreshToken J k h jti ms) h n c"
  by (simp_all add: issue_pair_def signAccessToken_def Let_def)

lemma register_client:
  assumes "icache C"
  shows "getClient C (rr_clientId (fst (auth_register C H rnd clientHex hostHex now req c)))
      (snd (auth_register C H rnd clientHex hostHex now req c)) =
    Some (buildClientRecord H clientHex hostHex (rq_name req) (rq_namespaceId req)
      (rq_capabilities req) (rq_publicKey req) (generateClientSecret rnd) now)"
proof -
  have read_C: "c_client C (cset C c k v ttl) k' =
      (if k' = k then (case v of V_client r \<Rightarrow> Some r | _ \<Rightarrow> None) else c_client C c k')" for c k v ttl k'
    by (rule icache.read_over_set(5) [OF assms])
  show ?thesis
    by (simp add: auth_register_def Let_def getClient_def saveClient_def savePublicKey_def
        read_C buildClientRecord_def split: option.splits)
qed

section \<open>Properties\<close>

text \<open>
  C13: credentials. The id and secret returned by \<open>register\<close> (and only a secret with the same hash)
  buy a token pair; the access token then authenticates the registered host in its namespace, as a
  machine of the free tier, for exactly the next 15 minutes, and under no other signing secret.
\<close>

theorem register_then_authenticate:
  fixes H :: "string \<Rightarrow> string" and req :: register_request and rnd clientHex hostHex :: string and now :: int and c :: 'c
  assumes "icache C" "jose_laws J"
  defines "reg \<equiv> auth_register C H rnd clientHex hostHex now req c"
  defines "resp \<equiv> fst reg"
  shows "(\<exists>t. fst (issueTokens C H J k (rr_clientId resp) (rr_clientSecret resp) jti ms (snd reg)) = Some t \<and>
      tr_expiresIn t = 900 \<and>
      auth_verify J k ms' (tr_accessToken t) =
        (if seconds ms' < seconds ms + 900
         then Some \<lparr>ac_type = Some ''machine'', ac_userId = Some (rr_hostId resp),
                    ac_namespaceId = Some (rq_namespaceId req), ac_tier = Some ''free'',
                    ac_permissions = [''host:connect'']\<rparr>
         else None) \<and>
      (k' \<noteq> k \<longrightarrow> auth_verify J k' ms' (tr_accessToken t) = None)) \<and>
    (H wrong \<noteq> H (rr_clientSecret resp) \<longrightarrow>
      issueTokens C H J k (rr_clientId resp) wrong jti ms (snd reg) = (None, snd reg))"
proof -
  have rec: "getClient C (rr_clientId resp) (snd reg) =
    Some (buildClientRecord H clientHex hostHex (rq_name req) (rq_namespaceId req)
      (rq_capabilities req) (rq_publicKey req) (generateClientSecret rnd) now)"
    unfolding resp_def reg_def by (rule register_client [OF assms(1)])
  have resp: "rr_clientSecret resp = generateClientSecret rnd" "rr_hostId resp = generateHostId hostHex"
    by (simp_all add: resp_def reg_def auth_register_def Let_def buildClientRecord_def)
  have other: "auth_verify J k' ms' (fst (signAccessToken J k h n tier ty ms)) = None" if "k' \<noteq> k" for h n tier ty
    using that verify_signed(2) [OF assms(2), of k k'] 
    by (simp add: auth_verify_def verifyAccessToken_def signAccessToken_def)
  show ?thesis
    using other by (simp add: issueTokens_def verifyClientSecret_def rec resp buildClientRecord_def
        issue_pair_result verify_access [OF assms(2)] ACCESS_TOKEN_TTL_def)
qed

lemma register_then_authenticate_witness:
  "\<exists>t. fst (issueTokens mem_cache id plain_jose ''key'' ''clt_a'' ''cs_s'' ''j'' 5000
      (snd (auth_register mem_cache id ''s'' ''a'' ''b'' 0
        \<lparr>rq_name = ''laptop'', rq_namespaceId = ''n'', rq_capabilities = [], rq_publicKey = None\<rparr> []))) = Some t \<and>
    auth_verify plain_jose ''key'' 904999 (tr_accessToken t) =
      Some \<lparr>ac_type = Some ''machine'', ac_userId = Some ''host_b'', ac_namespaceId = Some ''n'',
            ac_tier = Some ''free'', ac_permissions = [''host:connect'']\<rparr>"
  using register_then_authenticate [OF mem.icache_axioms plain_jose_laws, where H = id and rnd = "''s''" and
      clientHex = "''a''" and hostHex = "''b''" and now = 0 and c = "[]" and k = "''key''" and jti = "''j''" and
      ms = 5000 and ms' = 904999 and req = "\<lparr>rq_name = ''laptop'', rq_namespaceId = ''n'',
        rq_capabilities = [], rq_publicKey = None\<rparr>"]
  by (auto simp: auth_register_def Let_def buildClientRecord_def generateClientId_def
      generateClientSecret_def generateHostId_def seconds_def)



text \<open>
  C39: the two token kinds are separated in one direction only. An access token never refreshes, but a
  refresh token passes as an access token for its whole 30 days (an access token lives 15 minutes):
  \<open>resolveToken\<close>, which guards every route, returns a context of type ``refresh'' without namespace
  and tier, because \<open>verifyAccessToken\<close> does not look at the token's type.
\<close>

theorem refresh_token_authenticates:
  assumes "jose_laws J"
  shows "auth_resolveToken C J k ms' (signRefreshToken J k h jti ms) c =
      (if seconds ms' < seconds ms + 2592000
       then Some \<lparr>ac_type = Some ''refresh'', ac_userId = Some h, ac_namespaceId = None, ac_tier = None,
              ac_permissions = [''host:connect'']\<rparr>
       else map_option (\<lambda>(h', n'). \<lparr>ac_type = Some ''machine'', ac_userId = Some h',
              ac_namespaceId = Some n', ac_tier = Some ''free'', ac_permissions = [''host:connect'']\<rparr>)
            (c_token C c (tokenKey (signRefreshToken J k h jti ms)))) \<and>
    fst (refreshTokens C H J k (fst (signAccessToken J k h n tier ''machine'' ms)) jti' ms' c) = None"
  by (simp add: auth_resolveToken_def auth_verify_def verifyAccessToken_def signRefreshToken_def
      verify_signed [OF assms] not_expired_def refresh_payload_def REFRESH_TOKEN_TTL_def
      refreshTokens_def verifyRefreshToken_def signAccessToken_def access_payload_def)

lemma refresh_token_authenticates_witness:
  "auth_resolveToken mem_cache plain_jose ''key'' 2000000000 (signRefreshToken plain_jose ''key'' ''h'' ''j'' 0) [] =
     Some \<lparr>ac_type = Some ''refresh'', ac_userId = Some ''h'', ac_namespaceId = None, ac_tier = None,
           ac_permissions = [''host:connect'']\<rparr>"
  using refresh_token_authenticates [OF plain_jose_laws, of mem_cache "''key''" 2000000000 "''h''" "''j''" 0 "[]"]
  by (simp add: seconds_def)

text \<open>
  What \<open>extractBearerToken\<close> accepts. A token it returns is a nonempty, line-break-free end of the
  header after the word ``bearer'' (in any case) and at least one white space; and a header of that
  form whose token does not begin with white space yields exactly that token.
\<close>

theorem bearer_header:
  shows "(extractBearerToken (Some h) = Some t \<longrightarrow>
      (\<exists>p w. h = p @ w @ t \<and> map ascii_lower p = ''bearer'' \<and> w \<noteq> [] \<and> list_all js_space w \<and>
         t \<noteq> [] \<and> \<not> list_ex line_end t)) \<and>
    (map ascii_lower p = ''bearer'' \<and> w \<noteq> [] \<and> list_all js_space w \<and> \<not> list_ex line_end (x # xs) \<and>
       \<not> js_space x \<longrightarrow> extractBearerToken (Some (p @ w @ x # xs)) = Some (x # xs))"
proof (intro conjI impI)
  have sound: "\<exists>k. 0 < k \<and> k \<le> m \<and> t = drop k s \<and> t \<noteq> [] \<and> \<not> list_ex line_end t"
    if "match_token m s = Some t" for m s
    using that
  proof (induction m)
    case (Suc m)
    show ?case
    proof (cases "drop (Suc m) s \<noteq> [] \<and> (\<forall>c\<in>set (drop (Suc m) s). \<not> line_end c)")
      case True
      with Suc.prems show ?thesis by (intro exI [of _ "Suc m"]) (auto simp: list_ex_iff Let_def)
    next
      case False
      with Suc.prems have "match_token m s = Some t" by (simp add: Let_def split: if_splits)
      with Suc.IH show ?thesis by (meson le_SucI)
    qed
  qed simp
  assume h: "extractBearerToken (Some h) = Some t"
  let ?s = "drop 6 h" and ?w = "takeWhile js_space (drop 6 h)"
  from h have p: "map ascii_lower (take 6 h) = ''bearer''" "match_token (length ?w) ?s = Some t"
    by (auto simp: extractBearerToken_def split: if_splits)
  from sound [OF p(2)] obtain k where k: "0 < k" "k \<le> length ?w" "t = drop k ?s" "t \<noteq> []"
    "\<not> list_ex line_end t" by blast
  have "take k ?s = take k ?w"
    using k(2) takeWhile_dropWhile_id [of js_space ?s] by (metis diff_is_0_eq take_0 append_Nil2 take_append)
  moreover have "list_all js_space (take k ?w)"
    by (auto simp: list_all_iff dest!: in_set_takeD set_takeWhileD)
  moreover have "take k ?w \<noteq> []" using k(1,2) by auto
  moreover have "h = take 6 h @ take k ?s @ t" by (simp only: k(3) append_take_drop_id)
  ultimately show "\<exists>p w. h = p @ w @ t \<and> map ascii_lower p = ''bearer'' \<and> w \<noteq> [] \<and> list_all js_space w \<and>
         t \<noteq> [] \<and> \<not> list_ex line_end t" using p(1) k(4,5) by metis
next
  assume a: "map ascii_lower p = ''bearer'' \<and> w \<noteq> [] \<and> list_all js_space w \<and>
      \<not> list_ex line_end (x # xs) \<and> \<not> js_space x"
  then have "length (map ascii_lower p) = 6" by simp
  then have "length p = 6" by simp
  moreover have "takeWhile js_space (w @ x # xs) = w"
    using a by (simp add: takeWhile_append2 list_all_iff)
  moreover obtain m where "length w = Suc m" using a by (cases w) auto
  ultimately show "extractBearerToken (Some (p @ w @ x # xs)) = Some (x # xs)"
    using a by (simp add: extractBearerToken_def list_ex_iff)
qed

lemma bearer_header_witness:
  "extractBearerToken (Some ''BEARER   abc.def'') = Some ''abc.def''"
proof -
  have "map ascii_lower ''BEARER'' = ''bearer''" "list_all js_space ''   ''"
    "\<not> list_ex line_end ''abc.def''" "\<not> js_space CHR ''a''" by code_simp+
  with bearer_header [of "[]" "[]" "''BEARER''" "''   ''" "CHR ''a''" "''bc.def''"] show ?thesis by simp
qed

end
