(* ===== verification/Host_Dispatcher.thy ===== *)
theory Host_Dispatcher
  imports Gateway_Contracts
begin

text \<open>
  packages/gateway-core/src/dispatcher.ts: \<open>HostCallDispatcher\<close>, which routes capability calls to
  the sockets of connected hosts and settles the callers' promises from the hosts' answers.

  The three maps of the class are the fields \<open>d_connections\<close>, \<open>d_capabilityIndex\<close> and
  \<open>d_pending\<close>. What the code does to the outside is recorded beside them: the armed timers, the
  state of every promise \<open>call\<close> has returned (settling a settled promise does nothing, as in
  JavaScript) and the messages sent, in order. Sockets are numbers; \<open>randomUUID\<close> results are
  arguments. \<open>socket.send\<close> may throw, which rejects the promise but leaves the entry and its timer.
\<close>

section \<open>State\<close>

type_synonym sock = nat

record pending_call =
  pc_chunks :: "jval list"
  pc_timer :: nat

datatype promise = P_pending | P_resolved jval | P_rejected string

record dispatcher =
  d_connections :: "(string, (string, sock) jsmap) jsmap"
  d_capabilityIndex :: "(string, (string, string list) jsmap) jsmap"
  d_pending :: "(string, pending_call) jsmap"
  d_timers :: "(nat, string \<times> string) jsmap"
    \<comment> \<open>timer id, the request it belongs to and the rejection it carries\<close>
  d_nextTimer :: nat
  d_promises :: "(string, promise) jsmap"
  d_sent :: "(sock \<times> outbound_msg) list"

definition init_dispatcher :: dispatcher where
  "init_dispatcher =
     \<lparr>d_connections = [], d_capabilityIndex = [], d_pending = [], d_timers = [], d_nextTimer = 0,
      d_promises = [], d_sent = []\<rparr>"

section \<open>Connections\<close>

definition socket_of :: "dispatcher \<Rightarrow> string \<Rightarrow> string \<Rightarrow> sock option" where
  "socket_of d ns h = Option.bind (jm_get (d_connections d) ns) (\<lambda>m. jm_get m h)"

definition capable :: "dispatcher \<Rightarrow> string \<Rightarrow> string \<Rightarrow> string list" where
  "capable d ns cap =
     or_else (Option.bind (jm_get (d_capabilityIndex d) ns) (\<lambda>m. jm_get m cap)) []"

definition add_capability ::
  "string \<Rightarrow> string \<Rightarrow> (string, string list) jsmap \<Rightarrow> (string, string list) jsmap" where
  "add_capability hostId cap nsIdx =
     (let idx = (if jm_has nsIdx cap then nsIdx else jm_set nsIdx cap [])
      in jm_set idx cap (js_add (or_else (jm_get idx cap) []) hostId))"

definition registerConnection ::
  "string \<Rightarrow> string \<Rightarrow> sock \<Rightarrow> string list \<Rightarrow> dispatcher \<Rightarrow> dispatcher" where
  "registerConnection hostId namespaceId ws capabilities d =
     (let conns = (if jm_has (d_connections d) namespaceId then d_connections d
                   else jm_set (d_connections d) namespaceId []);
          hosts = or_else (jm_get conns namespaceId) [];
          d1 = d\<lparr>d_connections := jm_set conns namespaceId (jm_set hosts hostId ws)\<rparr>
      in if capabilities = [] then d1
         else let index = (if jm_has (d_capabilityIndex d1) namespaceId then d_capabilityIndex d1
                           else jm_set (d_capabilityIndex d1) namespaceId []);
                  nsIdx = or_else (jm_get index namespaceId) []
              in d1\<lparr>d_capabilityIndex :=
                   jm_set index namespaceId (fold (add_capability hostId) capabilities nsIdx)\<rparr>)"

definition removeConnection :: "string \<Rightarrow> string \<Rightarrow> dispatcher \<Rightarrow> dispatcher" where
  "removeConnection hostId namespaceId d =
     (let d1 = (case jm_get (d_connections d) namespaceId of
                  None \<Rightarrow> d
                | Some hosts \<Rightarrow> d\<lparr>d_connections :=
                    jm_set (d_connections d) namespaceId (jm_delete hosts hostId)\<rparr>)
      in case jm_get (d_capabilityIndex d1) namespaceId of
           None \<Rightarrow> d1
         | Some nsIdx \<Rightarrow> d1\<lparr>d_capabilityIndex :=
             jm_set (d_capabilityIndex d1) namespaceId (jm_map (\<lambda>_ hosts. js_remove hosts hostId) nsIdx)\<rparr>)"

definition connectedCount :: "string \<Rightarrow> dispatcher \<Rightarrow> nat" where
  "connectedCount namespaceId d =
     or_else (map_option jm_size (jm_get (d_connections d) namespaceId)) 0"

definition firstHost :: "string \<Rightarrow> dispatcher \<Rightarrow> string option" where
  "firstHost namespaceId d =
     (case jm_get (d_connections d) namespaceId of
        None \<Rightarrow> None
      | Some ns \<Rightarrow> (case jm_keys ns of [] \<Rightarrow> None | h # _ \<Rightarrow> Some h))"

definition firstHostWithCapability :: "string \<Rightarrow> string \<Rightarrow> dispatcher \<Rightarrow> string option" where
  "firstHostWithCapability namespaceId capability d =
     (case jm_get (d_capabilityIndex d) namespaceId of
        None \<Rightarrow> None
      | Some nsIdx \<Rightarrow>
          (case jm_get nsIdx capability of
             None \<Rightarrow> None
           | Some hosts \<Rightarrow> find (\<lambda>hostId. socket_of d namespaceId hostId \<noteq> None) hosts))"

section \<open>Calls\<close>

text \<open>\<open>resolve\<close> and \<open>reject\<close>: only a pending promise takes an outcome.\<close>

definition settle :: "string \<Rightarrow> promise \<Rightarrow> dispatcher \<Rightarrow> dispatcher" where
  "settle requestId outcome d =
     (if jm_get (d_promises d) requestId = Some P_pending
      then d\<lparr>d_promises := jm_set (d_promises d) requestId outcome\<rparr> else d)"

definition not_connected_message :: "string \<Rightarrow> string \<Rightarrow> string" where
  "not_connected_message hostId namespaceId =
     ''Host not connected: '' @ hostId @ '' (namespace: '' @ namespaceId @ '')''"

definition timed_out_message :: "string \<Rightarrow> string \<Rightarrow> string \<Rightarrow> string" where
  "timed_out_message adapter method requestId =
     ''Call timed out: '' @ adapter @ ''.'' @ method @ '' (requestId: '' @ requestId @ '')''"

text \<open>
  \<open>call\<close>: \<open>Inl\<close> when it throws before a promise exists, else the request id its promise is filed
  under. \<open>send_throws\<close> is the error \<open>socket.send\<close> throws, if it does.
\<close>

definition dispatcher_call ::
  "string \<Rightarrow> string \<Rightarrow> string \<Rightarrow> string \<Rightarrow> jval list \<Rightarrow> string \<Rightarrow> trace_context \<Rightarrow> string option
     \<Rightarrow> dispatcher \<Rightarrow> (string + string) \<times> dispatcher" where
  "dispatcher_call namespaceId hostId adapter method args requestId trace send_throws d =
     (case socket_of d namespaceId hostId of
        None \<Rightarrow> (Inl (not_connected_message hostId namespaceId), d)
      | Some socket \<Rightarrow>
          let timer = d_nextTimer d;
              d1 = d\<lparr>d_timers := jm_set (d_timers d) timer
                        (requestId, timed_out_message adapter method requestId),
                     d_nextTimer := Suc timer,
                     d_promises := jm_set (d_promises d) requestId P_pending,
                     d_pending := jm_set (d_pending d) requestId \<lparr>pc_chunks = [], pc_timer = timer\<rparr>\<rparr>
          in (Inr requestId,
              case send_throws of
                Some e \<Rightarrow> settle requestId (P_rejected e) d1
              | None \<Rightarrow> d1\<lparr>d_sent := d_sent d1 @ [(socket, O_call requestId adapter method args trace)]\<rparr>))"

text \<open>The timer of a call fires.\<close>

definition call_timeout :: "nat \<Rightarrow> dispatcher \<Rightarrow> dispatcher" where
  "call_timeout timer d =
     (case jm_get (d_timers d) timer of
        None \<Rightarrow> d
      | Some (requestId, message) \<Rightarrow>
          settle requestId (P_rejected message)
            (d\<lparr>d_timers := jm_delete (d_timers d) timer, d_pending := jm_delete (d_pending d) requestId\<rparr>))"

text \<open>The value a \<open>result\<close> resolves with: one chunk alone, several as an array, none as \<open>undefined\<close>.\<close>

definition collect_chunks :: "jval list \<Rightarrow> jval" where
  "collect_chunks chunks =
     (if length chunks = 1 then chunks ! 0 else if length chunks > 1 then JArr chunks else JUndef)"

text \<open>The text an \<open>error\<close> rejects with; \<open>None\<close> when building it throws.\<close>

definition error_text :: "jval \<Rightarrow> string option" where
  "error_text err =
     (case err of
        JObj _ \<Rightarrow> js_String (js_nullish (js_member err ''message'') err)
      | JArr _ \<Rightarrow> js_String (js_nullish (js_member err ''message'') err)
      | _ \<Rightarrow> js_String (js_nullish err (JStr ''Unknown error'')))"

definition close_call :: "string \<Rightarrow> pending_call \<Rightarrow> dispatcher \<Rightarrow> dispatcher" where
  "close_call requestId pc d =
     d\<lparr>d_timers := jm_delete (d_timers d) (pc_timer pc), d_pending := jm_delete (d_pending d) requestId\<rparr>"

definition handleInbound :: "inbound_msg \<Rightarrow> dispatcher \<Rightarrow> dispatcher" where
  "handleInbound msg d =
     (if \<not> truthy (im_requestId msg) then d
      else let requestId = the (im_requestId msg)
           in case jm_get (d_pending d) requestId of
                None \<Rightarrow> d
              | Some pc \<Rightarrow>
                  if im_type msg = ''chunk''
                  then d\<lparr>d_pending := jm_set (d_pending d) requestId
                          (pc\<lparr>pc_chunks := pc_chunks pc @ [im_data msg]\<rparr>)\<rparr>
                  else if im_type msg = ''result''
                  then settle requestId (P_resolved (collect_chunks (pc_chunks pc))) (close_call requestId pc d)
                  else if im_type msg = ''error''
                  then (case error_text (im_error msg) of
                          Some e \<Rightarrow> settle requestId (P_rejected e) (close_call requestId pc d)
                        | None \<Rightarrow> close_call requestId pc d)
                  else d)"

section \<open>What the maps hold after an operation\<close>

lemma socket_of_register [gw_simps]:
  "socket_of (registerConnection h ns ws caps d) ns' h' =
     (if ns' = ns \<and> h' = h then Some ws else socket_of d ns' h')"
  by (auto simp: registerConnection_def socket_of_def Let_def jm_has_def split: option.splits)

lemma socket_of_remove [gw_simps]:
  "socket_of (removeConnection h ns d) ns' h' =
     (if ns' = ns \<and> h' = h then None else socket_of d ns' h')"
  by (auto simp: removeConnection_def socket_of_def Let_def split: option.splits)

lemma get_add_capability:
  "jm_get (add_capability h cap idx) c =
     (if c = cap then Some (js_add (or_else (jm_get idx cap) []) h) else jm_get idx c)"
  by (auto simp: add_capability_def Let_def jm_has_def)

lemma get_fold_add_capability:
  "set (or_else (jm_get (fold (add_capability h) caps idx) c) []) =
     set (or_else (jm_get idx c) []) \<union> (if c \<in> set caps then {h} else {})"
  by (induction caps arbitrary: idx) (auto simp: get_add_capability)

lemma or_else_bind:
  "or_else (Option.bind a f) b = (case a of None \<Rightarrow> b | Some x \<Rightarrow> or_else (f x) b)"
  by (cases a) auto

lemma or_else_map_remove:
  "or_else (map_option (\<lambda>hosts. js_remove hosts h) a) [] = js_remove (or_else a []) h"
  by (cases a) (simp_all add: js_remove_def)

lemma capable_register [gw_simps]:
  "set (capable (registerConnection h ns ws caps d) ns' c) =
     set (capable d ns' c) \<union> (if ns' = ns \<and> c \<in> set caps then {h} else {})"
  by (auto simp: registerConnection_def capable_def Let_def jm_has_def get_fold_add_capability
      or_else_bind split: option.splits)

lemma capable_remove [gw_simps]:
  "set (capable (removeConnection h ns d) ns' c) =
     (if ns' = ns then set (capable d ns' c) - {h} else set (capable d ns' c))"
  by (auto simp: removeConnection_def capable_def Let_def or_else_bind or_else_map_remove
      split: option.splits)

lemma connection_fields [gw_simps]:
  "d_pending (registerConnection h ns ws caps d) = d_pending d"
  "d_timers (registerConnection h ns ws caps d) = d_timers d"
  "d_nextTimer (registerConnection h ns ws caps d) = d_nextTimer d"
  "d_promises (registerConnection h ns ws caps d) = d_promises d"
  "d_sent (registerConnection h ns ws caps d) = d_sent d"
  "d_pending (removeConnection h ns d) = d_pending d"
  "d_timers (removeConnection h ns d) = d_timers d"
  "d_nextTimer (removeConnection h ns d) = d_nextTimer d"
  "d_promises (removeConnection h ns d) = d_promises d"
  "d_sent (removeConnection h ns d) = d_sent d"
  by (simp_all add: registerConnection_def removeConnection_def Let_def split: option.splits)

lemma settle_fields [simp]:
  "d_connections (settle r out d) = d_connections d"
  "d_capabilityIndex (settle r out d) = d_capabilityIndex d"
  "d_pending (settle r out d) = d_pending d"
  "d_timers (settle r out d) = d_timers d"
  "d_nextTimer (settle r out d) = d_nextTimer d"
  "d_sent (settle r out d) = d_sent d"
  by (simp_all add: settle_def)

lemma settle_promise [gw_simps]:
  "jm_get (d_promises (settle r out d)) r' =
     (if r' = r \<and> jm_get (d_promises d) r = Some P_pending then Some out
      else jm_get (d_promises d) r')"
  by (auto simp: settle_def)

lemma close_call_fields [simp]:
  "d_connections (close_call r pc d) = d_connections d"
  "d_capabilityIndex (close_call r pc d) = d_capabilityIndex d"
  "d_pending (close_call r pc d) = jm_delete (d_pending d) r"
  "d_timers (close_call r pc d) = jm_delete (d_timers d) (pc_timer pc)"
  "d_nextTimer (close_call r pc d) = d_nextTimer d"
  "d_promises (close_call r pc d) = d_promises d"
  "d_sent (close_call r pc d) = d_sent d"
  by (simp_all add: close_call_def)

text \<open>Answers, timeouts and calls leave connections and capabilities alone.\<close>

lemma inbound_connections [gw_simps]:
  "d_connections (handleInbound m d) = d_connections d"
  "d_capabilityIndex (handleInbound m d) = d_capabilityIndex d"
  by (simp_all add: handleInbound_def Let_def split: option.splits)

lemma timeout_connections [gw_simps]:
  "d_connections (call_timeout t d) = d_connections d"
  "d_capabilityIndex (call_timeout t d) = d_capabilityIndex d"
  by (simp_all add: call_timeout_def split: option.splits)

lemma call_connections [gw_simps]:
  "d_connections (snd (dispatcher_call ns h a m args r tr thr d)) = d_connections d"
  "d_capabilityIndex (snd (dispatcher_call ns h a m args r tr thr d)) = d_capabilityIndex d"
  by (simp_all add: dispatcher_call_def Let_def split: option.splits)

lemma same_connections:
  "d_connections d' = d_connections d \<Longrightarrow> socket_of d' = socket_of d"
  "d_capabilityIndex d' = d_capabilityIndex d \<Longrightarrow> capable d' = capable d"
  by (simp_all add: socket_of_def capable_def fun_eq_iff)

lemma firstHostWithCapability_find:
  "firstHostWithCapability ns cap d = find (\<lambda>h. socket_of d ns h \<noteq> None) (capable d ns cap)"
  by (auto simp: firstHostWithCapability_def capable_def split: option.splits)

section \<open>Invariant\<close>

text \<open>
  Pending entries and armed timers are in one-to-one correspondence, every entry has a promise, and
  a host indexed for a capability is connected.
\<close>

definition calls_ok :: "dispatcher \<Rightarrow> bool" where
  "calls_ok d \<longleftrightarrow>
     (\<forall>r pc. jm_get (d_pending d) r = Some pc \<longrightarrow>
        (\<exists>m. jm_get (d_timers d) (pc_timer pc) = Some (r, m)) \<and> jm_get (d_promises d) r \<noteq> None) \<and>
     (\<forall>t r m. jm_get (d_timers d) t = Some (r, m) \<longrightarrow>
        t < d_nextTimer d \<and> (\<exists>pc. jm_get (d_pending d) r = Some pc \<and> pc_timer pc = t))"

definition index_ok :: "dispatcher \<Rightarrow> bool" where
  "index_ok d \<longleftrightarrow> (\<forall>ns cap h. h \<in> set (capable d ns cap) \<longrightarrow> socket_of d ns h \<noteq> None)"

text \<open>Every promise still pending has its entry.\<close>

definition no_lost_call :: "dispatcher \<Rightarrow> bool" where
  "no_lost_call d \<longleftrightarrow>
     (\<forall>r. jm_get (d_promises d) r = Some P_pending \<longrightarrow> jm_get (d_pending d) r \<noteq> None)"

text \<open>
  One operation of the dispatcher. A call takes a request id never used before (\<open>randomUUID\<close>); \<open>ok\<close>
  restricts the messages hosts send, \<open>\<lambda>_. True\<close> for no restriction.
\<close>

inductive disp_step :: "(inbound_msg \<Rightarrow> bool) \<Rightarrow> dispatcher \<Rightarrow> dispatcher \<Rightarrow> bool"
  for ok :: "inbound_msg \<Rightarrow> bool" where
  register: "disp_step ok d (registerConnection h ns ws caps d)"
| remove: "disp_step ok d (removeConnection h ns d)"
| call: "jm_get (d_promises d) r = None \<Longrightarrow>
     disp_step ok d (snd (dispatcher_call ns h adapter method args r tr thr d))"
| inbound: "ok m \<Longrightarrow> disp_step ok d (handleInbound m d)"
| timeout: "disp_step ok d (call_timeout t d)"

inductive disp_reachable :: "(inbound_msg \<Rightarrow> bool) \<Rightarrow> dispatcher \<Rightarrow> bool"
  for ok :: "inbound_msg \<Rightarrow> bool" where
  start: "disp_reachable ok init_dispatcher"
| step: "disp_reachable ok d \<Longrightarrow> disp_step ok d d' \<Longrightarrow> disp_reachable ok d'"

lemma calls_ok_pendingD:
  "calls_ok d \<Longrightarrow> jm_get (d_pending d) r = Some pc \<Longrightarrow>
     (\<exists>m. jm_get (d_timers d) (pc_timer pc) = Some (r, m)) \<and> jm_get (d_promises d) r \<noteq> None"
  by (auto simp: calls_ok_def)

lemma calls_ok_timerD:
  "calls_ok d \<Longrightarrow> jm_get (d_timers d) t = Some (r, m) \<Longrightarrow>
     t < d_nextTimer d \<and> (\<exists>pc. jm_get (d_pending d) r = Some pc \<and> pc_timer pc = t)"
  by (auto simp: calls_ok_def)

lemma calls_okI:
  assumes "\<And>r pc. jm_get (d_pending d) r = Some pc \<Longrightarrow>
      (\<exists>m. jm_get (d_timers d) (pc_timer pc) = Some (r, m)) \<and> jm_get (d_promises d) r \<noteq> None"
    and "\<And>t r m. jm_get (d_timers d) t = Some (r, m) \<Longrightarrow>
      t < d_nextTimer d \<and> (\<exists>pc. jm_get (d_pending d) r = Some pc \<and> pc_timer pc = t)"
  shows "calls_ok d"
  using assms unfolding calls_ok_def by blast

lemma calls_ok_settle [simp]: "calls_ok (settle r out d) = calls_ok d"
  by (auto simp: calls_ok_def settle_promise)

lemma calls_ok_sent [simp]: "calls_ok (d\<lparr>d_sent := xs\<rparr>) = calls_ok d"
  by (simp add: calls_ok_def)

lemma calls_ok_arm:
  assumes inv: "calls_ok d" and fresh: "jm_get (d_promises d) r = None"
  shows "calls_ok (d\<lparr>d_timers := jm_set (d_timers d) (d_nextTimer d) (r, msg),
      d_nextTimer := Suc (d_nextTimer d), d_promises := jm_set (d_promises d) r P_pending,
      d_pending := jm_set (d_pending d) r \<lparr>pc_chunks = [], pc_timer = d_nextTimer d\<rparr>\<rparr>)"
    (is "calls_ok ?d")
proof (rule calls_okI)
  fix r' pc
  assume "jm_get (d_pending ?d) r' = Some pc"
  then show "(\<exists>m. jm_get (d_timers ?d) (pc_timer pc) = Some (r', m)) \<and> jm_get (d_promises ?d) r' \<noteq> None"
    using calls_ok_pendingD [OF inv, of r' pc] calls_ok_timerD [OF inv, of "d_nextTimer d"]
    by (auto split: if_splits)
next
  fix t r' m
  assume t: "jm_get (d_timers ?d) t = Some (r', m)"
  show "t < d_nextTimer ?d \<and> (\<exists>pc. jm_get (d_pending ?d) r' = Some pc \<and> pc_timer pc = t)"
  proof (cases "t = d_nextTimer d")
    case True
    with t show ?thesis by auto
  next
    case False
    with t have old: "jm_get (d_timers d) t = Some (r', m)" by simp
    with inv obtain pc where "t < d_nextTimer d" "jm_get (d_pending d) r' = Some pc" "pc_timer pc = t"
      by (metis calls_ok_timerD)
    moreover from this(2) fresh inv have "r' \<noteq> r" by (metis calls_ok_pendingD)
    ultimately show ?thesis by simp
  qed
qed

lemma calls_ok_call:
  assumes "calls_ok d" "jm_get (d_promises d) r = None"
  shows "calls_ok (snd (dispatcher_call ns h a m args r tr thr d))"
  using assms(1) calls_ok_arm [OF assms]
  by (simp add: dispatcher_call_def Let_def split: option.splits)

lemma calls_ok_close:
  assumes inv: "calls_ok d" and pc: "jm_get (d_pending d) r = Some pc"
  shows "calls_ok (close_call r pc d)"
proof -
  have "\<And>r' pc'. jm_get (d_pending d) r' = Some pc' \<Longrightarrow> r' \<noteq> r \<Longrightarrow> pc_timer pc' \<noteq> pc_timer pc"
    using inv pc by (metis calls_ok_pendingD fst_conv option.inject)
  moreover have "\<And>t m. jm_get (d_timers d) t = Some (r, m) \<Longrightarrow> t = pc_timer pc"
    using inv pc by (metis calls_ok_timerD option.inject)
  ultimately show ?thesis
    using calls_ok_pendingD [OF inv] calls_ok_timerD [OF inv]
    by (intro calls_okI) (auto split: if_splits)
qed

lemma calls_ok_chunk:
  assumes inv: "calls_ok d" and pc: "jm_get (d_pending d) r = Some pc" and "pc_timer pc' = pc_timer pc"
  shows "calls_ok (d\<lparr>d_pending := jm_set (d_pending d) r pc'\<rparr>)" (is "calls_ok ?d")
proof (rule calls_okI)
  fix r' pc1
  assume "jm_get (d_pending ?d) r' = Some pc1"
  then show "(\<exists>m. jm_get (d_timers ?d) (pc_timer pc1) = Some (r', m)) \<and> jm_get (d_promises ?d) r' \<noteq> None"
    using calls_ok_pendingD [OF inv] pc assms(3) by (simp split: if_splits)
next
  fix t r' m
  assume "jm_get (d_timers ?d) t = Some (r', m)"
  then show "t < d_nextTimer ?d \<and> (\<exists>pc. jm_get (d_pending ?d) r' = Some pc \<and> pc_timer pc = t)"
    using calls_ok_timerD [OF inv, of t r' m] pc assms(3) by auto
qed

lemma calls_ok_inbound:
  assumes "calls_ok d" shows "calls_ok (handleInbound m d)"
proof (cases "jm_get (d_pending d) (the (im_requestId m))")
  case None
  then show ?thesis using assms by (simp add: handleInbound_def Let_def)
next
  case (Some pc)
  from calls_ok_close [OF assms Some] calls_ok_chunk [OF assms Some] assms Some show ?thesis
    by (auto simp: handleInbound_def Let_def split: option.splits)
qed

lemma timeout_close:
  assumes "jm_get (d_timers d) t = Some (r, m)" "jm_get (d_pending d) r = Some pc" "pc_timer pc = t"
  shows "call_timeout t d = settle r (P_rejected m) (close_call r pc d)"
  using assms by (simp add: call_timeout_def close_call_def)

lemma calls_ok_timeout:
  assumes "calls_ok d" shows "calls_ok (call_timeout t d)"
proof (cases "jm_get (d_timers d) t")
  case None
  then show ?thesis using assms by (simp add: call_timeout_def)
next
  case (Some rm)
  then obtain r m where rm: "jm_get (d_timers d) t = Some (r, m)" by (cases rm) auto
  with assms obtain pc where "jm_get (d_pending d) r = Some pc" "pc_timer pc = t"
    by (metis calls_ok_timerD)
  with rm assms show ?thesis by (simp add: timeout_close calls_ok_close)
qed

lemma index_ok_frame:
  "d_connections d' = d_connections d \<Longrightarrow> d_capabilityIndex d' = d_capabilityIndex d \<Longrightarrow>
     index_ok d' = index_ok d"
  by (simp add: index_ok_def socket_of_def capable_def)

lemma index_ok_ops [simp]:
  "index_ok (snd (dispatcher_call ns h a m args r tr thr d)) = index_ok d"
  "index_ok (handleInbound msg d) = index_ok d"
  "index_ok (call_timeout t d) = index_ok d"
  by (rule index_ok_frame; simp add: gw_simps)+

lemma index_ok_step: "disp_step ok d d' \<Longrightarrow> index_ok d \<Longrightarrow> index_ok d'"
proof (induction rule: disp_step.induct)
  case (register d h ns ws caps)
  then show ?case by (auto simp: index_ok_def gw_simps)
next
  case (remove d h ns)
  then show ?case by (auto simp: index_ok_def gw_simps split: if_splits)
qed simp_all

lemma calls_ok_connections [simp]:
  "calls_ok (registerConnection h ns ws caps d) = calls_ok d"
  "calls_ok (removeConnection h ns d) = calls_ok d"
  by (simp_all add: calls_ok_def gw_simps)

lemma calls_ok_step: "disp_step ok d d' \<Longrightarrow> calls_ok d \<Longrightarrow> calls_ok d'"
  by (induction rule: disp_step.induct) (simp_all add: calls_ok_call calls_ok_inbound calls_ok_timeout)

lemma disp_reachable_ok: "disp_reachable ok d \<Longrightarrow> calls_ok d \<and> index_ok d"
proof (induction rule: disp_reachable.induct)
  case start
  show ?case by (simp add: calls_ok_def index_ok_def init_dispatcher_def capable_def)
next
  case (step d d')
  then show ?case by (blast intro: calls_ok_step index_ok_step)
qed

text \<open>Error messages the gateway can print.\<close>

definition printable :: "inbound_msg \<Rightarrow> bool" where
  "printable m \<longleftrightarrow> im_type m = ''error'' \<longrightarrow> error_text (im_error m) \<noteq> None"

lemma no_lost_inbound:
  assumes "printable m" "no_lost_call d"
  shows "no_lost_call (handleInbound m d)"
  using assms by (auto simp: handleInbound_def no_lost_call_def Let_def settle_promise printable_def
      split: option.splits if_splits)

lemma no_lost_timeout: "calls_ok d \<Longrightarrow> no_lost_call d \<Longrightarrow> no_lost_call (call_timeout t d)"
  by (auto simp: call_timeout_def no_lost_call_def settle_promise split: option.splits if_splits)

lemma no_lost_call_call:
  "no_lost_call d \<Longrightarrow> no_lost_call (snd (dispatcher_call ns h a m args r tr thr d))"
  by (auto simp: dispatcher_call_def no_lost_call_def Let_def settle_promise
      split: option.splits if_splits)

lemma no_lost_connections [simp]:
  "no_lost_call (registerConnection h ns ws caps d) = no_lost_call d"
  "no_lost_call (removeConnection h ns d) = no_lost_call d"
  by (simp_all add: no_lost_call_def gw_simps)

lemma no_lost_step:
  "disp_step printable d d' \<Longrightarrow> calls_ok d \<Longrightarrow> no_lost_call d \<Longrightarrow> no_lost_call d'"
  by (induction rule: disp_step.induct)
    (auto simp: no_lost_inbound no_lost_timeout no_lost_call_call)

lemma no_lost_reachable: "disp_reachable printable d \<Longrightarrow> no_lost_call d"
proof (induction rule: disp_reachable.induct)
  case start
  show ?case by (simp add: no_lost_call_def init_dispatcher_def)
next
  case (step d d')
  then show ?case using disp_reachable_ok no_lost_step by blast
qed

lemma pending_call_timer:
  assumes "disp_reachable printable d" and "jm_get (d_promises d) r = Some P_pending"
  shows "\<exists>t msg. jm_get (d_timers d) t = Some (r, msg) \<and>
    jm_get (d_promises (call_timeout t d)) r = Some (P_rejected msg)"
proof -
  obtain pc where pc: "jm_get (d_pending d) r = Some pc"
    using no_lost_reachable [OF assms(1)] assms(2) by (auto simp: no_lost_call_def)
  with disp_reachable_ok [OF assms(1)] obtain m where m: "jm_get (d_timers d) (pc_timer pc) = Some (r, m)"
    by (metis calls_ok_pendingD)
  with pc have "call_timeout (pc_timer pc) d = settle r (P_rejected m) (close_call r pc d)"
    by (simp add: timeout_close)
  with assms(2) have "jm_get (d_promises (call_timeout (pc_timer pc) d)) r = Some (P_rejected m)"
    by (simp add: settle_promise)
  with m show ?thesis by blast
qed

section \<open>Messages of one call among others\<close>

definition answers :: "string \<Rightarrow> inbound_msg \<Rightarrow> bool" where
  "answers r m \<longleftrightarrow> im_requestId m = Some r"

definition terminal :: "inbound_msg \<Rightarrow> bool" where
  "terminal m \<longleftrightarrow> im_type m = ''result'' \<or> im_type m = ''error''"

definition chunk_data :: "string \<Rightarrow> inbound_msg list \<Rightarrow> jval list" where
  "chunk_data r ms = map im_data (filter (\<lambda>m. answers r m \<and> im_type m = ''chunk'') ms)"

lemma inbound_other:
  assumes "\<not> answers r m"
  shows "jm_get (d_pending (handleInbound m d)) r = jm_get (d_pending d) r"
    and "jm_get (d_promises (handleInbound m d)) r = jm_get (d_promises d) r"
  using assms by (auto simp: handleInbound_def answers_def truthy_def Let_def settle_promise
      split: option.splits)

lemma inbound_mine:
  assumes "answers r m" "\<not> terminal m" "r \<noteq> []" "jm_get (d_pending d) r = Some pc"
  shows "jm_get (d_pending (handleInbound m d)) r =
      Some (pc\<lparr>pc_chunks := pc_chunks pc @ chunk_data r [m]\<rparr>)"
    and "jm_get (d_promises (handleInbound m d)) r = jm_get (d_promises d) r"
  using assms by (auto simp: handleInbound_def answers_def terminal_def chunk_data_def Let_def)

lemma inbound_stream:
  assumes "r \<noteq> []" "jm_get (d_pending d) r = Some pc" "\<forall>m \<in> set ms. answers r m \<longrightarrow> \<not> terminal m"
  shows "jm_get (d_pending (fold handleInbound ms d)) r =
      Some (pc\<lparr>pc_chunks := pc_chunks pc @ chunk_data r ms\<rparr>) \<and>
    jm_get (d_promises (fold handleInbound ms d)) r = jm_get (d_promises d) r"
  using assms
proof (induction ms arbitrary: d pc)
  case Nil
  then show ?case by (simp add: chunk_data_def)
next
  case (Cons m ms)
  show ?case
  proof (cases "answers r m")
    case True
    with Cons.prems have "\<not> terminal m" by simp
    note now = inbound_mine [OF True this Cons.prems(1,2)]
    from Cons.IH [OF Cons.prems(1) now(1)] Cons.prems(3) now(2)
    show ?thesis by (simp add: chunk_data_def)
  next
    case False
    note now = inbound_other [OF False, of d]
    from Cons.IH [OF Cons.prems(1), of "handleInbound m d" pc] Cons.prems now False
    show ?thesis by (simp add: chunk_data_def)
  qed
qed

lemma call_opens:
  assumes "socket_of d ns h \<noteq> None"
  shows "jm_get (d_pending (snd (dispatcher_call ns h a m args r tr None d))) r =
      Some \<lparr>pc_chunks = [], pc_timer = d_nextTimer d\<rparr>"
    and "jm_get (d_promises (snd (dispatcher_call ns h a m args r tr None d))) r = Some P_pending"
  using assms by (auto simp: dispatcher_call_def Let_def)

lemma hang_step:
  assumes "disp_step ok d d'" "calls_ok d"
    and "jm_get (d_promises d) r = Some P_pending" "jm_get (d_pending d) r = None"
  shows "jm_get (d_promises d') r = Some P_pending \<and> jm_get (d_pending d') r = None"
  using assms
proof (induction rule: disp_step.induct)
  case (call d r' ns h adapter meth arguments tr thr)
  then show ?case
    by (auto simp: dispatcher_call_def Let_def settle_promise split: option.splits)
next
  case (inbound m d)
  then show ?case
    by (auto simp: handleInbound_def Let_def settle_promise split: option.splits)
next
  case (timeout d t)
  then show ?case
    by (auto simp: call_timeout_def settle_promise split: option.splits dest: calls_ok_timerD)
qed (simp_all add: gw_simps)

section \<open>Properties\<close>

text \<open>C10:
  The answer a caller receives: after \<open>call\<close>, whatever messages of this and other calls the hosts
  interleave, the first \<open>result\<close> for the call resolves it with the data of exactly its own chunks,
  in order (one alone, several as an array, none as \<open>undefined\<close>), and closes it.
\<close>

theorem call_collects_own_chunks:
  assumes "socket_of d ns h \<noteq> None" and "r \<noteq> []"
    and "\<forall>m \<in> set ms. answers r m \<longrightarrow> \<not> terminal m"
    and "answers r res" "im_type res = ''result''"
  shows "let d1 = snd (dispatcher_call ns h a m args r tr None d);
             d2 = handleInbound res (fold handleInbound ms d1)
         in jm_get (d_promises d2) r = Some (P_resolved (collect_chunks (chunk_data r ms))) \<and>
            jm_get (d_pending d2) r = None \<and> jm_get (d_timers d2) (d_nextTimer d) = None"
proof -
  let ?d1 = "snd (dispatcher_call ns h a m args r tr None d)"
  let ?d2 = "fold handleInbound ms ?d1"
  note opened = call_opens [OF assms(1), of a m args r tr]
  from inbound_stream [OF assms(2) opened(1) assms(3)] opened(2)
  have "jm_get (d_pending ?d2) r = Some \<lparr>pc_chunks = chunk_data r ms, pc_timer = d_nextTimer d\<rparr>"
    and "jm_get (d_promises ?d2) r = Some P_pending"
    by simp_all
  with assms(2,4,5) show ?thesis
    by (simp add: handleInbound_def answers_def settle_promise Let_def)
qed

theorem call_collects_own_chunks_witness:
  "let c = (\<lambda>r v. \<lparr>im_type = ''chunk'', im_requestId = Some r, im_data = JNum v, im_error = JUndef\<rparr>);
       d1 = snd (dispatcher_call ''ns'' ''h'' ''fs'' ''read'' [] ''r''
              \<lparr>tc_traceId = ''t'', tc_spanId = ''s'', tc_parentId = None\<rparr> None
              (registerConnection ''h'' ''ns'' 7 [''execution''] init_dispatcher));
       d2 = handleInbound (c ''r'' 0\<lparr>im_type := ''result''\<rparr>)
              (fold handleInbound [c ''r'' 1, c ''other'' 5, c ''r'' 2] d1)
   in jm_get (d_promises d2) ''r'' = Some (P_resolved (JArr [JNum 1, JNum 2]))"
proof -
  let ?d = "registerConnection ''h'' ''ns'' 7 [''execution''] init_dispatcher"
  let ?c = "\<lambda>r v. \<lparr>im_type = ''chunk'', im_requestId = Some r, im_data = JNum v, im_error = JUndef\<rparr>"
  let ?ms = "[?c ''r'' 1, ?c ''other'' 5, ?c ''r'' 2]"
  have "socket_of ?d ''ns'' ''h'' \<noteq> None" by (simp add: socket_of_register)
  from call_collects_own_chunks [OF this, of "''r''" ?ms "?c ''r'' 0\<lparr>im_type := ''result''\<rparr>" "''fs''"
      "''read''" "[]" "\<lparr>tc_traceId = ''t'', tc_spanId = ''s'', tc_parentId = None\<rparr>"]
  show ?thesis
    by (simp add: answers_def terminal_def chunk_data_def collect_chunks_def Let_def)
qed

text \<open>C18:
  No call is lost: as long as the errors hosts report can be printed, every promise that is not yet
  settled has an armed timer, and that timer firing settles it with the timeout error.
\<close>

theorem unsettled_call_times_out:
  assumes "disp_reachable printable d" and "jm_get (d_promises d) r = Some P_pending"
  shows "\<exists>t msg. jm_get (d_timers d) t = Some (r, msg) \<and>
    jm_get (d_promises (call_timeout t d)) r = Some (P_rejected msg)"
  by (rule pending_call_timer [OF assms])

lemma sample_call_reachable:
  "disp_reachable ok (snd (dispatcher_call ''ns'' ''h'' ''execution'' ''execute'' [] ''r'' tr None
     (registerConnection ''h'' ''ns'' 7 [''execution''] init_dispatcher)))"
proof -
  have "disp_reachable ok (registerConnection ''h'' ''ns'' 7 [''execution''] init_dispatcher)"
    by (rule disp_reachable.step [OF disp_reachable.start disp_step.register])
  then show ?thesis
    by (rule disp_reachable.step) (rule disp_step.call, simp add: gw_simps init_dispatcher_def)
qed

theorem unsettled_call_times_out_witness:
  "\<exists>d t. jm_get (d_promises (call_timeout t d)) ''r'' \<noteq> Some P_pending \<and>
     jm_get (d_promises d) ''r'' = Some P_pending"
proof -
  let ?d = "registerConnection ''h'' ''ns'' 7 [''execution''] init_dispatcher"
  have "socket_of ?d ''ns'' ''h'' \<noteq> None" by (simp add: socket_of_register)
  note opened = call_opens(2) [OF this, of "''execution''" "''execute''" "[]" "''r''" undefined]
  from unsettled_call_times_out [OF sample_call_reachable opened] opened show ?thesis
    by (metis promise.distinct(3) option.inject)
qed

text \<open>C30:
  Where that fails: a host that answers a pending call with an error object that carries a member
  \<open>toString\<close> of its own makes \<open>handleInbound\<close> throw after the entry and the timer are gone, and no
  later operation ever settles the caller's promise.
\<close>

theorem unprintable_error_hangs_call:
  assumes "calls_ok d" "jm_get (d_promises d) r = Some P_pending" "r \<noteq> []"
    and "jm_get (d_pending d) r = Some pc"
    and "answers r m" "im_type m = ''error''" "im_error m = JObj [(''toString'', v)]"
    and "(disp_step (\<lambda>_. True))\<^sup>*\<^sup>* (handleInbound m d) d'"
  shows "jm_get (d_promises d') r = Some P_pending"
proof -
  have ok: "calls_ok (handleInbound m d)" using assms(1) by (rule calls_ok_inbound)
  have hung: "jm_get (d_promises (handleInbound m d)) r = Some P_pending \<and>
      jm_get (d_pending (handleInbound m d)) r = None"
    using assms(2-7) by (simp add: handleInbound_def answers_def error_text_def js_nullish_def Let_def)
  from assms(8) have "calls_ok d' \<and> jm_get (d_promises d') r = Some P_pending \<and>
      jm_get (d_pending d') r = None"
  proof (induction rule: rtranclp_induct)
    case base
    with ok hung show ?case by simp
  next
    case (step y z)
    then show ?case using hang_step calls_ok_step by blast
  qed
  then show ?thesis by simp
qed

theorem unprintable_error_hangs_call_witness:
  "\<exists>d m. jm_get (d_pending d) ''r'' \<noteq> None \<and>
     jm_get (d_promises (call_timeout 0 (handleInbound m d))) ''r'' = Some P_pending"
proof -
  let ?d = "registerConnection ''h'' ''ns'' 7 [''execution''] init_dispatcher"
  let ?m = "\<lparr>im_type = ''error'', im_requestId = Some ''r'', im_data = JUndef,
      im_error = JObj [(''toString'', JNum 1)]\<rparr>"
  have conn: "socket_of ?d ''ns'' ''h'' \<noteq> None" by (simp add: socket_of_register)
  note opened = call_opens [OF conn, of "''execution''" "''execute''" "[]" "''r''" undefined]
  let ?d1 = "snd (dispatcher_call ''ns'' ''h'' ''execution'' ''execute'' [] ''r'' undefined None ?d)"
  have ok: "calls_ok ?d1" using disp_reachable_ok [OF sample_call_reachable] by blast
  have "(disp_step (\<lambda>_. True))\<^sup>*\<^sup>* (handleInbound ?m ?d1) (call_timeout 0 (handleInbound ?m ?d1))"
    by (intro r_into_rtranclp disp_step.timeout)
  from unprintable_error_hangs_call [OF ok opened(2) _ opened(1) _ _ _ this] opened(1)
  show ?thesis by (auto simp: answers_def intro!: exI [of _ ?d1] exI [of _ ?m])
qed

text \<open>C17:
  Routing: in every reachable state \<open>firstHostWithCapability\<close> returns a host that is connected in
  that namespace and was registered with the capability there, the one registered first among them,
  and \<open>undefined\<close> only when there is none.
\<close>

theorem capability_routing:
  assumes "disp_reachable ok d"
  shows "case firstHostWithCapability ns cap d of
      None \<Rightarrow> capable d ns cap = []
    | Some h \<Rightarrow> socket_of d ns h \<noteq> None \<and> h = hd (capable d ns cap) \<and> h \<in> set (capable d ns cap)"
proof -
  have "\<forall>h \<in> set (capable d ns cap). socket_of d ns h \<noteq> None"
    using disp_reachable_ok [OF assms] by (simp add: index_ok_def)
  then show ?thesis by (cases "capable d ns cap") (auto simp: firstHostWithCapability_find)
qed

theorem capability_routing_witness:
  "firstHostWithCapability ''ns'' ''execution''
     (registerConnection ''h'' ''ns'' 7 [''execution''] init_dispatcher) = Some ''h''"
proof -
  let ?d = "registerConnection ''h'' ''ns'' 7 [''execution''] init_dispatcher"
  have "disp_reachable (\<lambda>_. True) ?d"
    by (rule disp_reachable.step [OF disp_reachable.start disp_step.register])
  moreover have "set (capable ?d ''ns'' ''execution'') = {''h''}"
    by (simp add: capable_register) (simp add: capable_def init_dispatcher_def)
  ultimately show ?thesis
    using capability_routing [of "\<lambda>_. True" ?d "''ns''" "''execution''"]
    by (auto split: option.splits)
qed

end
