(* ===== verification/Execution_Registry.thy ===== *)
theory Execution_Registry
  imports Gateway_Contracts
begin

text \<open>
  apps/gateway-app/src/execute/execution-registry.ts: the running executions and their
  \<open>AbortController\<close>s. A controller is shared: the registry aborts it, the retry executor watches its
  signal, and the signal outlives the registry entry. Controllers are therefore numbers into a store
  of signals (\<open>xr_signals\<close>: \<open>None\<close> while not aborted, else the reason given to \<open>abort\<close>).
\<close>

section \<open>The code\<close>

record active_execution =
  ae_executionId :: string
  ae_requestId :: string
  ae_namespaceId :: string
  ae_hostId :: string
  ae_pluginId :: string
  ae_handlerRef :: string
  ae_controller :: nat
  ae_startedAt :: int
  ae_cancelledReason :: "string option"

record exec_registry =
  xr_executions :: "(string, active_execution) jsmap"
  xr_signals :: "(nat, string option) jsmap"
  xr_next :: nat

definition init_exec_registry :: exec_registry where
  "init_exec_registry = \<lparr>xr_executions = [], xr_signals = [], xr_next = 0\<rparr>"

text \<open>\<open>signal.reason\<close>, if the controller has been aborted.\<close>

definition abort_reason :: "exec_registry \<Rightarrow> nat \<Rightarrow> string option" where
  "abort_reason x s = (case jm_get (xr_signals x) s of Some r \<Rightarrow> r | None \<Rightarrow> None)"

definition exec_register ::
  "string \<Rightarrow> string \<Rightarrow> string \<Rightarrow> string \<Rightarrow> string \<Rightarrow> string \<Rightarrow> int \<Rightarrow> exec_registry \<Rightarrow> nat \<times> exec_registry" where
  "exec_register executionId requestId namespaceId hostId pluginId handlerRef now x =
     (let controller = xr_next x
      in (controller,
          x\<lparr>xr_signals := jm_set (xr_signals x) controller None,
            xr_next := Suc controller,
            xr_executions := jm_set (xr_executions x) executionId
              \<lparr>ae_executionId = executionId, ae_requestId = requestId, ae_namespaceId = namespaceId,
               ae_hostId = hostId, ae_pluginId = pluginId, ae_handlerRef = handlerRef,
               ae_controller = controller, ae_startedAt = now, ae_cancelledReason = None\<rparr>\<rparr>))"

definition abort_entry :: "active_execution \<Rightarrow> string \<Rightarrow> exec_registry \<Rightarrow> exec_registry" where
  "abort_entry entry reason x =
     x\<lparr>xr_executions := jm_set (xr_executions x) (ae_executionId entry)
          (entry\<lparr>ae_cancelledReason := Some reason\<rparr>),
       xr_signals := jm_set (xr_signals x) (ae_controller entry) (Some reason)\<rparr>"

definition exec_cancel :: "string \<Rightarrow> string \<Rightarrow> exec_registry \<Rightarrow> bool \<times> exec_registry" where
  "exec_cancel executionId reason x =
     (case jm_get (xr_executions x) executionId of
        None \<Rightarrow> (False, x)
      | Some entry \<Rightarrow>
          if abort_reason x (ae_controller entry) \<noteq> None then (False, x)
          else (True, abort_entry entry reason x))"

definition exec_remove :: "string \<Rightarrow> exec_registry \<Rightarrow> exec_registry" where
  "exec_remove executionId x = x\<lparr>xr_executions := jm_delete (xr_executions x) executionId\<rparr>"

definition exec_get :: "string \<Rightarrow> exec_registry \<Rightarrow> active_execution option" where
  "exec_get executionId x = jm_get (xr_executions x) executionId"

text \<open>One round of the loop of \<open>cancelByHost\<close>, for the entry under a key.\<close>

definition cancel_if_on_host ::
  "string \<Rightarrow> string \<Rightarrow> string \<Rightarrow> string list \<times> exec_registry \<Rightarrow> string list \<times> exec_registry" where
  "cancel_if_on_host hostId reason key st =
     (let (cancelled, x) = st
      in case jm_get (xr_executions x) key of
           None \<Rightarrow> st
         | Some entry \<Rightarrow>
             if ae_hostId entry = hostId \<and> abort_reason x (ae_controller entry) = None
             then (cancelled @ [ae_executionId entry], abort_entry entry reason x)
             else st)"

definition cancelByHost :: "string \<Rightarrow> string \<Rightarrow> exec_registry \<Rightarrow> string list \<times> exec_registry" where
  "cancelByHost hostId reason x =
     fold (cancel_if_on_host hostId reason) (jm_keys (xr_executions x)) ([], x)"

definition exec_size :: "exec_registry \<Rightarrow> nat" where
  "exec_size x = jm_size (xr_executions x)"

section \<open>Invariant\<close>

text \<open>
  Entries sit under their own id, no two share a controller, controllers were handed out, and an
  entry records a cancellation reason exactly when its signal carries it.
\<close>

definition exec_ok :: "exec_registry \<Rightarrow> bool" where
  "exec_ok x \<longleftrightarrow> jm_wf (xr_executions x) \<and>
     (\<forall>k e. jm_get (xr_executions x) k = Some e \<longrightarrow>
        ae_executionId e = k \<and> ae_controller e < xr_next x \<and>
        ae_cancelledReason e = abort_reason x (ae_controller e)) \<and>
     (\<forall>k e k' e'. jm_get (xr_executions x) k = Some e \<longrightarrow> jm_get (xr_executions x) k' = Some e' \<longrightarrow>
        ae_controller e = ae_controller e' \<longrightarrow> k = k') \<and>
     (\<forall>s. xr_next x \<le> s \<longrightarrow> jm_get (xr_signals x) s = None)"

lemma exec_okI:
  assumes "jm_wf (xr_executions x)"
    and "\<And>k e. jm_get (xr_executions x) k = Some e \<Longrightarrow> ae_executionId e = k \<and>
        ae_controller e < xr_next x \<and> ae_cancelledReason e = abort_reason x (ae_controller e)"
    and "\<And>k e k' e'. jm_get (xr_executions x) k = Some e \<Longrightarrow> jm_get (xr_executions x) k' = Some e' \<Longrightarrow>
        ae_controller e = ae_controller e' \<Longrightarrow> k = k'"
    and "\<And>s. xr_next x \<le> s \<Longrightarrow> jm_get (xr_signals x) s = None"
  shows "exec_ok x"
  using assms unfolding exec_ok_def by blast

lemma exec_okD:
  assumes "exec_ok x" "jm_get (xr_executions x) k = Some e"
  shows "ae_executionId e = k" "ae_controller e < xr_next x"
    "ae_cancelledReason e = abort_reason x (ae_controller e)"
    "jm_get (xr_executions x) k' = Some e' \<Longrightarrow> ae_controller e = ae_controller e' \<Longrightarrow> k = k'"
  using assms unfolding exec_ok_def by blast+

lemma exec_ok_new:
  "exec_ok x \<Longrightarrow> jm_get (xr_executions x) k = Some e \<Longrightarrow> ae_controller e \<noteq> xr_next x"
  "exec_ok x \<Longrightarrow> jm_get (xr_executions x) k = Some e \<Longrightarrow> xr_next x \<noteq> ae_controller e"
  using exec_okD(2) by (metis less_irrefl)+

lemma exec_ok_fresh: "exec_ok x \<Longrightarrow> xr_next x \<le> s \<Longrightarrow> jm_get (xr_signals x) s = None"
  by (simp add: exec_ok_def)

lemma exec_ok_wf: "exec_ok x \<Longrightarrow> jm_wf (xr_executions x)"
  by (simp add: exec_ok_def)

lemma abort_reason_entry [simp]:
  "abort_reason (abort_entry e reason x) s =
     (if s = ae_controller e then Some reason else abort_reason x s)"
  by (simp add: abort_reason_def abort_entry_def)

lemma executions_entry [simp]:
  "jm_get (xr_executions (abort_entry e reason x)) k =
     (if k = ae_executionId e then Some (e\<lparr>ae_cancelledReason := Some reason\<rparr>)
      else jm_get (xr_executions x) k)"
  "xr_next (abort_entry e reason x) = xr_next x"
  by (simp_all add: abort_entry_def)

lemma exec_ok_init: "exec_ok init_exec_registry"
  by (simp add: exec_ok_def init_exec_registry_def)

lemma register_get:
  "jm_get (xr_executions (snd (exec_register i r n h p f now x))) k =
     (if k = i then Some \<lparr>ae_executionId = i, ae_requestId = r, ae_namespaceId = n, ae_hostId = h,
        ae_pluginId = p, ae_handlerRef = f, ae_controller = xr_next x, ae_startedAt = now,
        ae_cancelledReason = None\<rparr>
      else jm_get (xr_executions x) k)"
  "xr_next (snd (exec_register i r n h p f now x)) = Suc (xr_next x)"
  by (simp_all add: exec_register_def Let_def)

lemma register_reason:
  "exec_ok x \<Longrightarrow> abort_reason (snd (exec_register i r n h p f now x)) s = abort_reason x s"
  by (simp add: exec_register_def Let_def abort_reason_def exec_ok_fresh)

lemma exec_ok_unaborted: "exec_ok x \<Longrightarrow> abort_reason x (xr_next x) = None"
  by (simp add: abort_reason_def exec_ok_fresh)

lemma register_old_or_new:
  assumes "jm_get (xr_executions (snd (exec_register i r n h p f now x))) k = Some e"
  shows "k = i \<and> ae_executionId e = i \<and> ae_controller e = xr_next x \<and> ae_cancelledReason e = None \<or>
    k \<noteq> i \<and> jm_get (xr_executions x) k = Some e"
  using assms by (auto simp: register_get split: if_splits)

lemma exec_ok_register:
  assumes ok: "exec_ok x"
  shows "exec_ok (snd (exec_register i r n h p f now x))" (is "exec_ok ?x")
proof (rule exec_okI)
  show "jm_wf (xr_executions ?x)" using ok by (simp add: exec_register_def Let_def exec_ok_wf)
next
  fix k e
  assume "jm_get (xr_executions ?x) k = Some e"
  from register_old_or_new [OF this]
  show "ae_executionId e = k \<and> ae_controller e < xr_next ?x \<and>
      ae_cancelledReason e = abort_reason ?x (ae_controller e)"
  proof
    assume "k \<noteq> i \<and> jm_get (xr_executions x) k = Some e"
    then show ?thesis using exec_okD(1-3) [OF ok, of k e] by (simp add: register_get register_reason ok)
  qed (simp add: register_get register_reason ok exec_ok_unaborted)
next
  fix k e k' e'
  assume "jm_get (xr_executions ?x) k = Some e" "jm_get (xr_executions ?x) k' = Some e'"
    "ae_controller e = ae_controller e'"
  with register_old_or_new exec_okD(4) [OF ok] exec_ok_new [OF ok] show "k = k'" by metis
next
  fix s assume "xr_next ?x \<le> s"
  then show "jm_get (xr_signals ?x) s = None"
    using ok by (simp add: exec_register_def Let_def exec_ok_fresh)
qed

lemma exec_ok_abort_entry:
  assumes ok: "exec_ok x" and e: "jm_get (xr_executions x) k = Some e"
  shows "exec_ok (abort_entry e reason x)"
proof (rule exec_okI)
  have id: "ae_executionId e = k" using exec_okD(1) [OF ok e] .
  show "jm_wf (xr_executions (abort_entry e reason x))"
    using ok by (simp add: abort_entry_def exec_ok_wf)
  fix k1 e1
  assume e1: "jm_get (xr_executions (abort_entry e reason x)) k1 = Some e1"
  show "ae_executionId e1 = k1 \<and> ae_controller e1 < xr_next (abort_entry e reason x) \<and>
      ae_cancelledReason e1 = abort_reason (abort_entry e reason x) (ae_controller e1)"
  proof (cases "k1 = k")
    case True
    with e1 id exec_okD(2) [OF ok e] show ?thesis by auto
  next
    case False
    with e1 id have old: "jm_get (xr_executions x) k1 = Some e1" by simp
    with False exec_okD(4) [OF ok e] have "ae_controller e1 \<noteq> ae_controller e" by metis
    with exec_okD(1-3) [OF ok old] show ?thesis by simp
  qed
  fix k2 e2
  assume "jm_get (xr_executions (abort_entry e reason x)) k2 = Some e2"
    "ae_controller e1 = ae_controller e2"
  then show "k1 = k2" using e1 id exec_okD(4) [OF ok] e by (auto split: if_splits)
next
  fix s assume "xr_next (abort_entry e reason x) \<le> s"
  then show "jm_get (xr_signals (abort_entry e reason x)) s = None"
    using exec_okD(2) [OF ok e] exec_ok_fresh [OF ok, of s] by (simp add: abort_entry_def)
qed

lemma exec_ok_cancel: "exec_ok x \<Longrightarrow> exec_ok (snd (exec_cancel i reason x))"
  by (auto simp: exec_cancel_def exec_ok_abort_entry split: option.splits)

lemma exec_ok_remove: "exec_ok x \<Longrightarrow> exec_ok (exec_remove i x)"
  unfolding exec_ok_def exec_remove_def abort_reason_def by (auto split: if_splits)

lemma exec_ok_cancel_one: "exec_ok (snd st) \<Longrightarrow> exec_ok (snd (cancel_if_on_host h reason k st))"
  by (cases st) (auto simp: cancel_if_on_host_def exec_ok_abort_entry split: option.splits)

lemma exec_ok_cancel_all: "exec_ok (snd st) \<Longrightarrow> exec_ok (snd (fold (cancel_if_on_host h reason) ks st))"
  by (induction ks arbitrary: st) (simp_all add: exec_ok_cancel_one)

lemma exec_ok_cancelByHost: "exec_ok x \<Longrightarrow> exec_ok (snd (cancelByHost h reason x))"
  by (simp add: cancelByHost_def exec_ok_cancel_all)

section \<open>What cancelByHost cancels\<close>

text \<open>The execution under a key runs on the host and has not been aborted.\<close>

definition live_on :: "exec_registry \<Rightarrow> string \<Rightarrow> string \<Rightarrow> bool" where
  "live_on x hostId key =
     (case jm_get (xr_executions x) key of
        None \<Rightarrow> False
      | Some e \<Rightarrow> ae_hostId e = hostId \<and> abort_reason x (ae_controller e) = None)"

lemma live_on_abort_other:
  assumes "exec_ok x" "jm_get (xr_executions x) k = Some e" "k' \<noteq> k"
  shows "live_on (abort_entry e reason x) h k' = live_on x h k'"
  using exec_okD(1,4) [OF assms(1,2)] assms(3)
  by (auto simp: live_on_def split: option.splits)

lemma cancel_one_cases:
  assumes "exec_ok x"
  shows "cancel_if_on_host h reason k (acc, x) =
    (if live_on x h k then (acc @ [k], abort_entry (the (jm_get (xr_executions x) k)) reason x)
     else (acc, x))"
  using exec_okD(1) [OF assms]
  by (auto simp: cancel_if_on_host_def live_on_def split: option.splits)

lemma live_onD: "live_on x h k \<Longrightarrow> \<exists>e. jm_get (xr_executions x) k = Some e \<and> ae_hostId e = h"
  by (auto simp: live_on_def split: option.splits)

lemma cancel_fold:
  assumes "exec_ok x" "distinct ks"
  shows "fst (fold (cancel_if_on_host h reason) ks (acc, x)) = acc @ filter (live_on x h) ks \<and>
    (\<forall>k'. live_on (snd (fold (cancel_if_on_host h reason) ks (acc, x))) h k' =
        (live_on x h k' \<and> k' \<notin> set ks)) \<and>
    (\<forall>k' e. jm_get (xr_executions x) k' = Some e \<longrightarrow>
       abort_reason (snd (fold (cancel_if_on_host h reason) ks (acc, x))) (ae_controller e) =
         (if live_on x h k' \<and> k' \<in> set ks then Some reason else abort_reason x (ae_controller e)))"
  using assms
proof (induction ks arbitrary: x acc)
  case Nil
  then show ?case by simp
next
  case (Cons k ks)
  show ?case
  proof (cases "live_on x h k")
    case False
    with Cons show ?thesis by (auto simp: cancel_one_cases)
  next
    case True
    then obtain e where e: "jm_get (xr_executions x) k = Some e" by (blast dest: live_onD)
    let ?y = "abort_entry e reason x"
    have ok: "exec_ok ?y" using Cons.prems(1) e by (rule exec_ok_abort_entry)
    have gone: "\<not> live_on ?y h k" using exec_okD(1) [OF Cons.prems(1) e] by (simp add: live_on_def)
    note other = live_on_abort_other [OF Cons.prems(1) e, where reason = reason and h = h]
    have live: "live_on ?y h k' = (live_on x h k' \<and> k' \<noteq> k)" for k'
      using gone other by (cases "k' = k") simp_all
    have same: "filter (live_on ?y h) ks = filter (live_on x h) ks"
      using Cons.prems(2) by (intro filter_cong) (auto simp: live)
    have ctrl: "ae_controller e' = ae_controller e \<longleftrightarrow> k' = k"
      if e': "jm_get (xr_executions x) k' = Some e'" for k' e'
    proof (cases "k' = k")
      case True
      with e e' show ?thesis by simp
    next
      case False
      with exec_okD(4) [OF Cons.prems(1) e e'] show ?thesis by metis
    qed
    have id: "ae_executionId e = k" using exec_okD(1) [OF Cons.prems(1) e] .
    have get: "\<exists>e2. jm_get (xr_executions ?y) k' = Some e2 \<and> ae_controller e2 = ae_controller e'"
      if "jm_get (xr_executions x) k' = Some e'" for k' e'
      using that id e by (cases "k' = k") simp_all
    have step: "fold (cancel_if_on_host h reason) (k # ks) (acc, x) =
        fold (cancel_if_on_host h reason) ks (acc @ [k], ?y)"
      using True e by (simp add: cancel_one_cases Cons.prems(1))
    have d: "distinct ks" "k \<notin> set ks" using Cons.prems(2) by auto
    note IH = Cons.IH [OF ok d(1), of "acc @ [k]", unfolded live]
    show ?thesis
      unfolding step
    proof (intro conjI allI impI)
      show "fst (fold (cancel_if_on_host h reason) ks (acc @ [k], ?y)) =
          acc @ filter (live_on x h) (k # ks)"
        using conjunct1 [OF Cons.IH [OF ok d(1), of "acc @ [k]"]] True same by simp
    next
      fix k'
      show "live_on (snd (fold (cancel_if_on_host h reason) ks (acc @ [k], ?y))) h k' =
          (live_on x h k' \<and> k' \<notin> set (k # ks))"
        using conjunct1 [OF conjunct2 [OF IH]] by auto
    next
      fix k' e'
      assume e': "jm_get (xr_executions x) k' = Some e'"
      with get obtain e2 where e2: "jm_get (xr_executions ?y) k' = Some e2"
        "ae_controller e2 = ae_controller e'" by blast
      from conjunct2 [OF conjunct2 [OF IH], rule_format, OF e2(1)]
      show "abort_reason (snd (fold (cancel_if_on_host h reason) ks (acc @ [k], ?y))) (ae_controller e') =
          (if live_on x h k' \<and> k' \<in> set (k # ks) then Some reason else abort_reason x (ae_controller e'))"
        using ctrl [OF e'] True d(2) by (cases "k' = k") (simp_all add: e2(2))
    qed
  qed
qed

section \<open>Steps\<close>

inductive exec_step :: "exec_registry \<Rightarrow> exec_registry \<Rightarrow> bool" where
  "exec_step x (snd (exec_register i r n h p f now x))"
| "exec_step x (snd (exec_cancel i reason x))"
| "exec_step x (exec_remove i x)"
| "exec_step x (snd (cancelByHost h reason x))"

lemma exec_ok_step: "exec_step x y \<Longrightarrow> exec_ok x \<Longrightarrow> exec_ok y"
  by (induction rule: exec_step.induct)
    (simp_all add: exec_ok_register exec_ok_cancel exec_ok_remove exec_ok_cancelByHost)

lemma cancel_one_keeps_reason:
  "abort_reason (snd st) s = Some r \<Longrightarrow> abort_reason (snd (cancel_if_on_host h reason k st)) s = Some r"
  by (cases st) (auto simp: cancel_if_on_host_def split: option.splits)

lemma cancel_all_keeps_reason:
  "abort_reason (snd st) s = Some r \<Longrightarrow>
     abort_reason (snd (fold (cancel_if_on_host h reason) ks st)) s = Some r"
  by (induction ks arbitrary: st) (simp_all add: cancel_one_keeps_reason)

lemma step_keeps_reason:
  "exec_step x y \<Longrightarrow> exec_ok x \<Longrightarrow> abort_reason x s = Some r \<Longrightarrow> abort_reason y s = Some r"
proof (induction rule: exec_step.induct)
  case (1 x i r n h p f now)
  then show ?case by (simp add: register_reason)
next
  case (2 x i reason)
  then show ?case by (auto simp: exec_cancel_def split: option.splits)
next
  case (4 x h reason)
  then show ?case by (simp add: cancelByHost_def cancel_all_keeps_reason)
qed (simp add: exec_remove_def abort_reason_def)

lemma steps_keep_reason:
  "exec_step\<^sup>*\<^sup>* x y \<Longrightarrow> exec_ok x \<Longrightarrow> abort_reason x s = Some r \<Longrightarrow>
     exec_ok y \<and> abort_reason y s = Some r"
  by (induction rule: rtranclp_induct) (auto intro: exec_ok_step step_keeps_reason)

text \<open>What \<open>cancelByHost\<close> returns and leaves behind, for the callers' proofs.\<close>

lemma cancelByHost_facts:
  assumes ok: "exec_ok x"
  shows "fst (cancelByHost h reason x) = filter (live_on x h) (jm_keys (xr_executions x))"
    and "jm_get (xr_executions x) k = Some e \<Longrightarrow>
      abort_reason (snd (cancelByHost h reason x)) (ae_controller e) =
        (if live_on x h k then Some reason else abort_reason x (ae_controller e))"
    and "\<not> live_on (snd (cancelByHost h reason x)) h k"
proof -
  have d: "distinct (jm_keys (xr_executions x))"
    using exec_ok_wf [OF ok] by (simp add: jm_wf_def jm_keys_def)
  note F = cancel_fold [OF ok d, of h reason "[]", folded cancelByHost_def]
  have in_keys: "live_on x h k \<Longrightarrow> k \<in> set (jm_keys (xr_executions x))" for k
    by (auto simp: set_jm_keys dest: live_onD)
  show "fst (cancelByHost h reason x) = filter (live_on x h) (jm_keys (xr_executions x))"
    using F by simp
  show "\<not> live_on (snd (cancelByHost h reason x)) h k" using F in_keys by blast
  assume "jm_get (xr_executions x) k = Some e"
  then show "abort_reason (snd (cancelByHost h reason x)) (ae_controller e) =
      (if live_on x h k then Some reason else abort_reason x (ae_controller e))"
    using F in_keys by auto
qed

section \<open>Properties\<close>

text \<open>
  C19: when a host goes away, \<open>cancelByHost\<close> returns exactly the ids of the executions that were
  running on it and not yet aborted, in registration order; each of them is aborted with the reason
  given, the signal of every other execution is untouched, and a second call finds nothing left.
\<close>

theorem cancelByHost_exact:
  fixes h reason :: string
  assumes ok: "exec_ok x"
  defines "y \<equiv> snd (cancelByHost h reason x)"
  shows "fst (cancelByHost h reason x) = filter (live_on x h) (jm_keys (xr_executions x)) \<and>
    (\<forall>k e. jm_get (xr_executions x) k = Some e \<longrightarrow>
       abort_reason y (ae_controller e) =
         (if live_on x h k then Some reason else abort_reason x (ae_controller e))) \<and>
    fst (cancelByHost h reason' y) = []"
proof -
  have "fst (cancelByHost h reason' y) = filter (live_on y h) (jm_keys (xr_executions y))"
    unfolding y_def by (rule cancelByHost_facts(1) [OF exec_ok_cancelByHost [OF ok]])
  moreover have "\<not> live_on y h k" for k unfolding y_def by (rule cancelByHost_facts(3) [OF ok])
  ultimately show ?thesis
    using cancelByHost_facts(1,2) [OF ok, where h = h and reason = reason] by (simp add: y_def)
qed

lemma cancelByHost_exact_witness:
  "fst (cancelByHost ''h1'' ''disconnect''
     (snd (exec_register ''e2'' ''r'' ''n'' ''h2'' ''p'' ''f'' 0
       (snd (exec_register ''e1'' ''r'' ''n'' ''h1'' ''p'' ''f'' 0 init_exec_registry))))) = [''e1'']"
  (is "fst (cancelByHost _ _ ?x) = _")
proof -
  have "exec_ok ?x" by (intro exec_ok_register exec_ok_init)
  from cancelByHost_exact [OF this, of "''h1''" "''disconnect''" "[]"]
  have "fst (cancelByHost ''h1'' ''disconnect'' ?x) = filter (live_on ?x ''h1'') (jm_keys (xr_executions ?x))"
    by blast
  then show ?thesis
    by (simp add: exec_register_def init_exec_registry_def live_on_def jm_set_def jm_get_def jm_keys_def
        abort_reason_def)
qed

text \<open>
  A cancellation is final and happens once. After \<open>cancel\<close> has returned true, whatever
  happens in the registry afterwards (other registrations, removals, cancellations, a host
  disconnect, also a re-registration under the same id), the signal handed to the dispatch keeps the
  first reason, and a further \<open>cancel\<close> of that same entry returns false and changes nothing.
\<close>

theorem first_reason_wins:
  assumes ok: "exec_ok x"
    and e: "exec_get i x = Some e"
    and c: "exec_cancel i reason x = (True, y)"
    and steps: "exec_step\<^sup>*\<^sup>* y z"
  shows "abort_reason z (ae_controller e) = Some reason \<and>
    (\<forall>e'. exec_get i z = Some e' \<and> ae_controller e' = ae_controller e \<longrightarrow>
       exec_cancel i reason' z = (False, z))"
proof -
  have y: "y = abort_entry e reason x"
    using e c by (auto simp: exec_get_def exec_cancel_def split: if_splits)
  then have "exec_ok y" using exec_ok_abort_entry ok e by (simp add: exec_get_def)
  with steps_keep_reason [OF steps] y have "abort_reason z (ae_controller e) = Some reason" by simp
  then show ?thesis by (auto simp: exec_cancel_def exec_get_def)
qed

lemma first_reason_wins_witness:
  "\<exists>y. exec_cancel ''e'' ''user'' (snd (exec_register ''e'' ''r'' ''n'' ''h'' ''p'' ''f'' 0 init_exec_registry)) =
       (True, y) \<and>
     abort_reason (snd (cancelByHost ''h'' ''disconnect'' y)) 0 = Some ''user''"
  (is "\<exists>y. exec_cancel _ _ ?x = _ \<and> _")
proof -
  have ok: "exec_ok ?x" by (intro exec_ok_register exec_ok_init)
  obtain e where e: "exec_get ''e'' ?x = Some e" "ae_controller e = 0"
    by (simp add: exec_register_def init_exec_registry_def exec_get_def)
  have c: "exec_cancel ''e'' ''user'' ?x = (True, abort_entry e ''user'' ?x)"
    using e by (simp add: exec_cancel_def exec_get_def exec_register_def init_exec_registry_def
        abort_reason_def)
  have s: "exec_step\<^sup>*\<^sup>* (abort_entry e ''user'' ?x)
      (snd (cancelByHost ''h'' ''disconnect'' (abort_entry e ''user'' ?x)))"
    by (intro r_into_rtranclp exec_step.intros)
  from first_reason_wins [OF ok e(1) c s, of "[]"] c e(2) show ?thesis by auto
qed

end
