(* ===== verification/Subscription_Registry.thy ===== *)
theory Subscription_Registry
  imports Gateway_Contracts
begin

text \<open>
  apps/gateway-app/src/clients/subscription-registry.ts: which observer connections follow which
  executions. The two indexes \<open>byExecution\<close> and \<open>byConnection\<close> mirror each other and hold no empty
  sets; \<open>sockets\<close> maps connections to the sockets events are sent to. Whether a socket is open is an
  argument of \<open>broadcast\<close>. The interface \<open>ISubscriptionRegistry\<close> is the locale \<open>subscriptions\<close>.
\<close>

section \<open>The code\<close>

record sub_registry =
  sb_byExecution :: "(string, string list) jsmap"
  sb_byConnection :: "(string, string list) jsmap"
  sb_sockets :: "(string, nat) jsmap"

definition init_sub_registry :: sub_registry where
  "init_sub_registry = \<lparr>sb_byExecution = [], sb_byConnection = [], sb_sockets = []\<rparr>"

definition registerSocket :: "string \<Rightarrow> nat \<Rightarrow> sub_registry \<Rightarrow> sub_registry" where
  "registerSocket connectionId socket s = s\<lparr>sb_sockets := jm_set (sb_sockets s) connectionId socket\<rparr>"

definition removeSocket :: "string \<Rightarrow> sub_registry \<Rightarrow> sub_registry" where
  "removeSocket connectionId s = s\<lparr>sb_sockets := jm_delete (sb_sockets s) connectionId\<rparr>"

text \<open>Get-or-create the set under a key and add a member.\<close>

definition add_member :: "(string, string list) jsmap \<Rightarrow> string \<Rightarrow> string \<Rightarrow> (string, string list) jsmap" where
  "add_member m k x =
     (let m1 = (if jm_has m k then m else jm_set m k [])
      in jm_set m1 k (js_add (or_else (jm_get m1 k) []) x))"

definition subscribe :: "string \<Rightarrow> string \<Rightarrow> sub_registry \<Rightarrow> sub_registry" where
  "subscribe connectionId executionId s =
     s\<lparr>sb_byExecution := add_member (sb_byExecution s) executionId connectionId,
       sb_byConnection := add_member (sb_byConnection s) connectionId executionId\<rparr>"

text \<open>Delete a member of the set under a key, if there is one, then drop the set if it is empty.\<close>

definition drop_member :: "(string, string list) jsmap \<Rightarrow> string \<Rightarrow> string \<Rightarrow> (string, string list) jsmap" where
  "drop_member m k x =
     (let m1 = (case jm_get m k of None \<Rightarrow> m | Some xs \<Rightarrow> jm_set m k (js_remove xs x))
      in if jm_get m1 k = Some [] then jm_delete m1 k else m1)"

definition unsubscribe :: "string \<Rightarrow> string \<Rightarrow> sub_registry \<Rightarrow> sub_registry" where
  "unsubscribe connectionId executionId s =
     s\<lparr>sb_byExecution := drop_member (sb_byExecution s) executionId connectionId,
       sb_byConnection := drop_member (sb_byConnection s) connectionId executionId\<rparr>"

definition getSubscribers :: "string \<Rightarrow> sub_registry \<Rightarrow> string list" where
  "getSubscribers executionId s = or_else (jm_get (sb_byExecution s) executionId) []"

definition getSubscriptions :: "string \<Rightarrow> sub_registry \<Rightarrow> string list" where
  "getSubscriptions connectionId s = or_else (jm_get (sb_byConnection s) connectionId) []"

text \<open>One round of the loop of \<open>removeConnection\<close>.\<close>

definition leave_execution ::
  "string \<Rightarrow> string \<Rightarrow> string list \<times> (string, string list) jsmap \<Rightarrow>
     string list \<times> (string, string list) jsmap" where
  "leave_execution connectionId executionId st =
     (let (orphaned, m) = st
      in case jm_get m executionId of
           None \<Rightarrow> st
         | Some subs \<Rightarrow>
             let subs' = js_remove subs connectionId
             in if subs' = [] then (orphaned @ [executionId], jm_delete m executionId)
                else (orphaned, jm_set m executionId subs'))"

definition sub_removeConnection :: "string \<Rightarrow> sub_registry \<Rightarrow> string list \<times> sub_registry" where
  "sub_removeConnection connectionId s =
     (case jm_get (sb_byConnection s) connectionId of
        None \<Rightarrow> ([], s\<lparr>sb_sockets := jm_delete (sb_sockets s) connectionId\<rparr>)
      | Some subscriptions \<Rightarrow>
          let (orphaned, m) = fold (leave_execution connectionId) subscriptions ([], sb_byExecution s)
          in (orphaned, s\<lparr>sb_byExecution := m,
                sb_byConnection := jm_delete (sb_byConnection s) connectionId,
                sb_sockets := jm_delete (sb_sockets s) connectionId\<rparr>))"

text \<open>The payloads \<open>broadcast\<close> sends, in order.\<close>

definition broadcast ::
  "(nat \<Rightarrow> bool) \<Rightarrow> string \<Rightarrow> 'ev \<Rightarrow> sub_registry \<Rightarrow> (nat \<times> 'ev) list" where
  "broadcast is_open executionId event s =
     (case jm_get (sb_byExecution s) executionId of
        None \<Rightarrow> []
      | Some subscribers \<Rightarrow>
          concat (map (\<lambda>connectionId.
              case jm_get (sb_sockets s) connectionId of
                None \<Rightarrow> []
              | Some socket \<Rightarrow> if is_open socket then [(socket, event)] else []) subscribers))"

definition connectionCount :: "sub_registry \<Rightarrow> nat" where
  "connectionCount s = jm_size (sb_byConnection s)"

definition subscriptionCount :: "sub_registry \<Rightarrow> nat" where
  "subscriptionCount s = fold (\<lambda>subs total. total + length subs) (jm_values (sb_byExecution s)) 0"

section \<open>The interface\<close>

text \<open>
  \<open>ISubscriptionRegistry\<close>: what its users rely on. \<open>subs s e\<close> and \<open>subd s c\<close> are the two queries as
  lists in subscription order.
\<close>

locale subscriptions =
  fixes ok :: "'s \<Rightarrow> bool"
    and sub unsub :: "string \<Rightarrow> string \<Rightarrow> 's \<Rightarrow> 's"
    and subs subd :: "string \<Rightarrow> 's \<Rightarrow> string list"
    and remove :: "string \<Rightarrow> 's \<Rightarrow> string list \<times> 's"
  assumes ok_sub: "ok s \<Longrightarrow> ok (sub c e s)"
    and ok_unsub: "ok s \<Longrightarrow> ok (unsub c e s)"
    and ok_remove: "ok s \<Longrightarrow> ok (snd (remove c s))"
    and mirror: "ok s \<Longrightarrow> c \<in> set (subs e s) \<longleftrightarrow> e \<in> set (subd c s)"
    and subs_sub: "ok s \<Longrightarrow> subs e' (sub c e s) = (if e' = e then js_add (subs e s) c else subs e' s)"
    and subs_unsub:
      "ok s \<Longrightarrow> subs e' (unsub c e s) = (if e' = e then js_remove (subs e s) c else subs e' s)"
    and subs_remove: "ok s \<Longrightarrow> subs e (snd (remove c s)) = js_remove (subs e s) c"
    and orphaned: "ok s \<Longrightarrow> fst (remove c s) = filter (\<lambda>e. js_remove (subs e s) c = []) (subd c s)"
begin

lemma removed_everywhere: "ok s \<Longrightarrow> subd c (snd (remove c s)) = []"
  using mirror [OF ok_remove, of s _ _ c] subs_remove [of s _ c] by (cases "subd c (snd (remove c s))") fastforce+

lemma others_keep:
  "ok s \<Longrightarrow> c' \<noteq> c \<Longrightarrow> c' \<in> set (subs e (snd (remove c s))) \<longleftrightarrow> c' \<in> set (subs e s)"
  by (simp add: subs_remove)

lemma unsub_sub: "ok s \<Longrightarrow> c \<notin> set (subs e s) \<Longrightarrow> subs e' (unsub c e (sub c e s)) = subs e' s"
  by (simp add: subs_unsub subs_sub ok_sub js_remove_add)

lemma remove_twice: "ok s \<Longrightarrow> fst (remove c (snd (remove c s))) = []"
  by (simp add: orphaned ok_remove removed_everywhere)

lemma orphaned_iff:
  assumes "ok s"
  shows "e \<in> set (fst (remove c s)) \<longleftrightarrow> set (subs e s) = {c}"
proof -
  have "js_remove (subs e s) c = [] \<longleftrightarrow> set (subs e s) \<subseteq> {c}"
    by (auto simp: js_remove_def filter_empty_conv)
  then show ?thesis using mirror [OF assms, of c e] by (auto simp: orphaned assms)
qed

end

section \<open>Invariant\<close>

text \<open>Distinct keys, no empty or repeating sets, and the two indexes mirror each other.\<close>

definition index_wf :: "(string, string list) jsmap \<Rightarrow> bool" where
  "index_wf m = (jm_wf m \<and> (\<forall>k xs. jm_get m k = Some xs \<longrightarrow> xs \<noteq> [] \<and> distinct xs))"

definition sub_ok :: "sub_registry \<Rightarrow> bool" where
  "sub_ok s \<longleftrightarrow> index_wf (sb_byExecution s) \<and> index_wf (sb_byConnection s) \<and>
     (\<forall>c e. c \<in> set (getSubscribers e s) \<longleftrightarrow> e \<in> set (getSubscriptions c s))"

definition members :: "(string, string list) jsmap \<Rightarrow> string \<Rightarrow> string list" where
  "members m k = or_else (jm_get m k) []"

lemma get_members:
  "getSubscribers e s = members (sb_byExecution s) e"
  "getSubscriptions c s = members (sb_byConnection s) c"
  by (simp_all add: getSubscribers_def getSubscriptions_def members_def)

lemma index_wfD:
  assumes "index_wf m"
  shows "jm_wf m" "jm_get m k = Some xs \<Longrightarrow> xs \<noteq> [] \<and> distinct xs" "distinct (members m k)"
  using assms by (auto simp: index_wf_def members_def or_else_def split: option.splits)

lemma members_empty: "index_wf m \<Longrightarrow> members m k = [] \<longleftrightarrow> jm_get m k = None"
  by (auto simp: index_wf_def members_def or_else_def split: option.splits)

lemma in_members: "x \<in> set (members m k) \<longleftrightarrow> (\<exists>xs. jm_get m k = Some xs \<and> x \<in> set xs)"
  by (cases "jm_get m k") (simp_all add: members_def)

lemma members_add [simp]:
  "members (add_member m k x) k' = (if k' = k then js_add (members m k) x else members m k')"
  by (auto simp: members_def add_member_def Let_def jm_has_def or_else_def)

lemma members_drop [simp]:
  "members (drop_member m k x) k' = (if k' = k then js_remove (members m k) x else members m k')"
  by (auto simp: members_def drop_member_def Let_def or_else_def js_remove_def split: option.splits)

lemma members_delete [simp]: "members (jm_delete m k) k' = (if k' = k then [] else members m k')"
  by (simp add: members_def)

lemma index_wf_Nil [simp]: "index_wf []"
  by (simp add: index_wf_def)

lemma index_wf_add [simp]: "index_wf m \<Longrightarrow> index_wf (add_member m k x)"
  by (auto simp: index_wf_def add_member_def Let_def jm_has_def or_else_def split: option.splits)

lemma index_wf_drop [simp]: "index_wf m \<Longrightarrow> index_wf (drop_member m k x)"
  by (auto simp: index_wf_def drop_member_def Let_def split: option.splits)

lemma index_wf_delete [simp]: "index_wf m \<Longrightarrow> index_wf (jm_delete m k)"
  by (auto simp: index_wf_def)

lemma leave_is_drop:
  "leave_execution c e (acc, m) =
     (if jm_has m e \<and> js_remove (members m e) c = [] then acc @ [e] else acc,
      if jm_has m e then drop_member m e c else m)"
  by (auto simp: leave_execution_def drop_member_def jm_has_def members_def Let_def split: option.splits)

lemma leave_all:
  assumes "index_wf m" "distinct es" "\<forall>e\<in>set es. c \<in> set (members m e)"
  shows "fst (fold (leave_execution c) es (acc, m)) =
      acc @ filter (\<lambda>e. js_remove (members m e) c = []) es \<and>
    index_wf (snd (fold (leave_execution c) es (acc, m))) \<and>
    (\<forall>e. members (snd (fold (leave_execution c) es (acc, m))) e =
       (if e \<in> set es then js_remove (members m e) c else members m e))"
  using assms
proof (induction es arbitrary: acc m)
  case Nil
  then show ?case by simp
next
  case (Cons e es)
  let ?acc = "if js_remove (members m e) c = [] then acc @ [e] else acc"
  let ?m = "drop_member m e c"
  have "members m e \<noteq> []" using Cons.prems(3) by force
  then have "jm_has m e" using members_empty [OF Cons.prems(1)] by (simp add: jm_has_def)
  then have step: "fold (leave_execution c) (e # es) (acc, m) = fold (leave_execution c) es (?acc, ?m)"
    by (simp add: leave_is_drop)
  have ne: "e \<notin> set es" "distinct es" using Cons.prems(2) by simp_all
  have in_m: "\<forall>e'\<in>set es. c \<in> set (members ?m e')" using Cons.prems(3) ne by auto
  have same: "filter (\<lambda>e'. js_remove (members ?m e') c = []) es =
      filter (\<lambda>e'. js_remove (members m e') c = []) es"
    using ne by (intro filter_cong) auto
  note IH = Cons.IH [OF index_wf_drop [OF Cons.prems(1)] ne(2) in_m, of ?acc]
  show ?case
    unfolding step
  proof (intro conjI allI)
    show "fst (fold (leave_execution c) es (?acc, ?m)) =
        acc @ filter (\<lambda>e. js_remove (members m e) c = []) (e # es)"
      using conjunct1 [OF IH] same by simp
    show "index_wf (snd (fold (leave_execution c) es (?acc, ?m)))" using IH by blast
    fix e'
    show "members (snd (fold (leave_execution c) es (?acc, ?m))) e' =
        (if e' \<in> set (e # es) then js_remove (members m e') c else members m e')"
      using conjunct2 [OF conjunct2 [OF IH]] ne by auto
  qed
qed

lemma remove_facts:
  assumes ok: "sub_ok s"
  shows "fst (sub_removeConnection c s) =
      filter (\<lambda>e. js_remove (getSubscribers e s) c = []) (getSubscriptions c s) \<and>
    index_wf (sb_byExecution (snd (sub_removeConnection c s))) \<and>
    (\<forall>e. getSubscribers e (snd (sub_removeConnection c s)) = js_remove (getSubscribers e s) c) \<and>
    sb_byConnection (snd (sub_removeConnection c s)) = jm_delete (sb_byConnection s) c"
proof (cases "jm_get (sb_byConnection s) c")
  case None
  then have none: "c \<notin> set (members (sb_byExecution s) e)" for e
    using ok by (simp add: sub_ok_def get_members members_def)
  have "jm_delete (sb_byConnection s) c = sb_byConnection s"
    using None by (simp add: jm_delete_absent)
  with None none ok show ?thesis
    by (simp add: sub_removeConnection_def get_members js_remove_notin members_def [of "sb_byConnection s"]
        sub_ok_def)
next
  case (Some es)
  then have es: "getSubscriptions c s = es" by (simp add: getSubscriptions_def)
  have wf: "index_wf (sb_byExecution s)" "distinct es"
    using ok Some index_wfD(2) by (auto simp: sub_ok_def)
  have mem: "\<forall>e\<in>set es. c \<in> set (members (sb_byExecution s) e)"
    using ok es by (simp add: sub_ok_def get_members)
  have out: "js_remove (members (sb_byExecution s) e) c = members (sb_byExecution s) e" if "e \<notin> set es" for e
    using ok es that by (intro js_remove_notin) (simp add: sub_ok_def get_members)
  note F = leave_all [OF wf mem, of "[]"]
  show ?thesis
    using F Some es out by (simp add: sub_removeConnection_def case_prod_beta get_members)
qed

lemma sub_ok_init: "sub_ok init_sub_registry"
  by (simp add: sub_ok_def init_sub_registry_def getSubscribers_def getSubscriptions_def)

lemma init_empty [simp]: "getSubscribers e init_sub_registry = []" "sb_sockets init_sub_registry = []"
  by (simp_all add: init_sub_registry_def getSubscribers_def)

lemma sub_ok_subscribe: "sub_ok s \<Longrightarrow> sub_ok (subscribe c e s)"
  by (auto simp: sub_ok_def subscribe_def get_members)

lemma sub_ok_unsubscribe: "sub_ok s \<Longrightarrow> sub_ok (unsubscribe c e s)"
  by (auto simp: sub_ok_def unsubscribe_def get_members)

lemma sub_ok_removeConnection: "sub_ok s \<Longrightarrow> sub_ok (snd (sub_removeConnection c s))"
  using remove_facts [of s c] by (auto simp: sub_ok_def getSubscriptions_def)

lemma subscribers_after [gw_simps]:
  "getSubscribers e' (subscribe c e s) =
     (if e' = e then js_add (getSubscribers e s) c else getSubscribers e' s)"
  "getSubscribers e' (unsubscribe c e s) =
     (if e' = e then js_remove (getSubscribers e s) c else getSubscribers e' s)"
  by (simp_all add: get_members subscribe_def unsubscribe_def)

interpretation srg: subscriptions sub_ok subscribe unsubscribe getSubscribers getSubscriptions
  sub_removeConnection
proof unfold_locales
  show "sub_ok s \<Longrightarrow> c \<in> set (getSubscribers e s) \<longleftrightarrow> e \<in> set (getSubscriptions c s)" for s c e
    by (simp add: sub_ok_def)
qed (simp_all add: remove_facts sub_ok_subscribe sub_ok_unsubscribe sub_ok_removeConnection gw_simps)

section \<open>Histories\<close>

datatype sub_op =
    Op_registerSocket string nat
  | Op_removeSocket string
  | Op_subscribe string string
  | Op_unsubscribe string string
  | Op_removeConnection string

definition run_sub_op :: "sub_op \<Rightarrow> sub_registry \<Rightarrow> sub_registry" where
  "run_sub_op oper s = (case oper of
       Op_registerSocket c sk \<Rightarrow> registerSocket c sk s
     | Op_removeSocket c \<Rightarrow> removeSocket c s
     | Op_subscribe c e \<Rightarrow> subscribe c e s
     | Op_unsubscribe c e \<Rightarrow> unsubscribe c e s
     | Op_removeConnection c \<Rightarrow> snd (sub_removeConnection c s))"

text \<open>The specification: the last operation on the pair, and on the connection, decides.\<close>

definition last_sub :: "string \<Rightarrow> string \<Rightarrow> sub_op \<Rightarrow> bool \<Rightarrow> bool" where
  "last_sub c e oper b = (case oper of
       Op_subscribe c' e' \<Rightarrow> b \<or> c' = c \<and> e' = e
     | Op_unsubscribe c' e' \<Rightarrow> b \<and> \<not> (c' = c \<and> e' = e)
     | Op_removeConnection c' \<Rightarrow> b \<and> c' \<noteq> c
     | _ \<Rightarrow> b)"

definition last_socket :: "string \<Rightarrow> sub_op \<Rightarrow> nat option \<Rightarrow> nat option" where
  "last_socket c oper b = (case oper of
       Op_registerSocket c' sk \<Rightarrow> if c' = c then Some sk else b
     | Op_removeSocket c' \<Rightarrow> if c' = c then None else b
     | Op_removeConnection c' \<Rightarrow> if c' = c then None else b
     | _ \<Rightarrow> b)"

lemma sockets_after:
  "sb_sockets (subscribe c e s) = sb_sockets s"
  "sb_sockets (unsubscribe c e s) = sb_sockets s"
  "sb_sockets (snd (sub_removeConnection c s)) = jm_delete (sb_sockets s) c"
  by (simp_all add: subscribe_def unsubscribe_def sub_removeConnection_def case_prod_beta
      split: option.splits)

lemma socket_ops:
  "getSubscribers e (registerSocket c sk s) = getSubscribers e s"
  "getSubscribers e (removeSocket c s) = getSubscribers e s"
  "sub_ok (registerSocket c sk s) = sub_ok s"
  "sub_ok (removeSocket c s) = sub_ok s"
  by (simp_all add: registerSocket_def removeSocket_def getSubscribers_def getSubscriptions_def
      sub_ok_def)

lemma run_sub_op_ok: "sub_ok s \<Longrightarrow> sub_ok (run_sub_op oper s)"
  by (cases oper) (simp_all add: run_sub_op_def socket_ops sub_ok_subscribe sub_ok_unsubscribe
      sub_ok_removeConnection)

lemma run_sub_op_subscribers:
  "sub_ok s \<Longrightarrow> c \<in> set (getSubscribers e (run_sub_op oper s)) \<longleftrightarrow>
     last_sub c e oper (c \<in> set (getSubscribers e s))"
  by (cases oper) (auto simp: run_sub_op_def last_sub_def socket_ops srg.subs_sub srg.subs_unsub
      srg.subs_remove)

lemma run_sub_op_socket:
  "jm_get (sb_sockets (run_sub_op oper s)) c = last_socket c oper (jm_get (sb_sockets s) c)"
  by (cases oper) (simp_all add: run_sub_op_def last_socket_def sockets_after registerSocket_def
      removeSocket_def)

lemmas run_sub_op_facts = run_sub_op_ok run_sub_op_subscribers run_sub_op_socket

lemma run_sub_ops_facts:
  assumes "sub_ok s"
  shows "sub_ok (fold run_sub_op ops s) \<and>
    (c \<in> set (getSubscribers e (fold run_sub_op ops s)) \<longleftrightarrow>
       fold (last_sub c e) ops (c \<in> set (getSubscribers e s))) \<and>
    jm_get (sb_sockets (fold run_sub_op ops s)) c = fold (last_socket c) ops (jm_get (sb_sockets s) c)"
  using assms by (induction ops arbitrary: s) (simp_all add: run_sub_op_facts)

section \<open>Counting\<close>

lemma fold_lengths: "fold (\<lambda>subs total. total + length subs) xss n = n + sum_list (map length xss)"
  by (induction xss arbitrary: n) simp_all

definition pairs_of :: "(string, string list) jsmap \<Rightarrow> (string \<times> string) set" where
  "pairs_of m = {(k, x). x \<in> set (members m k)}"

lemma card_pairs:
  assumes "index_wf m"
  shows "sum_list (map length (jm_values m)) = card (pairs_of m)"
proof -
  have "sum_list (map length (jm_values m)) = (\<Sum>(k, xs)\<leftarrow>m. length xs)"
    by (simp add: jm_values_def comp_def case_prod_unfold)
  also have "\<dots> = (\<Sum>(k, xs)\<in>set m. length xs)"
    using index_wfD(1) [OF assms] by (subst sum_list_distinct_conv_sum_set) (simp_all add: jm_wf_def distinct_map)
  also have "\<dots> = (\<Sum>(k, xs)\<in>set m. card ({k} \<times> set xs))"
    using index_wfD(1,2) [OF assms] by (intro sum.cong) (auto simp: jm_get_mem distinct_card)
  also have "\<dots> = card (\<Union>(k, xs)\<in>set m. {k} \<times> set xs)"
    using index_wfD(1) [OF assms]
    by (subst card_UN_disjoint) (auto simp: jm_get_mem case_prod_beta)
  also have "(\<Union>(k, xs)\<in>set m. {k} \<times> set xs) = {(k, x). \<exists>xs. (k, xs) \<in> set m \<and> x \<in> set xs}"
    by auto
  also have "\<dots> = pairs_of m"
    unfolding jm_get_mem [OF index_wfD(1) [OF assms]] pairs_of_def by (simp add: in_members)
  finally show ?thesis .
qed

section \<open>Properties\<close>

text \<open>
  C21: after any history of registrations, subscriptions, unsubscriptions and disconnects, an event
  of an execution is sent exactly to the open sockets of the connections whose last operation on that
  execution was a subscription not followed by a disconnect, to the socket last registered for the
  connection; and it is sent at most once per subscribed connection.
\<close>

theorem broadcast_follows_history:
  fixes ops :: "sub_op list"
  defines "s \<equiv> fold run_sub_op ops init_sub_registry"
  shows "((sk, ev') \<in> set (broadcast is_open e ev s) \<longleftrightarrow>
      ev' = ev \<and> is_open sk \<and>
      (\<exists>c. fold (last_sub c e) ops False \<and> fold (last_socket c) ops None = Some sk)) \<and>
    length (broadcast is_open e ev s) \<le> card {c. fold (last_sub c e) ops False}"
proof -
  have F: "sub_ok s" "c \<in> set (getSubscribers e s) \<longleftrightarrow> fold (last_sub c e) ops False"
    "jm_get (sb_sockets s) c = fold (last_socket c) ops None" for c
    using run_sub_ops_facts [OF sub_ok_init, of ops c e]
    by (simp_all add: s_def)
  have b: "broadcast is_open e ev s = concat (map (\<lambda>c. case jm_get (sb_sockets s) c of
      None \<Rightarrow> [] | Some socket \<Rightarrow> if is_open socket then [(socket, ev)] else []) (getSubscribers e s))"
    by (simp add: broadcast_def getSubscribers_def split: option.splits)
  have short: "length (concat (map (\<lambda>c. case jm_get (sb_sockets s) c of
      None \<Rightarrow> [] | Some socket \<Rightarrow> if is_open socket then [(socket, ev)] else []) cs)) \<le> length cs" for cs
    by (induction cs) (auto split: option.splits)
  have "distinct (getSubscribers e s)"
    using F(1) index_wfD(3) by (simp add: sub_ok_def get_members)
  then have "card {c. fold (last_sub c e) ops False} = length (getSubscribers e s)"
    using distinct_card [of "getSubscribers e s"] by (simp only: F(2) [symmetric] Collect_mem_eq)
  with short [of "getSubscribers e s"]
  have "length (broadcast is_open e ev s) \<le> card {c. fold (last_sub c e) ops False}"
    by (simp only: b)
  moreover have "(sk, ev') \<in> set (broadcast is_open e ev s) \<longleftrightarrow>
      ev' = ev \<and> is_open sk \<and> (\<exists>c. c \<in> set (getSubscribers e s) \<and> jm_get (sb_sockets s) c = Some sk)"
    unfolding b by (auto split: option.splits if_splits intro!: bexI)
  ultimately show ?thesis using F(2,3) by simp
qed

text \<open>
  A disconnect cleans up completely. \<open>removeConnection\<close> returns exactly the executions the
  connection was the only subscriber of; afterwards it is subscribed to nothing and receives no
  event, every other connection keeps its subscriptions, and a second call returns nothing.
\<close>

theorem disconnect_cleans_up:
  fixes c :: string
  assumes ok: "sub_ok s"
  defines "s' \<equiv> snd (sub_removeConnection c s)"
  shows "(e \<in> set (fst (sub_removeConnection c s)) \<longleftrightarrow> set (getSubscribers e s) = {c}) \<and>
    getSubscriptions c s' = [] \<and> c \<notin> set (getSubscribers e s') \<and> jm_get (sb_sockets s') c = None \<and>
    (c' \<noteq> c \<longrightarrow> (c' \<in> set (getSubscribers e s') \<longleftrightarrow> c' \<in> set (getSubscribers e s))) \<and>
    fst (sub_removeConnection c s') = []"
  using srg.orphaned_iff [OF ok, of e c] srg.removed_everywhere [OF ok, of c]
    srg.subs_remove [OF ok, of e c] srg.others_keep [OF ok, of c' c e] srg.remove_twice [OF ok, of c]
  by (simp add: s'_def sockets_after)

lemma disconnect_cleans_up_witness:
  "set (fst (sub_removeConnection ''c'' (subscribe ''c'' ''e'' init_sub_registry))) = {''e''}"
proof -
  have ok: "sub_ok (subscribe ''c'' ''e'' init_sub_registry)"
    by (intro sub_ok_subscribe sub_ok_init)
  have "set (getSubscribers e (subscribe ''c'' ''e'' init_sub_registry)) = {''c''} \<longleftrightarrow> e = ''e''" for e
    by (simp add: gw_simps)
  then have "e \<in> set (fst (sub_removeConnection ''c'' (subscribe ''c'' ''e'' init_sub_registry))) \<longleftrightarrow>
      e = ''e''" for e
    using disconnect_cleans_up [OF ok, of e "''c''" "[]"] by (simp only:)
  then show ?thesis by auto
qed

text \<open>
  The two indexes never drift apart. After any history, \<open>subscriptionCount\<close> (summed over the
  executions) is the number of (connection, execution) pairs subscribed, counted from either side,
  and \<open>connectionCount\<close> is the number of connections with a subscription.
\<close>

theorem subscription_counts:
  fixes ops :: "sub_op list"
  defines "s \<equiv> fold run_sub_op ops init_sub_registry"
  shows "subscriptionCount s = card {(c, e). fold (last_sub c e) ops False} \<and>
    subscriptionCount s = sum_list (map length (jm_values (sb_byConnection s))) \<and>
    connectionCount s = card {c. \<exists>e. fold (last_sub c e) ops False}"
proof -
  have F: "sub_ok s" "c \<in> set (getSubscribers e s) \<longleftrightarrow> fold (last_sub c e) ops False" for c e
    using run_sub_ops_facts [OF sub_ok_init, of ops c e]
    by (simp_all add: s_def)
  have G: "e \<in> set (getSubscriptions c s) \<longleftrightarrow> fold (last_sub c e) ops False" for c e
    using F by (simp add: sub_ok_def)
  have wf: "index_wf (sb_byExecution s)" "index_wf (sb_byConnection s)"
    using F(1) by (simp_all add: sub_ok_def)
  have c: "pairs_of (sb_byConnection s) = {(c, e). fold (last_sub c e) ops False}"
    using G by (simp add: pairs_of_def get_members)
  have "pairs_of (sb_byExecution s) = prod.swap ` {(c, e). fold (last_sub c e) ops False}"
    using F(2) by (auto simp: pairs_of_def get_members image_iff)
  then have e: "card (pairs_of (sb_byExecution s)) = card {(c, e). fold (last_sub c e) ops False}"
    by (simp add: card_image)
  have "connectionCount s = card (set (jm_keys (sb_byConnection s)))"
    using index_wfD(1) [OF wf(2)]
    by (simp add: connectionCount_def jm_size_def jm_wf_def jm_keys_def distinct_card del: set_map)
  also have "set (jm_keys (sb_byConnection s)) = {c. getSubscriptions c s \<noteq> []}"
    using members_empty [OF wf(2)] by (simp add: set_jm_keys get_members)
  also have "\<dots> = {c. \<exists>e. fold (last_sub c e) ops False}"
    using G by (metis (no_types, opaque_lifting) list.set_intros(1) neq_Nil_conv empty_iff list.set(1))
  finally have "connectionCount s = card {c. \<exists>e. fold (last_sub c e) ops False}" .
  then show ?thesis
    using card_pairs [OF wf(1)] card_pairs [OF wf(2)] c e
    by (simp add: subscriptionCount_def fold_lengths)
qed

end
