(* ===== verification/Retry_Executor.thy ===== *)
theory Retry_Executor
  imports Gateway_Contracts
begin

text \<open>
  apps/gateway-app/src/execute/retry-executor.ts and errors.ts: the retry loop around the dispatch
  of an execution, each attempt and each backoff raced against the abort signal.

  What the loop cannot decide itself is an environment, one answer per attempt: whether the signal
  is aborted when the attempt starts, which side of \<open>raceAbort\<close> comes first, and whether the signal
  aborts before the backoff timer fires. The effects (calls of \<open>dispatch\<close>, events written) are a
  trace in the order the code makes them. Delays are rationals (\<open>backoffMultiplier\<close> may be 1.5);
  IEEE rounding is not modelled.
\<close>

section \<open>The code\<close>

text \<open>\<open>ExecutionRetryConfig\<close>; the fields are those of \<open>DEFAULTS\<close>, each optional.\<close>

record retry_config =
  rc_maxAttempts :: "int option"
  rc_initialDelayMs :: "rat option"
  rc_backoffMultiplier :: "rat option"
  rc_maxDelayMs :: "rat option"
  rc_onlyRetryable :: "bool option"

record retry_settings =
  rs_maxAttempts :: int
  rs_initialDelayMs :: rat
  rs_backoffMultiplier :: rat
  rs_maxDelayMs :: rat
  rs_onlyRetryable :: bool

definition RETRY_DEFAULTS :: retry_settings where
  "RETRY_DEFAULTS = \<lparr>rs_maxAttempts = 1, rs_initialDelayMs = 1000, rs_backoffMultiplier = 2,
     rs_maxDelayMs = 30000, rs_onlyRetryable = True\<rparr>"

text \<open>\<open>{ ...DEFAULTS, ...ctx.config }\<close>\<close>

definition merge_config :: "retry_config option \<Rightarrow> retry_settings" where
  "merge_config config = (case config of
       None \<Rightarrow> RETRY_DEFAULTS
     | Some c \<Rightarrow>
         \<lparr>rs_maxAttempts = or_else (rc_maxAttempts c) (rs_maxAttempts RETRY_DEFAULTS),
          rs_initialDelayMs = or_else (rc_initialDelayMs c) (rs_initialDelayMs RETRY_DEFAULTS),
          rs_backoffMultiplier = or_else (rc_backoffMultiplier c) (rs_backoffMultiplier RETRY_DEFAULTS),
          rs_maxDelayMs = or_else (rc_maxDelayMs c) (rs_maxDelayMs RETRY_DEFAULTS),
          rs_onlyRetryable = or_else (rc_onlyRetryable c) (rs_onlyRetryable RETRY_DEFAULTS)\<rparr>)"

text \<open>What may be thrown: a \<open>CancelledError\<close>, another \<open>Error\<close> with its message, any other value.\<close>

datatype thrown =
    Th_cancelled string
  | Th_error string
  | Th_value jval

text \<open>\<open>String(err)\<close> of a value that is not an \<open>Error\<close> may itself throw.\<close>

definition to_primitive_error :: thrown where
  "to_primitive_error = Th_error ''Cannot convert object to primitive value''"

definition error_message :: "thrown \<Rightarrow> string option" where
  "error_message err = (case err of
       Th_cancelled reason \<Rightarrow> Some (''Execution cancelled: '' @ reason)
     | Th_error msg \<Rightarrow> Some msg
     | Th_value v \<Rightarrow> js_String v)"

record classified_error =
  ce_code :: string
  ce_message :: string
  ce_retryable :: bool

definition classify_message :: "string \<Rightarrow> classified_error" where
  "classify_message msg =
     (if js_includes msg ''ECONNREFUSED'' \<or> js_includes msg ''ECONNRESET'' \<or>
         js_includes msg ''ETIMEDOUT'' \<or> js_includes msg ''timed out'' \<or>
         js_includes msg ''503'' \<or> js_includes msg ''Service Unavailable''
      then \<lparr>ce_code = ''TRANSPORT_ERROR'', ce_message = msg, ce_retryable = True\<rparr>
      else if js_includes msg ''Host not connected''
      then \<lparr>ce_code = ''HOST_UNAVAILABLE'', ce_message = msg, ce_retryable = True\<rparr>
      else \<lparr>ce_code = ''HANDLER_ERROR'', ce_message = msg, ce_retryable = False\<rparr>)"

definition classifyError :: "thrown \<Rightarrow> classified_error option" where
  "classifyError err = (case err of
       Th_value v \<Rightarrow> map_option
         (\<lambda>s. \<lparr>ce_code = ''UNKNOWN'', ce_message = s, ce_retryable = False\<rparr>) (js_String v)
     | _ \<Rightarrow> map_option classify_message (error_message err))"

datatype 'a race = Race_value 'a | Race_throws thrown | Race_aborted string | Race_never

record 'a retry_env =
  en_check :: "nat \<Rightarrow> string option"
  en_race :: "nat \<Rightarrow> 'a race"
  en_delay :: "nat \<Rightarrow> string option"

datatype 'a retry_result = R_value 'a | R_throws thrown | R_hangs

datatype retry_effect = Eff_dispatch nat | Eff_write execution_event

definition maxAttempts_of :: "retry_settings \<Rightarrow> nat" where
  "maxAttempts_of cfg = nat (max 1 (rs_maxAttempts cfg))"

definition backoff_delay :: "retry_settings \<Rightarrow> nat \<Rightarrow> rat" where
  "backoff_delay cfg attempt =
     min (rs_initialDelayMs cfg * rs_backoffMultiplier cfg ^ (attempt - 1)) (rs_maxDelayMs cfg)"

definition retry_event :: "retry_settings \<Rightarrow> string \<Rightarrow> string \<Rightarrow> nat \<Rightarrow> string \<Rightarrow> execution_event" where
  "retry_event cfg requestId executionId attempt msg =
     E_retry requestId executionId (int attempt) (int (maxAttempts_of cfg)) (backoff_delay cfg attempt) msg"

text \<open>The \<open>for\<close> loop from a given attempt on.\<close>

function retry_loop ::
  "retry_settings \<Rightarrow> 'a retry_env \<Rightarrow> string \<Rightarrow> string \<Rightarrow> nat \<Rightarrow> 'a retry_result \<times> retry_effect list" where
  "retry_loop cfg env requestId executionId attempt =
     (if attempt > maxAttempts_of cfg
      then (R_throws (Th_error ''executeWithRetry: no attempts made''), [])
      else case en_check env attempt of
        Some reason \<Rightarrow> (R_throws (Th_cancelled reason), [])
      | None \<Rightarrow>
          (case en_race env attempt of
             Race_value v \<Rightarrow> (R_value v, [Eff_dispatch attempt])
           | Race_never \<Rightarrow> (R_hangs, [Eff_dispatch attempt])
           | Race_aborted reason \<Rightarrow> (R_throws (Th_cancelled reason), [Eff_dispatch attempt])
           | Race_throws (Th_cancelled reason) \<Rightarrow> (R_throws (Th_cancelled reason), [Eff_dispatch attempt])
           | Race_throws err \<Rightarrow>
               (case classifyError err of
                  None \<Rightarrow> (R_throws to_primitive_error, [Eff_dispatch attempt])
                | Some classified \<Rightarrow>
                    let lastError = Th_error (ce_message classified)
                    in if attempt \<ge> maxAttempts_of cfg then (R_throws lastError, [Eff_dispatch attempt])
                       else if rs_onlyRetryable cfg \<and> \<not> ce_retryable classified
                       then (R_throws lastError, [Eff_dispatch attempt])
                       else let ev = retry_event cfg requestId executionId attempt (ce_message classified)
                            in case en_delay env attempt of
                                 Some reason \<Rightarrow>
                                   (R_throws (Th_cancelled reason), [Eff_dispatch attempt, Eff_write ev])
                               | None \<Rightarrow>
                                   let (r, effs) = retry_loop cfg env requestId executionId (Suc attempt)
                                   in (r, Eff_dispatch attempt # Eff_write ev # effs))))"
  by pat_completeness auto
termination
  by (relation "measure (\<lambda>(cfg, env, rid, eid, attempt). Suc (maxAttempts_of cfg) - attempt)") auto

declare retry_loop.simps [simp del]

definition executeWithRetry ::
  "retry_config option \<Rightarrow> 'a retry_env \<Rightarrow> string \<Rightarrow> string \<Rightarrow> 'a retry_result \<times> retry_effect list" where
  "executeWithRetry config env requestId executionId =
     retry_loop (merge_config config) env requestId executionId 1"

section \<open>Which attempt decides\<close>

text \<open>The message the loop would retry attempt \<open>k\<close> with, if it fails in a way that is retried.\<close>

definition retry_message :: "retry_settings \<Rightarrow> 'a retry_env \<Rightarrow> nat \<Rightarrow> string option" where
  "retry_message cfg env k =
     (if en_check env k \<noteq> None \<or> maxAttempts_of cfg \<le> k then None
      else case en_race env k of
        Race_throws err \<Rightarrow>
          (case err of Th_cancelled _ \<Rightarrow> None
           | _ \<Rightarrow> (case classifyError err of
               None \<Rightarrow> None
             | Some c \<Rightarrow> if rs_onlyRetryable cfg \<and> \<not> ce_retryable c then None else Some (ce_message c)))
      | _ \<Rightarrow> None)"

definition retried :: "retry_settings \<Rightarrow> 'a retry_env \<Rightarrow> nat \<Rightarrow> bool" where
  "retried cfg env k = (retry_message cfg env k \<noteq> None \<and> en_delay env k = None)"

text \<open>What the last attempt gives, and the effects of an attempt.\<close>

definition outcome_of :: "retry_settings \<Rightarrow> 'a retry_env \<Rightarrow> nat \<Rightarrow> 'a retry_result" where
  "outcome_of cfg env k =
     (case en_check env k of
        Some reason \<Rightarrow> R_throws (Th_cancelled reason)
      | None \<Rightarrow>
          (case en_race env k of
             Race_value v \<Rightarrow> R_value v
           | Race_never \<Rightarrow> R_hangs
           | Race_aborted reason \<Rightarrow> R_throws (Th_cancelled reason)
           | Race_throws err \<Rightarrow>
               (case (retry_message cfg env k, en_delay env k) of
                  (Some _, Some reason) \<Rightarrow> R_throws (Th_cancelled reason)
                | _ \<Rightarrow>
                    (case err of Th_cancelled reason \<Rightarrow> R_throws err
                     | _ \<Rightarrow> (case error_message err of
                         None \<Rightarrow> R_throws to_primitive_error
                       | Some msg \<Rightarrow> R_throws (Th_error msg))))))"

definition attempt_effects ::
  "retry_settings \<Rightarrow> 'a retry_env \<Rightarrow> string \<Rightarrow> string \<Rightarrow> nat \<Rightarrow> retry_effect list" where
  "attempt_effects cfg env requestId executionId k =
     (if en_check env k \<noteq> None then []
      else Eff_dispatch k #
        (case retry_message cfg env k of
           None \<Rightarrow> []
         | Some msg \<Rightarrow> [Eff_write (retry_event cfg requestId executionId k msg)]))"

lemma classify_message_text [simp]: "ce_message (classify_message m) = m"
  by (simp add: classify_message_def)

lemma classify_error_message: "map_option ce_message (classifyError err) = error_message err"
  by (cases err) (simp_all add: classifyError_def error_message_def option.map_comp o_def option.map_ident)

lemma classify_None: "classifyError err = None \<Longrightarrow> error_message err = None"
  using classify_error_message [of err] by simp

lemma classify_Some: "classifyError err = Some c \<Longrightarrow> error_message err = Some (ce_message c)"
  using classify_error_message [of err] by simp

lemma maxAttempts_pos: "1 \<le> maxAttempts_of cfg"
  by (simp add: maxAttempts_of_def)

lemmas attempt_defs = retried_def retry_message_def outcome_of_def attempt_effects_def

lemma retry_loop_last:
  assumes "k \<le> maxAttempts_of cfg" "\<not> retried cfg env k"
  shows "retry_loop cfg env rid eid k = (outcome_of cfg env k, attempt_effects cfg env rid eid k)"
  using assms by (subst retry_loop.simps)
    (auto simp: attempt_defs Let_def classify_None classify_Some
      split: option.splits race.splits thrown.splits)

lemma retry_loop_next:
  assumes "retried cfg env k"
  shows "retry_loop cfg env rid eid k =
    (fst (retry_loop cfg env rid eid (Suc k)),
     attempt_effects cfg env rid eid k @ snd (retry_loop cfg env rid eid (Suc k)))"
  using assms by (subst retry_loop.simps)
    (auto simp: attempt_defs Let_def split: option.splits race.splits thrown.splits prod.splits
      if_splits)

lemma retried_before_max: "retried cfg env k \<Longrightarrow> k < maxAttempts_of cfg"
  by (auto simp: attempt_defs split: if_splits)

lemma retry_loop_decided:
  assumes "i \<le> maxAttempts_of cfg"
  shows "\<exists>k. i \<le> k \<and> k \<le> maxAttempts_of cfg \<and> (\<forall>j. i \<le> j \<and> j < k \<longrightarrow> retried cfg env j) \<and>
    \<not> retried cfg env k \<and>
    retry_loop cfg env rid eid i =
      (outcome_of cfg env k, concat (map (attempt_effects cfg env rid eid) [i..<Suc k]))"
  using assms
proof (induction "maxAttempts_of cfg - i" arbitrary: i rule: less_induct)
  case less
  show ?case
  proof (cases "retried cfg env i")
    case False
    with less.prems retry_loop_last [OF less.prems False] show ?thesis
      by (intro exI [of _ i]) auto
  next
    case True
    note i = retried_before_max [OF True]
    then have "maxAttempts_of cfg - Suc i < maxAttempts_of cfg - i" "Suc i \<le> maxAttempts_of cfg" by simp_all
    from less.hyps [OF this] obtain k where k: "Suc i \<le> k" "k \<le> maxAttempts_of cfg"
      "\<forall>j. Suc i \<le> j \<and> j < k \<longrightarrow> retried cfg env j" "\<not> retried cfg env k"
      "retry_loop cfg env rid eid (Suc i) =
        (outcome_of cfg env k, concat (map (attempt_effects cfg env rid eid) [Suc i..<Suc k]))"
      by blast
    have all: "\<forall>j. i \<le> j \<and> j < k \<longrightarrow> retried cfg env j" using k(3) True
      by (metis Suc_leI le_neq_implies_less)
    have "[i..<Suc k] = i # [Suc i..<Suc k]" using k(1) by (simp add: upt_conv_Cons)
    with k all retry_loop_next [OF True, of rid eid] show ?thesis
      by (intro exI [of _ k]) simp
  qed
qed

lemma executeWithRetry_decided:
  obtains k where "1 \<le> k" "k \<le> maxAttempts_of (merge_config config)"
    "\<forall>j. 1 \<le> j \<and> j < k \<longrightarrow> retried (merge_config config) env j"
    "\<not> retried (merge_config config) env k"
    "executeWithRetry config env rid eid =
      (outcome_of (merge_config config) env k,
       concat (map (attempt_effects (merge_config config) env rid eid) [1..<Suc k]))"
  using retry_loop_decided [OF maxAttempts_pos [of "merge_config config"], of env rid eid]
  unfolding executeWithRetry_def by blast

lemma first_unretried_unique:
  assumes "\<forall>j. 1 \<le> j \<and> j < k \<longrightarrow> retried cfg env j" "\<not> retried cfg env k" "1 \<le> k"
    and "\<forall>j. 1 \<le> j \<and> j < k' \<longrightarrow> retried cfg env j" "\<not> retried cfg env k'" "1 \<le> k'"
  shows "k = k'"
  using assms by (metis nat_neq_iff)

lemma outcome_value:
  "outcome_of cfg env k = R_value v \<longleftrightarrow> en_check env k = None \<and> en_race env k = Race_value v"
  by (auto simp: outcome_of_def split: option.splits race.splits thrown.splits)

lemma outcome_hangs:
  "outcome_of cfg env k = R_hangs \<longleftrightarrow> en_check env k = None \<and> en_race env k = Race_never"
  by (auto simp: outcome_of_def split: option.splits race.splits thrown.splits)

lemma effects_of_attempt:
  assumes "eff \<in> set (attempt_effects cfg env rid eid k)"
  shows "eff = Eff_dispatch k \<and> en_check env k = None \<or>
    (\<exists>msg. eff = Eff_write (retry_event cfg rid eid k msg) \<and> k < maxAttempts_of cfg)"
  using assms by (auto simp: attempt_effects_def retry_message_def split: if_splits option.splits)

section \<open>Properties\<close>

text \<open>
  C12: the retry loop is exactly ``repeat until an attempt is not retried''. It stops at the first
  attempt \<open>k\<close> whose failure is not a retryable error, or that succeeds, is cancelled, or is the
  last one allowed; all earlier attempts failed retryably and their backoff was not interrupted; its
  result is that attempt's outcome, and the dispatches and retry events it made are those of the
  attempts 1 to \<open>k\<close>, in order, one dispatch and one event each.
\<close>

theorem retry_schedule:
  "\<exists>k. 1 \<le> k \<and> k \<le> maxAttempts_of (merge_config config) \<and>
     list_all (retried (merge_config config) env) [1..<k] \<and> \<not> retried (merge_config config) env k \<and>
     executeWithRetry config env rid eid =
       (outcome_of (merge_config config) env k,
        concat (map (attempt_effects (merge_config config) env rid eid) [1..<Suc k]))"
  by (rule executeWithRetry_decided [of config env rid eid]) (auto simp: list_all_iff)

text \<open>
  The call returns a value exactly when some attempt within the bound produced that value, not
  being cancelled before it started, and every earlier attempt failed in a way that is retried; in
  particular the value is that of the first attempt to succeed and no error is swallowed otherwise.
  It hangs exactly when the deciding attempt's dispatch neither settles nor is aborted.
\<close>

theorem retry_value_iff:
  "(fst (executeWithRetry config env rid eid) = R_value v \<longleftrightarrow>
     (\<exists>k\<ge>1. list_all (retried (merge_config config) env) [1..<k] \<and>
        en_check env k = None \<and> en_race env k = Race_value v)) \<and>
   (fst (executeWithRetry config env rid eid) = R_hangs \<longleftrightarrow>
     (\<exists>k\<ge>1. list_all (retried (merge_config config) env) [1..<k] \<and>
        en_check env k = None \<and> en_race env k = Race_never))"
proof -
  let ?cfg = "merge_config config"
  obtain k where k: "1 \<le> k" "\<forall>j. 1 \<le> j \<and> j < k \<longrightarrow> retried ?cfg env j" "\<not> retried ?cfg env k"
    and run: "executeWithRetry config env rid eid = (outcome_of ?cfg env k,
       concat (map (attempt_effects ?cfg env rid eid) [1..<Suc k]))"
    by (rule executeWithRetry_decided [of config env rid eid])
  have unique: "k' = k" if "k' \<ge> 1" "list_all (retried ?cfg env) [1..<k']"
      "en_race env k' = Race_value v \<or> en_race env k' = Race_never" for k'
  proof (rule first_unretried_unique [OF _ _ that(1) k(2) k(3) k(1)])
    show "\<forall>j. 1 \<le> j \<and> j < k' \<longrightarrow> retried ?cfg env j" using that(2) by (auto simp: list_all_iff)
    show "\<not> retried ?cfg env k'" using that(3) by (auto simp: retried_def retry_message_def)
  qed
  have all: "list_all (retried ?cfg env) [1..<k]" using k(2) by (auto simp: list_all_iff)
  show ?thesis
    unfolding run fst_conv outcome_value outcome_hangs using unique all k(1) by blast
qed

lemma retry_value_iff_witness:
  "fst (executeWithRetry
      (Some \<lparr>rc_maxAttempts = Some 3, rc_initialDelayMs = None, rc_backoffMultiplier = None,
         rc_maxDelayMs = None, rc_onlyRetryable = None\<rparr>)
      \<lparr>en_check = (\<lambda>k. None),
       en_race = (\<lambda>k. if k = 1 then Race_throws (Th_error ''ECONNREFUSED'') else Race_value (7 :: nat)),
       en_delay = (\<lambda>k. None)\<rparr>
      ''r'' ''e'') = R_value 7"
proof -
  let ?config = "Some \<lparr>rc_maxAttempts = Some 3, rc_initialDelayMs = None, rc_backoffMultiplier = None,
         rc_maxDelayMs = None, rc_onlyRetryable = None\<rparr>"
  let ?env = "\<lparr>en_check = (\<lambda>k. None),
       en_race = (\<lambda>k. if k = 1 then Race_throws (Th_error ''ECONNREFUSED'') else Race_value (7 :: nat)),
       en_delay = (\<lambda>k. None)\<rparr>"
  have "retried (merge_config ?config) ?env 1"
    by (simp add: retried_def retry_message_def merge_config_def maxAttempts_of_def classifyError_def
        error_message_def classify_message_def)
  then have "list_all (retried (merge_config ?config) ?env) [1..<2]"
    by (simp add: upt_rec numeral_2_eq_2)
  then have "\<exists>k\<ge>1. list_all (retried (merge_config ?config) ?env) [1..<k] \<and>
        en_check ?env k = None \<and> en_race ?env k = Race_value 7"
    by (intro exI [of _ 2]) simp
  with retry_value_iff [of ?config ?env "''r''" "''e''" 7] show ?thesis by blast
qed

text \<open>
  C38: the bounds of the loop. At most \<open>max 1 maxAttempts\<close> dispatches are made, numbered
  consecutively from 1; every retry event carries an attempt number below the maximum and a delay of
  at most \<open>maxDelayMs\<close>; with the configuration the execute route passes (none) the dispatch runs at
  most once and no retry event is ever written.
\<close>

theorem retry_bounds:
  fixes config :: "retry_config option" and env :: "'a retry_env" and rid eid :: string
  defines "cfg \<equiv> merge_config config"
  defines "effs \<equiv> snd (executeWithRetry config env rid eid)"
  shows "(\<exists>n\<le>maxAttempts_of cfg.
      filter (\<lambda>eff. case eff of Eff_dispatch _ \<Rightarrow> True | _ \<Rightarrow> False) effs = map Eff_dispatch [1..<Suc n]) \<and>
    list_all (\<lambda>eff. case eff of
        Eff_write (E_retry r e attempt maxA delay msg) \<Rightarrow>
          r = rid \<and> e = eid \<and> 1 \<le> attempt \<and> attempt < maxA \<and> maxA = int (maxAttempts_of cfg) \<and>
          delay \<le> rs_maxDelayMs cfg
      | Eff_write _ \<Rightarrow> False
      | Eff_dispatch k \<Rightarrow> en_check env k = None) effs \<and>
    (config = None \<longrightarrow> effs = [] \<or> effs = [Eff_dispatch 1])"
proof -
  obtain k where k: "1 \<le> k" "k \<le> maxAttempts_of cfg" "\<forall>j. 1 \<le> j \<and> j < k \<longrightarrow> retried cfg env j"
    and effs: "effs = concat (map (attempt_effects cfg env rid eid) [1..<Suc k])"
    using executeWithRetry_decided [of config env rid eid] unfolding cfg_def effs_def by (metis snd_conv)
  let ?D = "\<lambda>eff. case eff of Eff_dispatch _ \<Rightarrow> True | _ \<Rightarrow> False"
  have one: "filter ?D (attempt_effects cfg env rid eid j) =
      (if en_check env j = None then [Eff_dispatch j] else [])" for j
    by (simp add: attempt_effects_def split: option.splits)
  have "filter ?D (concat (map (attempt_effects cfg env rid eid) [1..<m])) = map Eff_dispatch [1..<m]"
    if "\<forall>j. 1 \<le> j \<and> j < m \<longrightarrow> retried cfg env j" for m
    using that
  proof (induction m)
    case (Suc m)
    then show ?case
      by (cases "m = 0") (auto simp: one retried_def retry_message_def split: if_splits)
  qed simp
  from this [OF k(3)] have "filter ?D effs =
      (if en_check env k = None then map Eff_dispatch [1..<Suc k] else map Eff_dispatch [1..<k])"
    using k(1) by (simp add: effs one)
  moreover have "map Eff_dispatch [1..<k] = map Eff_dispatch [1..<Suc (k - 1)]" using k(1) by simp
  ultimately have n: "\<exists>n\<le>maxAttempts_of cfg. filter ?D effs = map Eff_dispatch [1..<Suc n]"
    using k(2) by (metis diff_le_self le_trans)
  have "(\<exists>j. eff = Eff_dispatch j \<and> en_check env j = None) \<or>
      (\<exists>j msg. eff = Eff_write (retry_event cfg rid eid j msg) \<and> 1 \<le> j \<and> j < maxAttempts_of cfg)"
    if "eff \<in> set effs" for eff
    using that effects_of_attempt [of eff cfg env rid eid] unfolding effs by fastforce
  then have w: "list_all (\<lambda>eff. case eff of
        Eff_write (E_retry r e attempt maxA delay msg) \<Rightarrow>
          r = rid \<and> e = eid \<and> 1 \<le> attempt \<and> attempt < maxA \<and> maxA = int (maxAttempts_of cfg) \<and>
          delay \<le> rs_maxDelayMs cfg
      | Eff_write _ \<Rightarrow> False
      | Eff_dispatch k \<Rightarrow> en_check env k = None) effs"
    unfolding list_all_iff by (fastforce simp: retry_event_def backoff_delay_def)
  have "config = None \<longrightarrow> maxAttempts_of cfg = 1"
    by (simp add: cfg_def merge_config_def RETRY_DEFAULTS_def maxAttempts_of_def)
  with k(1,2) have "config = None \<longrightarrow> effs = attempt_effects cfg env rid eid 1 \<and> maxAttempts_of cfg = 1"
    by (auto simp: effs)
  then have "config = None \<longrightarrow> effs = [] \<or> effs = [Eff_dispatch 1]"
    by (auto simp: attempt_effects_def retry_message_def)
  with n w show ?thesis by blast
qed

lemma retry_bounds_witness:
  "snd (executeWithRetry None \<lparr>en_check = (\<lambda>k. None), en_race = (\<lambda>k. Race_value ()), en_delay = (\<lambda>k. None)\<rparr>
      ''r'' ''e'') \<in> {[], [Eff_dispatch 1]}"
  using retry_bounds [of None "\<lparr>en_check = (\<lambda>k. None), en_race = (\<lambda>k. Race_value ()), en_delay = (\<lambda>k. None)\<rparr>"
      "''r''" "''e''"] by simp

text \<open>
  No dispatch is made once the signal is aborted. If the signal is aborted when attempt \<open>k\<close>
  would start, or aborts during the backoff after an attempt before \<open>k\<close>, then no attempt from \<open>k\<close>
  on is dispatched; and an attempt whose dispatch never settles still ends, with the abort reason,
  when the signal aborts.
\<close>

theorem abort_stops_dispatch:
  assumes "(\<exists>reason. en_check env k = Some reason) \<or> (\<exists>j reason. 1 \<le> j \<and> j < k \<and> en_delay env j = Some reason)"
    and "1 \<le> k" "k \<le> i"
  shows "Eff_dispatch i \<notin> set (snd (executeWithRetry config env rid eid)) \<and>
    (en_check env 1 = None \<and> en_race env 1 = Race_aborted r \<longrightarrow>
       fst (executeWithRetry config env rid eid) = R_throws (Th_cancelled r))"
proof -
  let ?cfg = "merge_config config"
  obtain m where m: "1 \<le> m" "\<forall>j. 1 \<le> j \<and> j < m \<longrightarrow> retried ?cfg env j"
    and run: "executeWithRetry config env rid eid = (outcome_of ?cfg env m,
       concat (map (attempt_effects ?cfg env rid eid) [1..<Suc m]))"
    by (rule executeWithRetry_decided [of config env rid eid])
  have no: "Eff_dispatch i \<notin> set (snd (executeWithRetry config env rid eid))"
  proof
    assume "Eff_dispatch i \<in> set (snd (executeWithRetry config env rid eid))"
    then obtain j where "1 \<le> j" "j \<le> m" "Eff_dispatch i \<in> set (attempt_effects ?cfg env rid eid j)"
      by (auto simp: run)
    with effects_of_attempt have i: "1 \<le> i" "i \<le> m" "en_check env i = None" by blast+
    have "en_check env j = None \<and> en_delay env j = None" if "1 \<le> j" "j < m" for j
      using m(2) that by (auto simp: retried_def retry_message_def split: if_splits)
    with assms i show False
      by (cases "k = m") (auto simp: le_less_trans)
  qed
  have "fst (executeWithRetry config env rid eid) = R_throws (Th_cancelled r)"
    if "en_check env 1 = None" "en_race env 1 = Race_aborted r"
  proof -
    have "\<not> retried ?cfg env 1" using that by (simp add: retried_def retry_message_def)
    with m have "m = 1" by (metis le_neq_implies_less le_refl)
    with that show ?thesis by (simp add: run outcome_of_def)
  qed
  with no show ?thesis by blast
qed

lemma abort_stops_dispatch_witness:
  "Eff_dispatch 2 \<notin> set (snd (executeWithRetry None
      \<lparr>en_check = (\<lambda>k. if k = 1 then None else Some ''user''), en_race = (\<lambda>k. Race_value ()),
       en_delay = (\<lambda>k. None)\<rparr> ''r'' ''e''))"
  using abort_stops_dispatch [of "\<lparr>en_check = (\<lambda>k. if k = 1 then None else Some ''user''),
      en_race = (\<lambda>k. Race_value ()), en_delay = (\<lambda>k. None)\<rparr>" 2 2 None "''r''" "''e''"]
  by auto

text \<open>
  Which failures are retried is decided by substrings of the message alone. The dispatcher's own
  ``Host not connected'' and ``timed out'' rejections are retryable, but so is a handler's own error
  as soon as its text happens to contain the digits 503: such a deterministic failure is dispatched
  again until the attempts run out.
\<close>

theorem error_text_503_retried:
  "map_option ce_retryable (classifyError (Th_error (''Host not connected: '' @ h))) = Some True \<and>
   map_option ce_retryable (classifyError (Th_error (''Call timed out: '' @ t))) = Some True \<and>
   filter (\<lambda>eff. case eff of Eff_dispatch _ \<Rightarrow> True | _ \<Rightarrow> False)
     (snd (executeWithRetry (Some \<lparr>rc_maxAttempts = Some (int (Suc n)), rc_initialDelayMs = None,
         rc_backoffMultiplier = None, rc_maxDelayMs = None, rc_onlyRetryable = Some True\<rparr>)
        \<lparr>en_check = (\<lambda>k. None), en_race = (\<lambda>k. Race_throws (Th_error (a @ ''503'' @ b)) :: 'a race),
         en_delay = (\<lambda>k. None)\<rparr> rid eid)) = map Eff_dispatch [1..<Suc (Suc n)]"
proof -
  let ?config = "Some \<lparr>rc_maxAttempts = Some (int (Suc n)), rc_initialDelayMs = None,
         rc_backoffMultiplier = None, rc_maxDelayMs = None, rc_onlyRetryable = Some True\<rparr>"
  define cfg where "cfg = merge_config ?config"
  let ?env = "\<lparr>en_check = (\<lambda>k. None), en_race = (\<lambda>k. Race_throws (Th_error (a @ ''503'' @ b)) :: 'a race),
         en_delay = (\<lambda>k. None)\<rparr>"
  have max: "maxAttempts_of cfg = Suc n" "rs_onlyRetryable cfg"
    by (simp_all add: cfg_def merge_config_def maxAttempts_of_def)
  have retry: "retried cfg ?env j" if "j < Suc n" for j
    using that js_includes_append [of a "''503''" b]
    by (simp add: retried_def retry_message_def max classifyError_def error_message_def
        classify_message_def)
  obtain k where k: "1 \<le> k" "k \<le> maxAttempts_of cfg" "\<forall>j. 1 \<le> j \<and> j < k \<longrightarrow> retried cfg ?env j"
      "\<not> retried cfg ?env k"
    and run: "executeWithRetry ?config ?env rid eid = (outcome_of cfg ?env k,
       concat (map (attempt_effects cfg ?env rid eid) [1..<Suc k]))"
    by (rule executeWithRetry_decided [where config = ?config and env = ?env and rid = rid and
          eid = eid, folded cfg_def])
  with retry max(1) have "k = Suc n" by (metis le_neq_implies_less)
  moreover have "filter (\<lambda>eff. case eff of Eff_dispatch _ \<Rightarrow> True | _ \<Rightarrow> False)
      (concat (map (attempt_effects cfg ?env rid eid) js)) = map Eff_dispatch js" for js
    by (induction js) (auto simp: attempt_effects_def split: option.splits)
  ultimately have "filter (\<lambda>eff. case eff of Eff_dispatch _ \<Rightarrow> True | _ \<Rightarrow> False)
      (snd (executeWithRetry ?config ?env rid eid)) = map Eff_dispatch [1..<Suc (Suc n)]"
    by (simp only: run snd_conv)
  moreover have "js_includes (''Host not connected: '' @ h) ''Host not connected''"
    "js_includes (''Call timed out: '' @ t) ''timed out''"
    unfolding js_includes_iff by (rule exI [of _ "[]"], simp) (rule exI [of _ "''Call ''"], simp)
  ultimately show ?thesis
    by (simp add: classifyError_def error_message_def classify_message_def del: js_includes.simps)
qed

end
