(* ===== verification/Auth_Routes.thy ===== *)
theory Auth_Routes
  imports Auth_Service
begin

text \<open>
  The HTTP side of authentication: the middleware of apps/gateway-app/src/auth/middleware.ts, which
  guards every route, and the three public routes of apps/gateway-app/src/auth/routes.ts. A request
  is what the code reads of it: the \<open>pathname\<close> the URL parser gives, the Authorization header, the
  \<open>access_token\<close> query parameter, or the parsed JSON body. The zod schemas are written out on JSON
  values (a missing member reads \<open>JUndef\<close>; string lengths count HOL characters).
\<close>

section \<open>Middleware\<close>

definition PUBLIC_ROUTES :: "string list" where
  "PUBLIC_ROUTES = [''/health'', ''/hosts/register'', ''/auth/register'', ''/auth/token'',
     ''/auth/refresh'', ''/internal/dispatch'', ''/internal/resolve-host'']"

text \<open>\<open>replace(/\/+/g, '/')\<close>\<close>

fun squeeze_slashes :: "string \<Rightarrow> string" where
  "squeeze_slashes [] = []"
| "squeeze_slashes [a] = [a]"
| "squeeze_slashes (a # b # r) =
     (if a = CHR ''/'' \<and> b = CHR ''/'' then squeeze_slashes (b # r) else a # squeeze_slashes (b # r))"

text \<open>\<open>replace(/\/+$/, '')\<close>\<close>

definition strip_slashes :: "string \<Rightarrow> string" where
  "strip_slashes s = rev (dropWhile (\<lambda>c. c = CHR ''/'') (rev s))"

definition routePath :: "string \<Rightarrow> string" where
  "routePath rawPath =
     (let p = strip_slashes (squeeze_slashes rawPath) in if p = [] then ''/'' else p)"

record http_request =
  hq_pathname :: string
  hq_authorization :: "string option"
  hq_access_token :: "string option"

datatype mw_result = MW_public | MW_authenticated auth_context | MW_unauthorized string

definition request_token :: "http_request \<Rightarrow> string option" where
  "request_token q = or_else_opt (extractBearerToken (hq_authorization q)) (hq_access_token q)"

definition authMiddleware ::
  "'c cache_ops \<Rightarrow> jose \<Rightarrow> string \<Rightarrow> int \<Rightarrow> http_request \<Rightarrow> 'c \<Rightarrow> mw_result" where
  "authMiddleware C J secret ms q c =
     (if routePath (hq_pathname q) \<in> set PUBLIC_ROUTES then MW_public
      else case request_token q of
        None \<Rightarrow> MW_unauthorized ''Missing Authorization header''
      | Some token \<Rightarrow>
          if token = [] then MW_unauthorized ''Missing Authorization header''
          else case auth_resolveToken C J secret ms token c of
            None \<Rightarrow> MW_unauthorized ''Invalid token''
          | Some ctx \<Rightarrow> MW_authenticated ctx)"

section \<open>Request schemas\<close>

definition as_string :: "jval \<Rightarrow> string option" where
  "as_string v = (case v of JStr s \<Rightarrow> Some s | _ \<Rightarrow> None)"

text \<open>\<open>z.array(z.string()).default([])\<close>, \<open>z.string().optional()\<close>\<close>

definition string_array :: "jval \<Rightarrow> string list option" where
  "string_array v = (case v of
       JUndef \<Rightarrow> Some []
     | JArr vs \<Rightarrow> if \<forall>x\<in>set vs. as_string x \<noteq> None then Some (List.map_filter as_string vs) else None
     | _ \<Rightarrow> None)"

definition optional_string :: "jval \<Rightarrow> string option option" where
  "optional_string v = (case v of JUndef \<Rightarrow> Some None | JStr s \<Rightarrow> Some (Some s) | _ \<Rightarrow> None)"

definition parse_register_request :: "jval \<Rightarrow> register_request option" where
  "parse_register_request body =
     (case (as_string (js_member body ''name''), as_string (js_member body ''namespaceId''),
            string_array (js_member body ''capabilities''), optional_string (js_member body ''publicKey'')) of
        (Some name, Some ns, Some caps, Some key) \<Rightarrow>
          let r = \<lparr>rq_name = name, rq_namespaceId = ns, rq_capabilities = caps, rq_publicKey = key\<rparr>
          in if valid_register_request r then Some r else None
      | _ \<Rightarrow> None)"

definition parse_token_request :: "jval \<Rightarrow> (string \<times> string) option" where
  "parse_token_request body =
     (case (as_string (js_member body ''clientId''), as_string (js_member body ''clientSecret'')) of
        (Some i, Some s) \<Rightarrow> Some (i, s) | _ \<Rightarrow> None)"

definition parse_refresh_request :: "jval \<Rightarrow> string option" where
  "parse_refresh_request body = as_string (js_member body ''refreshToken'')"

section \<open>Routes\<close>

datatype auth_reply =
    AR_bad_request
  | AR_unauthorized string
  | AR_created register_response
  | AR_tokens token_response

definition route_register ::
  "'c cache_ops \<Rightarrow> (string \<Rightarrow> string) \<Rightarrow> string \<Rightarrow> string \<Rightarrow> string \<Rightarrow> int \<Rightarrow> jval \<Rightarrow> 'c \<Rightarrow> auth_reply \<times> 'c" where
  "route_register C H rnd clientHex hostHex now body c =
     (case parse_register_request body of
        None \<Rightarrow> (AR_bad_request, c)
      | Some req \<Rightarrow>
          let (resp, c1) = auth_register C H rnd clientHex hostHex now req c in (AR_created resp, c1))"

definition route_token ::
  "'c cache_ops \<Rightarrow> (string \<Rightarrow> string) \<Rightarrow> jose \<Rightarrow> string \<Rightarrow> string \<Rightarrow> int \<Rightarrow> jval \<Rightarrow> 'c \<Rightarrow> auth_reply \<times> 'c" where
  "route_token C H J secret jti ms body c =
     (case parse_token_request body of
        None \<Rightarrow> (AR_bad_request, c)
      | Some (clientId, clientSecret) \<Rightarrow>
          (case issueTokens C H J secret clientId clientSecret jti ms c of
             (None, c1) \<Rightarrow> (AR_unauthorized ''Invalid credentials'', c1)
           | (Some tokens, c1) \<Rightarrow> (AR_tokens tokens, c1)))"

definition route_refresh ::
  "'c cache_ops \<Rightarrow> (string \<Rightarrow> string) \<Rightarrow> jose \<Rightarrow> string \<Rightarrow> string \<Rightarrow> int \<Rightarrow> jval \<Rightarrow> 'c \<Rightarrow> auth_reply \<times> 'c" where
  "route_refresh C H J secret jti ms body c =
     (case parse_refresh_request body of
        None \<Rightarrow> (AR_bad_request, c)
      | Some refreshToken \<Rightarrow>
          (case refreshTokens C H J secret refreshToken jti ms c of
             (None, c1) \<Rightarrow> (AR_unauthorized ''Invalid or expired refresh token'', c1)
           | (Some tokens, c1) \<Rightarrow> (AR_tokens tokens, c1)))"

section \<open>Path normalisation\<close>

lemma squeeze_eq_Nil [simp]: "squeeze_slashes s = [] \<longleftrightarrow> s = []"
  by (induction s rule: squeeze_slashes.induct) auto

lemma squeeze_hd [simp]: "s \<noteq> [] \<Longrightarrow> hd (squeeze_slashes s) = hd s"
  by (induction s rule: squeeze_slashes.induct) auto

lemma squeeze_slash_slash:
  "squeeze_slashes (a @ CHR ''/'' # CHR ''/'' # b) = squeeze_slashes (a @ CHR ''/'' # b)"
proof (induction a)
  case (Cons x a)
  then show ?case by (cases a) auto
qed simp

lemma squeeze_Cons:
  "squeeze_slashes (a # s) =
     (if a = CHR ''/'' \<and> s \<noteq> [] \<and> hd s = CHR ''/'' then squeeze_slashes s else a # squeeze_slashes s)"
  by (cases s) auto

lemma squeeze_idem [simp]: "squeeze_slashes (squeeze_slashes s) = squeeze_slashes s"
  by (induction s) (auto simp: squeeze_Cons)

lemma squeeze_append_slash:
  "squeeze_slashes (s @ ''/'') =
     (if s \<noteq> [] \<and> last s = CHR ''/'' then squeeze_slashes s else squeeze_slashes s @ ''/'')"
  by (induction s) (auto simp: squeeze_Cons hd_append)

lemma strip_append_slash [simp]: "strip_slashes (s @ ''/'') = strip_slashes s"
  by (simp add: strip_slashes_def)

section \<open>Properties\<close>

text \<open>
  Which requests pass the middleware, and as whom. A route is public exactly when its path, with
  runs of slashes collapsed and trailing ones dropped, is one of the seven listed; doubling a slash
  or appending one never changes that. Any other request is authenticated exactly as the context its
  token resolves to, the bearer token of the header if there is one, else the query parameter; a
  request without a resolvable token never passes.
\<close>

theorem middleware_guards:
  "(authMiddleware C J k ms q c = MW_public \<longleftrightarrow> routePath (hq_pathname q) \<in> set PUBLIC_ROUTES) \<and>
   (authMiddleware C J k ms q c = MW_authenticated ctx \<longleftrightarrow>
      routePath (hq_pathname q) \<notin> set PUBLIC_ROUTES \<and>
      (\<exists>token. token \<noteq> [] \<and> auth_resolveToken C J k ms token c = Some ctx \<and>
         (extractBearerToken (hq_authorization q) = Some token \<or>
          extractBearerToken (hq_authorization q) = None \<and> hq_access_token q = Some token))) \<and>
   routePath (a @ ''//'' @ b) = routePath (a @ ''/'' @ b) \<and> routePath (a @ ''/'') = routePath a"
proof -
  have "routePath (a @ ''//'' @ b) = routePath (a @ ''/'' @ b)"
    by (simp add: routePath_def squeeze_slash_slash)
  moreover have "routePath (a @ ''/'') = routePath a"
    using squeeze_append_slash [of a] strip_append_slash [of "squeeze_slashes a"]
    by (simp add: routePath_def)
  ultimately show ?thesis
    by (auto simp: authMiddleware_def request_token_def or_else_opt_def split: option.splits)
qed

text \<open>
  A refused request changes nothing. Whatever the body, the three auth routes leave the cache as
  it was unless they answer 201 or 200; they answer 201 exactly for a body with a name and a namespace
  of 1 to 64 characters, string capabilities and an optional string key, and a registration answers
  with a fresh credential whose plain secret is not in the cache entry written for it.
\<close>

theorem auth_routes_refuse_cleanly:
  assumes "icache C"
  shows "(fst (route_register C H rnd clientHex hostHex now body c) = AR_bad_request \<longleftrightarrow>
      parse_register_request body = None) \<and>
    (\<forall>r c'. route_register C H rnd clientHex hostHex now body c = (r, c') \<and> r = AR_bad_request \<longrightarrow> c' = c) \<and>
    (\<forall>r c'. route_token C H J k jti ms body c = (r, c') \<and> (\<forall>t. r \<noteq> AR_tokens t) \<longrightarrow> c' = c) \<and>
    (\<forall>r c'. route_refresh C H J k jti ms body c = (r, c') \<and> (\<forall>t. r \<noteq> AR_tokens t) \<longrightarrow> c' = c) \<and>
    (\<forall>resp c'. route_register C H rnd clientHex hostHex now body c = (AR_created resp, c') \<longrightarrow>
       map_option cr_secretHash (getClient C (rr_clientId resp) c') = Some (H (rr_clientSecret resp)))"
proof (intro conjI allI impI)
  fix resp c'
  assume r: "route_register C H rnd clientHex hostHex now body c = (AR_created resp, c')"
  note over = icache.read_over_set(5) [OF assms]
  from r show "map_option cr_secretHash (getClient C (rr_clientId resp) c') = Some (H (rr_clientSecret resp))"
    by (auto simp: route_register_def auth_register_def Let_def getClient_def saveClient_def savePublicKey_def
        over buildClientRecord_def split: option.splits if_splits)
qed (auto simp: route_register_def route_token_def route_refresh_def auth_register_def issueTokens_def
      refreshTokens_def consumeRefreshToken_def issue_pair_def signAccessToken_def Let_def case_prod_unfold
      split: option.splits)

lemma auth_routes_refuse_cleanly_witness:
  "fst (route_register mem_cache id ''s'' ''a'' ''b'' 0
      (JObj [(''name'', JStr ''laptop''), (''namespaceId'', JStr ''n'')]) []) \<noteq> AR_bad_request"
proof -
  have "parse_register_request (JObj [(''name'', JStr ''laptop''), (''namespaceId'', JStr ''n'')]) \<noteq> None"
    by code_simp
  then show ?thesis by (simp only: conjunct1 [OF auth_routes_refuse_cleanly [OF mem.icache_axioms]]) simp
qed

end
