(* ===== verification/Execute_Routes.thy ===== *)
theory Execute_Routes
  imports Host_Dispatcher Execution_Registry Subscription_Registry Retry_Executor Auth_Routes
begin

text \<open>
  apps/gateway-app/src/execute/routes.ts: \<open>POST /api/v1/execute\<close>, which streams the events of an
  execution to its initiator and broadcasts them to the subscribed observers, and
  \<open>POST /api/v1/execute/:executionId/cancel\<close>. The execute handler is modelled in its two halves
  around the one long wait: \<open>execute_start\<close> up to the dispatch, and \<open>execute_finish\<close> from the result
  and effects of \<open>executeWithRetry\<close> on; between them anything may happen to the shared registries.
\<close>

section \<open>The shared state of the process\<close>

record gateway_state =
  gs_disp :: dispatcher
  gs_exec :: exec_registry
  gs_subs :: sub_registry

section \<open>POST /api/v1/execute\<close>

definition parse_execute_request :: "jval \<Rightarrow> execute_request option" where
  "parse_execute_request body =
     (case (as_string (js_member body ''pluginId''), as_string (js_member body ''handlerRef''),
            optional_string (js_member body ''exportName''),
            (case js_member body ''timeoutMs'' of
               JUndef \<Rightarrow> Some None | JNum n \<Rightarrow> if 0 < n then Some (Some n) else None | _ \<Rightarrow> None)) of
        (Some p, Some h, Some x, Some t) \<Rightarrow>
          Some \<lparr>er_pluginId = p, er_handlerRef = h, er_exportName = x,
                er_input = js_member body ''input'', er_timeoutMs = t\<rparr>
      | _ \<Rightarrow> None)"

datatype execute_reply =
    XR_unauthorized
  | XR_bad_request
  | XR_no_host
  | XR_streaming nat string
      \<comment> \<open>the signal (controller) of the execution and the host chosen for it\<close>

definition execute_start ::
  "auth_context option \<Rightarrow> jval \<Rightarrow> string \<Rightarrow> string \<Rightarrow> int \<Rightarrow> gateway_state \<Rightarrow> execute_reply \<times> gateway_state" where
  "execute_start auth body executionId requestId now g =
     (case auth of
        None \<Rightarrow> (XR_unauthorized, g)
      | Some ctx \<Rightarrow>
          (case parse_execute_request body of
             None \<Rightarrow> (XR_bad_request, g)
           | Some req \<Rightarrow>
               (case Option.bind (ac_namespaceId ctx)
                       (\<lambda>ns. firstHostWithCapability ns ''execution'' (gs_disp g)) of
                  None \<Rightarrow> (XR_no_host, g)
                | Some hostId \<Rightarrow>
                    if hostId = [] then (XR_no_host, g)
                    else let (signal, x) = exec_register executionId requestId
                               (the (ac_namespaceId ctx)) hostId (er_pluginId req) (er_handlerRef req) now
                               (gs_exec g)
                         in (XR_streaming signal hostId, g\<lparr>gs_exec := x\<rparr>))))"

text \<open>The dispatch of an attempt: one call to the host chosen, with the request as its only argument.\<close>

definition execute_payload :: "execute_request \<Rightarrow> string \<Rightarrow> string \<Rightarrow> jval" where
  "execute_payload req executionId requestId =
     JObj [(''pluginId'', JStr (er_pluginId req)), (''handlerRef'', JStr (er_handlerRef req)),
       (''exportName'', case er_exportName req of None \<Rightarrow> JUndef | Some x \<Rightarrow> JStr x),
       (''input'', er_input req), (''executionId'', JStr executionId), (''requestId'', JStr requestId),
       (''timeoutMs'', case er_timeoutMs req of None \<Rightarrow> JUndef | Some t \<Rightarrow> JNum t)]"

definition execute_dispatch ::
  "string \<Rightarrow> string \<Rightarrow> execute_request \<Rightarrow> string \<Rightarrow> string \<Rightarrow> string \<Rightarrow> trace_context \<Rightarrow> string option \<Rightarrow>
     dispatcher \<Rightarrow> (string + string) \<times> dispatcher" where
  "execute_dispatch namespaceId hostId req executionId requestId callId trace send_throws d =
     dispatcher_call namespaceId hostId ''execution'' ''execute'' [execute_payload req executionId requestId]
       callId trace send_throws d"

text \<open>The events written after \<open>executeWithRetry\<close> has settled; \<open>err.reason ?? 'user'\<close> is always set.\<close>

definition final_events :: "string \<Rightarrow> string \<Rightarrow> int \<Rightarrow> jval retry_result \<Rightarrow> execution_event list" where
  "final_events requestId executionId durationMs result =
     (case result of
        R_value v \<Rightarrow> [E_done requestId executionId 0 durationMs (Some v)]
      | R_throws err \<Rightarrow>
          (case err of
             Th_cancelled reason \<Rightarrow>
               [E_cancelled requestId executionId reason durationMs,
                E_done requestId executionId 130 durationMs None]
           | Th_error message \<Rightarrow>
               [E_error requestId executionId ''EXECUTION_FAILED'' message False,
                E_done requestId executionId 1 durationMs None]
           | Th_value v \<Rightarrow>
               (case js_String v of
                  None \<Rightarrow> []
                | Some message \<Rightarrow>
                    [E_error requestId executionId ''EXECUTION_FAILED'' message False,
                     E_done requestId executionId 1 durationMs None]))
      | R_hangs \<Rightarrow> [])"

text \<open>\<open>writeEvent\<close>: the initiator's stream first, then the observers subscribed at that moment.\<close>

definition writeEvent ::
  "(nat \<Rightarrow> bool) \<Rightarrow> string \<Rightarrow> execution_event \<Rightarrow> sub_registry \<Rightarrow>
     execution_event list \<times> (nat \<times> execution_event) list" where
  "writeEvent is_open executionId event subs = ([event], broadcast is_open executionId event subs)"

definition write_all ::
  "(nat \<Rightarrow> bool) \<Rightarrow> string \<Rightarrow> execution_event list \<Rightarrow> sub_registry \<Rightarrow>
     execution_event list \<times> (nat \<times> execution_event) list" where
  "write_all is_open executionId events subs =
     (concat (map (\<lambda>e. fst (writeEvent is_open executionId e subs)) events),
      concat (map (\<lambda>e. snd (writeEvent is_open executionId e subs)) events))"

definition written :: "retry_effect list \<Rightarrow> execution_event list" where
  "written effs = List.map_filter (\<lambda>eff. case eff of Eff_write e \<Rightarrow> Some e | _ \<Rightarrow> None) effs"

text \<open>The whole stream of an execution whose retry loop has settled.\<close>

definition execution_stream ::
  "string \<Rightarrow> string \<Rightarrow> int \<Rightarrow> jval retry_result \<times> retry_effect list \<Rightarrow> execution_event list" where
  "execution_stream requestId executionId durationMs run =
     written (snd run) @ final_events requestId executionId durationMs (fst run)"

text \<open>The \<open>finally\<close> block removes the execution.\<close>

definition execute_finish ::
  "(nat \<Rightarrow> bool) \<Rightarrow> string \<Rightarrow> string \<Rightarrow> int \<Rightarrow> jval retry_result \<Rightarrow> gateway_state \<Rightarrow>
     (execution_event list \<times> (nat \<times> execution_event) list) \<times> gateway_state" where
  "execute_finish is_open requestId executionId durationMs result g =
     (write_all is_open executionId (final_events requestId executionId durationMs result) (gs_subs g),
      (if result = R_hangs then g else g\<lparr>gs_exec := exec_remove executionId (gs_exec g)\<rparr>))"

text \<open>\<open>reply.raw.on('close')\<close> before the response has finished.\<close>

definition client_gone :: "string \<Rightarrow> gateway_state \<Rightarrow> gateway_state" where
  "client_gone executionId g = g\<lparr>gs_exec := snd (exec_cancel executionId ''disconnect'' (gs_exec g))\<rparr>"

section \<open>POST /api/v1/execute/:executionId/cancel\<close>

datatype cancel_reply =
    CR_unauthorized
  | CR_not_found
  | CR_forbidden
  | CR_cancelled string
  | CR_already string

definition cancel_route ::
  "auth_context option \<Rightarrow> string \<Rightarrow> string option \<Rightarrow> exec_registry \<Rightarrow> cancel_reply \<times> exec_registry" where
  "cancel_route auth executionId bodyReason x =
     (case auth of
        None \<Rightarrow> (CR_unauthorized, x)
      | Some ctx \<Rightarrow>
          let reason = or_else bodyReason ''user''
          in case exec_get executionId x of
               None \<Rightarrow> (CR_not_found, x)
             | Some execution \<Rightarrow>
                 if Some (ae_namespaceId execution) \<noteq> ac_namespaceId ctx then (CR_forbidden, x)
                 else case exec_cancel executionId reason x of
                        (True, x1) \<Rightarrow> (CR_cancelled reason, x1)
                      | (False, x1) \<Rightarrow> (CR_already reason, x1))"

section \<open>Properties\<close>

lemma written_append [simp]: "written (a @ b) = written a @ written b"
  by (simp add: written_def List.map_filter_def)

lemma retry_events_only:
  "\<forall>e\<in>set (written (snd (executeWithRetry config env rid eid))).
     \<exists>a m d msg. e = E_retry rid eid a m d msg"
proof -
  obtain k where "snd (executeWithRetry config env rid eid) =
      concat (map (attempt_effects (merge_config config) env rid eid) [1..<Suc k])"
    using executeWithRetry_decided [of config env rid eid] by (metis snd_conv)
  then show ?thesis
    by (auto simp: written_def List.map_filter_def attempt_effects_def retry_event_def
        split: option.splits if_splits retry_effect.splits)
qed

lemma outcome_throws: "outcome_of cfg env k = R_throws err \<Longrightarrow> \<exists>s. err = Th_cancelled s \<or> err = Th_error s"
  by (auto simp: outcome_of_def to_primitive_error_def split: option.splits race.splits thrown.splits)

lemma retry_throws:
  "fst (executeWithRetry config env rid eid) = R_throws err \<Longrightarrow> \<exists>s. err = Th_cancelled s \<or> err = Th_error s"
  using executeWithRetry_decided [of config env rid eid] outcome_throws by (metis fst_conv)

text \<open>
  C20: the shape of every execution stream. Whatever the dispatch does, a stream that ends consists of
  retry events of this execution followed by its outcome: a done event with exit code 0 and the
  result, or one error event and a done event with exit code 1, or one cancelled event and a done
  event with exit code 130; done is the last event and the only one, and the exit code says how
  \<open>executeWithRetry\<close> settled. Only an execution whose dispatch hangs has no end.
\<close>

theorem stream_ends_with_done:
  "let run = executeWithRetry config env rid eid;
       retries = written (snd run);
       stream = execution_stream rid eid dur run
   in list_all (\<lambda>e. case e of E_retry r x _ _ _ _ \<Rightarrow> r = rid \<and> x = eid | _ \<Rightarrow> False) retries \<and>
      (case fst run of
         R_hangs \<Rightarrow> stream = retries
       | R_value v \<Rightarrow> stream = retries @ [E_done rid eid 0 dur (Some v)]
       | R_throws (Th_cancelled reason) \<Rightarrow>
           stream = retries @ [E_cancelled rid eid reason dur, E_done rid eid 130 dur None]
       | R_throws (Th_error msg) \<Rightarrow>
           stream = retries @ [E_error rid eid ''EXECUTION_FAILED'' msg False, E_done rid eid 1 dur None]
       | R_throws (Th_value v) \<Rightarrow> False)"
proof -
  have "list_all (\<lambda>e. case e of E_retry r x _ _ _ _ \<Rightarrow> r = rid \<and> x = eid | _ \<Rightarrow> False)
      (written (snd (executeWithRetry config env rid eid)))"
    using retry_events_only [of config env rid eid] by (fastforce simp: list_all_iff)
  then show ?thesis
    using retry_throws [of config env rid eid]
    by (auto simp: Let_def execution_stream_def final_events_def split: retry_result.splits thrown.splits)
qed

text \<open>
  What starting an execution does. The request is refused (401, 400, 503) and nothing changes, or
  a stream starts: then the host chosen is connected in the caller's namespace and registered for the
  execution capability there, and the only change is a new registry entry for it, under the caller's
  namespace, with a signal that is not aborted.
\<close>

theorem execute_start_effect:
  assumes "disp_reachable ok (gs_disp g)" "exec_ok (gs_exec g)"
  shows "case execute_start auth body eid rid now g of
      (XR_streaming signal hostId, g') \<Rightarrow>
        (\<exists>ctx ns. auth = Some ctx \<and> ac_namespaceId ctx = Some ns \<and>
           hostId \<in> set (capable (gs_disp g) ns ''execution'') \<and> socket_of (gs_disp g) ns hostId \<noteq> None \<and>
           (\<exists>e. exec_get eid (gs_exec g') = Some e \<and> ae_namespaceId e = ns \<and> ae_hostId e = hostId \<and>
              ae_controller e = signal \<and> live_on (gs_exec g') hostId eid)) \<and>
        (\<forall>i. i \<noteq> eid \<longrightarrow> exec_get i (gs_exec g') = exec_get i (gs_exec g)) \<and>
        gs_disp g' = gs_disp g \<and> gs_subs g' = gs_subs g
    | (_, g') \<Rightarrow> g' = g"
proof -
  have route: "h \<in> set (capable (gs_disp g) ns ''execution'') \<and> socket_of (gs_disp g) ns h \<noteq> None"
    if "firstHostWithCapability ns ''execution'' (gs_disp g) = Some h" for ns h
    using that disp_reachable_ok [OF assms(1)]
    by (auto simp: firstHostWithCapability_find index_ok_def find_Some_iff in_set_conv_nth)
  show ?thesis
    using route exec_ok_unaborted [OF assms(2)]
    by (auto simp: execute_start_def exec_get_def register_get register_reason [OF assms(2)] live_on_def
        bind_eq_Some_conv case_prod_unfold Let_def split: option.splits)
      (auto simp: exec_register_def Let_def)
qed

definition sample_gateway :: gateway_state where
  "sample_gateway = \<lparr>gs_disp = registerConnection ''h'' ''n'' 7 [''execution''] init_dispatcher,
     gs_exec = init_exec_registry, gs_subs = init_sub_registry\<rparr>"

definition sample_auth :: auth_context where
  "sample_auth = \<lparr>ac_type = Some ''machine'', ac_userId = Some ''u'', ac_namespaceId = Some ''n'',
     ac_tier = Some ''free'', ac_permissions = [''host:connect'']\<rparr>"

definition sample_body :: jval where
  "sample_body = JObj [(''pluginId'', JStr ''p''), (''handlerRef'', JStr ''f'')]"

lemma sample_reachable: "disp_reachable (\<lambda>_. True) (gs_disp sample_gateway)"
  by (simp add: sample_gateway_def)
    (rule disp_reachable.step [OF disp_reachable.start disp_step.register])

lemma sample_exec_ok: "exec_ok (gs_exec sample_gateway)"
  by (simp add: sample_gateway_def exec_ok_init)

lemma sample_start: "fst (execute_start (Some sample_auth) sample_body ''e'' ''r'' 0 sample_gateway) = XR_streaming 0 ''h''"
  by code_simp

lemma execute_start_effect_witness:
  "\<exists>e. exec_get ''e'' (gs_exec (snd (execute_start (Some sample_auth) sample_body ''e'' ''r'' 0 sample_gateway))) = Some e \<and>
     ae_hostId e = ''h'' \<and> ae_controller e = 0"
  using execute_start_effect [OF sample_reachable sample_exec_ok, where auth = "Some sample_auth" and
      body = sample_body and eid = "''e''" and rid = "''r''" and now = 0]
    sample_start by (auto split: prod.splits)

text \<open>
  Cancelling over HTTP. The route never touches an execution of another namespace (403) or one
  that is not running (404); it answers 200 exactly when this request is the one that aborts the
  execution, with the reason given or ``user'', and 409 when it was aborted before; any answer but
  200 leaves the registry as it was, and after a 200 the same request gets 409.
\<close>

theorem cancel_route_effect:
  assumes "exec_ok x" and "ac_namespaceId ctx = Some ns"
  shows "case cancel_route (Some ctx) eid rs x of
      (CR_cancelled reason, x') \<Rightarrow>
        reason = or_else rs ''user'' \<and>
        (\<exists>e. exec_get eid x = Some e \<and> ae_namespaceId e = ns \<and>
           abort_reason x (ae_controller e) = None \<and> abort_reason x' (ae_controller e) = Some reason \<and>
           (\<forall>i e'. exec_get i x = Some e' \<and> i \<noteq> eid \<longrightarrow>
              exec_get i x' = Some e' \<and> abort_reason x' (ae_controller e') = abort_reason x (ae_controller e'))) \<and>
        cancel_route (Some ctx) eid rs x' = (CR_already reason, x')
    | (CR_already reason, x') \<Rightarrow> x' = x \<and>
        (\<exists>e. exec_get eid x = Some e \<and> ae_namespaceId e = ns \<and> abort_reason x (ae_controller e) \<noteq> None)
    | (CR_forbidden, x') \<Rightarrow> x' = x \<and> (\<exists>e. exec_get eid x = Some e \<and> ae_namespaceId e \<noteq> ns)
    | (CR_not_found, x') \<Rightarrow> x' = x \<and> exec_get eid x = None
    | (CR_unauthorized, x') \<Rightarrow> False"
proof (cases "exec_get eid x")
  case None
  then show ?thesis by (simp add: cancel_route_def)
next
  case (Some e)
  then have e: "jm_get (xr_executions x) eid = Some e" by (simp add: exec_get_def)
  have id: "ae_executionId e = eid" using exec_okD(1) [OF assms(1) e] .
  have other: "ae_controller e' \<noteq> ae_controller e" if "jm_get (xr_executions x) i = Some e'" "i \<noteq> eid" for i e'
    using exec_okD(4) [OF assms(1) e that(1)] that(2) by metis
  show ?thesis
  proof (cases "ae_namespaceId e = ns \<and> abort_reason x (ae_controller e) = None")
    case True
    let ?x = "abort_entry e (or_else rs ''user'') x"
    have c: "cancel_route (Some ctx) eid rs x = (CR_cancelled (or_else rs ''user''), ?x)"
      using True e assms(2) by (simp add: cancel_route_def exec_get_def exec_cancel_def Let_def)
    have "cancel_route (Some ctx) eid rs ?x = (CR_already (or_else rs ''user''), ?x)"
      using True id assms(2) by (simp add: cancel_route_def exec_get_def exec_cancel_def Let_def)
    with c True e id other show ?thesis by (auto simp: exec_get_def)
  next
    case False
    with e assms(2) show ?thesis by (auto simp: cancel_route_def exec_get_def exec_cancel_def Let_def)
  qed
qed

lemma cancel_route_effect_witness:
  "fst (cancel_route (Some sample_auth) ''e'' None
     (gs_exec (snd (execute_start (Some sample_auth) sample_body ''e'' ''r'' 0 sample_gateway)))) =
   CR_cancelled ''user''"
  (is "fst (cancel_route _ _ _ ?x) = _")
proof -
  have "exec_ok ?x"
    by (simp add: execute_start_def sample_auth_def case_prod_unfold Let_def sample_exec_ok exec_ok_register
        split: option.split)
  moreover have "ac_namespaceId sample_auth = Some ''n''" by (simp add: sample_auth_def)
  moreover have "fst (cancel_route (Some sample_auth) ''e'' None ?x) \<in> {CR_cancelled ''user''}" by code_simp
  ultimately show ?thesis
    using cancel_route_effect [where x = ?x and ctx = sample_auth and ns = "''n''" and eid = "''e''" and rs = None] by (auto split: prod.splits)
qed

end
