(* ===== verification/Client_Ws.thy ===== *)
theory Client_Ws
  imports Execute_Routes
begin

text \<open>
  apps/gateway-app/src/clients/ws-handler.ts: the WebSocket of an observer client. The handshake
  authenticates the upgrade request and waits for \<open>client:hello\<close>; after it, every message either
  subscribes, unsubscribes or cancels, or is answered with an error. A message is the result of
  \<open>JSON.parse\<close> (\<open>None\<close> when that throws); an exception that leaves the listener is \<open>Inl\<close>. The
  test for UUIDs is zod's, a parameter \<open>is_uuid\<close>.
\<close>

section \<open>Handshake\<close>

datatype ws_outcome = WS_closed string | WS_connected auth_context

datatype hello_event = Hello_timeout | Hello_message "jval option"

text \<open>\<open>ClientHelloSchema\<close>\<close>

definition valid_client_hello :: "jval option \<Rightarrow> bool" where
  "valid_client_hello raw =
     (case raw of
        None \<Rightarrow> False
      | Some msg \<Rightarrow> js_member msg ''type'' = JStr ''client:hello'' \<and>
                    as_string (js_member msg ''clientVersion'') \<noteq> None)"

definition client_handshake ::
  "'c cache_ops \<Rightarrow> jose \<Rightarrow> string \<Rightarrow> int \<Rightarrow> http_request \<Rightarrow> 'c \<Rightarrow> hello_event \<Rightarrow> ws_outcome" where
  "client_handshake C J secret ms q c hello =
     (case request_token q of
        None \<Rightarrow> WS_closed ''Missing Authorization''
      | Some token \<Rightarrow>
          if token = [] then WS_closed ''Missing Authorization''
          else case auth_resolveToken C J secret ms token c of
            None \<Rightarrow> WS_closed ''Invalid token''
          | Some ctx \<Rightarrow>
              (case hello of
                 Hello_timeout \<Rightarrow> WS_closed ''Hello timeout''
               | Hello_message raw \<Rightarrow>
                   if valid_client_hello raw then WS_connected ctx else WS_closed ''Invalid hello message''))"

text \<open>After the handshake: the socket is registered and \<open>client:connected\<close> is sent.\<close>

definition client_connected :: "string \<Rightarrow> nat \<Rightarrow> gateway_state \<Rightarrow> client_outbound list \<times> gateway_state" where
  "client_connected connectionId socket g =
     ([C_connected CLIENT_PROTOCOL_VERSION connectionId],
      g\<lparr>gs_subs := registerSocket connectionId socket (gs_subs g)\<rparr>)"

section \<open>Messages\<close>

definition parse_execution_id :: "(string \<Rightarrow> bool) \<Rightarrow> jval \<Rightarrow> string option" where
  "parse_execution_id is_uuid msg =
     (case as_string (js_member msg ''executionId'') of
        None \<Rightarrow> None | Some i \<Rightarrow> if is_uuid i then Some i else None)"

text \<open>\<open>ClientCancelSchema\<close>: the reason is absent, ``user'' or ``timeout''.\<close>

definition parse_cancel :: "(string \<Rightarrow> bool) \<Rightarrow> jval \<Rightarrow> (string \<times> string option) option" where
  "parse_cancel is_uuid msg =
     (case parse_execution_id is_uuid msg of
        None \<Rightarrow> None
      | Some i \<Rightarrow>
          (case js_member msg ''reason'' of
             JUndef \<Rightarrow> Some (i, None)
           | JStr r \<Rightarrow> if r = ''user'' \<or> r = ''timeout'' then Some (i, Some r) else None
           | _ \<Rightarrow> None))"

definition not_found :: "string \<Rightarrow> client_outbound" where
  "not_found i = C_error EXECUTION_NOT_FOUND (''Execution '' @ i @ '' not found'') (Some i)"

definition forbidden :: "string \<Rightarrow> client_outbound" where
  "forbidden i = C_error FORBIDDEN ''Execution belongs to another namespace'' (Some i)"

definition client_subscribe ::
  "(string \<Rightarrow> bool) \<Rightarrow> string option \<Rightarrow> string \<Rightarrow> jval \<Rightarrow> gateway_state \<Rightarrow> client_outbound list \<times> gateway_state" where
  "client_subscribe is_uuid ns connectionId msg g =
     (case parse_execution_id is_uuid msg of
        None \<Rightarrow> ([C_error INVALID_MESSAGE ''Invalid subscribe message'' None], g)
      | Some i \<Rightarrow>
          (case exec_get i (gs_exec g) of
             None \<Rightarrow> ([not_found i], g)
           | Some execution \<Rightarrow>
               if Some (ae_namespaceId execution) \<noteq> ns then ([forbidden i], g)
               else ([], g\<lparr>gs_subs := subscribe connectionId i (gs_subs g)\<rparr>)))"

definition client_unsubscribe ::
  "(string \<Rightarrow> bool) \<Rightarrow> string \<Rightarrow> jval \<Rightarrow> gateway_state \<Rightarrow> client_outbound list \<times> gateway_state" where
  "client_unsubscribe is_uuid connectionId msg g =
     (case parse_execution_id is_uuid msg of
        None \<Rightarrow> ([C_error INVALID_MESSAGE ''Invalid unsubscribe message'' None], g)
      | Some i \<Rightarrow> ([], g\<lparr>gs_subs := unsubscribe connectionId i (gs_subs g)\<rparr>))"

definition client_cancel ::
  "(string \<Rightarrow> bool) \<Rightarrow> string option \<Rightarrow> jval \<Rightarrow> gateway_state \<Rightarrow> client_outbound list \<times> gateway_state" where
  "client_cancel is_uuid ns msg g =
     (case parse_cancel is_uuid msg of
        None \<Rightarrow> ([C_error INVALID_MESSAGE ''Invalid cancel message'' None], g)
      | Some (i, reason) \<Rightarrow>
          (case exec_get i (gs_exec g) of
             None \<Rightarrow> ([not_found i], g)
           | Some execution \<Rightarrow>
               if Some (ae_namespaceId execution) \<noteq> ns then ([forbidden i], g)
               else case exec_cancel i (or_else reason ''user'') (gs_exec g) of
                 (True, x) \<Rightarrow> ([], g\<lparr>gs_exec := x\<rparr>)
               | (False, x) \<Rightarrow>
                   ([C_error CANCEL_FAILED ''Execution already completed or cancelled'' (Some i)],
                    g\<lparr>gs_exec := x\<rparr>)))"

text \<open>
  The listener. Reading \<open>type\<close> of \<open>null\<close> throws, and so does printing a type that has its own
  \<open>toString\<close>; only \<open>JSON.parse\<close> is inside a \<open>try\<close>.
\<close>

definition client_message ::
  "(string \<Rightarrow> bool) \<Rightarrow> string option \<Rightarrow> string \<Rightarrow> jval option \<Rightarrow> gateway_state \<Rightarrow>
     string + client_outbound list \<times> gateway_state" where
  "client_message is_uuid ns connectionId raw g =
     (case raw of
        None \<Rightarrow> Inr ([C_error INVALID_MESSAGE ''Malformed JSON'' None], g)
      | Some msg \<Rightarrow>
          if msg = JNull then Inl ''TypeError''
          else (let ty = js_member msg ''type''
           in if ty = JStr ''client:subscribe'' then Inr (client_subscribe is_uuid ns connectionId msg g)
              else if ty = JStr ''client:unsubscribe'' then Inr (client_unsubscribe is_uuid connectionId msg g)
              else if ty = JStr ''client:cancel'' then Inr (client_cancel is_uuid ns msg g)
              else case js_String ty of
                None \<Rightarrow> Inl ''TypeError''
              | Some s \<Rightarrow> Inr ([C_error INVALID_MESSAGE (''Unknown message type: '' @ s) None], g)))"

definition client_closed :: "string \<Rightarrow> gateway_state \<Rightarrow> gateway_state" where
  "client_closed connectionId g = g\<lparr>gs_subs := snd (sub_removeConnection connectionId (gs_subs g))\<rparr>"

lemma client_message_object:
  "msg \<noteq> JNull \<Longrightarrow> client_message is_uuid ns conn (Some msg) g =
     (let ty = js_member msg ''type''
      in if ty = JStr ''client:subscribe'' then Inr (client_subscribe is_uuid ns conn msg g)
         else if ty = JStr ''client:unsubscribe'' then Inr (client_unsubscribe is_uuid conn msg g)
         else if ty = JStr ''client:cancel'' then Inr (client_cancel is_uuid ns msg g)
         else case js_String ty of
           None \<Rightarrow> Inl ''TypeError''
         | Some s \<Rightarrow> Inr ([C_error INVALID_MESSAGE (''Unknown message type: '' @ s) None], g))"
  by (simp add: client_message_def)

lemma client_message_cases:
  assumes "client_message is_uuid ns conn raw g = Inr (out, g')"
  shows "g' = g \<or> (\<exists>msg. client_subscribe is_uuid ns conn msg g = (out, g') \<or>
    client_unsubscribe is_uuid conn msg g = (out, g') \<or> client_cancel is_uuid ns msg g = (out, g'))"
proof (cases raw)
  case None
  with assms show ?thesis by (simp add: client_message_def)
next
  case (Some msg)
  with assms have "msg \<noteq> JNull" by (auto simp: client_message_def)
  with assms Some show ?thesis
    by (auto simp: client_message_object Let_def split: if_splits option.splits)
qed

lemma client_cancel_cases:
  assumes "client_cancel is_uuid ns msg g = (out, g')"
  shows "g' = g \<or> (\<exists>j r e. parse_cancel is_uuid msg = Some (j, r) \<and> exec_get j (gs_exec g) = Some e \<and>
    Some (ae_namespaceId e) = ns \<and> g' = g\<lparr>gs_exec := abort_entry e (or_else r ''user'') (gs_exec g)\<rparr>)"
proof (cases "parse_cancel is_uuid msg")
  case None
  with assms show ?thesis by (simp add: client_cancel_def)
next
  case (Some p)
  then obtain j r where p: "parse_cancel is_uuid msg = Some (j, r)" by (cases p) auto
  show ?thesis
  proof (cases "exec_get j (gs_exec g)")
    case None
    with assms p show ?thesis by (simp add: client_cancel_def)
  next
    case (Some e)
    then show ?thesis
      using assms p
      by (cases "Some (ae_namespaceId e) = ns"; cases "abort_reason (gs_exec g) (ae_controller e)")
        (simp_all add: client_cancel_def exec_cancel_def exec_get_def)
  qed
qed

section \<open>Properties\<close>

text \<open>
  An observer cannot cross namespaces. A message of a client leaves the dispatcher and all
  entries and subscriptions of other connections alone; it subscribes the client only to an execution
  that is running in the client's own namespace, and aborts only such an execution, with reason
  ``user'' or ``timeout''; without a namespace (a refresh token) it can do neither.
\<close>

theorem client_stays_in_namespace:
  assumes "exec_ok (gs_exec g)" "sub_ok (gs_subs g)"
    and "client_message is_uuid ns conn raw g = Inr (out, g')"
  shows "gs_disp g' = gs_disp g \<and>
    (conn' \<noteq> conn \<longrightarrow> (conn' \<in> set (getSubscribers i (gs_subs g')) \<longleftrightarrow> conn' \<in> set (getSubscribers i (gs_subs g)))) \<and>
    (conn \<in> set (getSubscribers i (gs_subs g')) \<and> conn \<notin> set (getSubscribers i (gs_subs g)) \<longrightarrow>
       (\<exists>e. exec_get i (gs_exec g) = Some e \<and> Some (ae_namespaceId e) = ns)) \<and>
    (\<forall>e. exec_get i (gs_exec g) = Some e \<longrightarrow>
       abort_reason (gs_exec g') (ae_controller e) \<noteq> abort_reason (gs_exec g) (ae_controller e) \<longrightarrow>
       Some (ae_namespaceId e) = ns \<and>
       abort_reason (gs_exec g') (ae_controller e) \<in> {Some ''user'', Some ''timeout''})"
proof -
  have sub: ?thesis if "client_subscribe is_uuid ns conn msg g = (out, g')" for msg
    using that by (auto simp: client_subscribe_def gw_simps split: option.splits if_splits)
  have unsub: ?thesis if "client_unsubscribe is_uuid conn msg g = (out, g')" for msg
    using that by (auto simp: client_unsubscribe_def gw_simps split: option.splits if_splits)
  have cancel: ?thesis if c: "client_cancel is_uuid ns msg g = (out, g')" for msg
  proof -
    have reason: "or_else r ''user'' \<in> {''user'', ''timeout''}" if "parse_cancel is_uuid msg = Some (j, r)" for j r
      using that by (auto simp: parse_cancel_def split: option.splits jval.splits if_splits)
    from client_cancel_cases [OF c] show ?thesis
    proof
      assume "\<exists>j r e. parse_cancel is_uuid msg = Some (j, r) \<and> exec_get j (gs_exec g) = Some e \<and>
        Some (ae_namespaceId e) = ns \<and> g' = g\<lparr>gs_exec := abort_entry e (or_else r ''user'') (gs_exec g)\<rparr>"
      then obtain j r e2 where j: "parse_cancel is_uuid msg = Some (j, r)"
        "exec_get j (gs_exec g) = Some e2" "Some (ae_namespaceId e2) = ns"
        and g': "g' = g\<lparr>gs_exec := abort_entry e2 (or_else r ''user'') (gs_exec g)\<rparr>" by blast
      have "i = j" if "exec_get i (gs_exec g) = Some e" "ae_controller e = ae_controller e2" for e
        using exec_okD(4) [OF assms(1)] that j(2) unfolding exec_get_def by blast
      with j reason [OF j(1)] show ?thesis by (auto simp: g')
    qed simp
  qed
  have same: ?thesis if "g' = g" using that by auto
  from client_message_cases [OF assms(3)] show ?thesis
    by (elim disjE exE) (erule same sub unsub cancel)+
qed

definition sample_uuid :: "string \<Rightarrow> bool" where
  "sample_uuid s = (s = ''e'')"

definition sample_running :: gateway_state where
  "sample_running = snd (execute_start (Some sample_auth) sample_body ''e'' ''r'' 0 sample_gateway)"

lemma sample_running_ok: "exec_ok (gs_exec sample_running)" "sub_ok (gs_subs sample_running)"
  by (simp_all add: sample_running_def execute_start_def sample_auth_def case_prod_unfold Let_def
      exec_ok_init exec_ok_register sample_gateway_def sub_ok_init split: option.split)

lemma client_stays_in_namespace_witness:
  "case client_message sample_uuid (Some ''other'') ''c'' (Some (JObj [(''type'', JStr ''client:subscribe''),
      (''executionId'', JStr ''e'')])) sample_running of
    Inl _ \<Rightarrow> False
  | Inr (out, g') \<Rightarrow> ''c'' \<notin> set (getSubscribers ''e'' (gs_subs g'))"
proof -
  let ?m = "Some (JObj [(''type'', JStr ''client:subscribe''), (''executionId'', JStr ''e'')])"
  have "map_option ae_namespaceId (exec_get ''e'' (gs_exec sample_running)) = Some ''n''"
    "getSubscribers ''e'' (gs_subs sample_running) = []" by code_simp+
  moreover obtain out g' where m: "client_message sample_uuid (Some ''other'') ''c'' ?m sample_running = Inr (out, g')"
    by (simp add: client_message_def) (metis surj_pair)
  ultimately show ?thesis
    using client_stays_in_namespace [OF sample_running_ok m, of "[]" "''e''"] by auto
qed

text \<open>
  A client can crash the listener. The message handler throws exactly on the JSON text
  \<open>null\<close> and on an unknown type that cannot be printed; every other message, malformed JSON
  included, is handled or answered. Nothing catches the exception.
\<close>

theorem client_message_throws_iff:
  "(\<exists>err. client_message is_uuid ns conn raw g = Inl err) \<longleftrightarrow>
     (\<exists>msg. raw = Some msg \<and> (msg = JNull \<or> js_String (js_member msg ''type'') = None))"
proof -
  have "js_String (JStr s) \<noteq> None" for s by simp
  then show ?thesis
    by (auto simp: client_message_def Let_def split: option.splits jval.splits if_splits)
qed

end
