(* ===== verification/Trace_Context.thy ===== *)
theory Trace_Context
  imports Gateway_Contracts
begin

text \<open>
  packages/gateway-core/src/trace/context.ts: trace contexts and their HTTP header form. Header
  values are strings or lists of strings, as Node delivers them; fresh span ids (\<open>randomUUID\<close>)
  are arguments.
\<close>

datatype header_value = HV_one string | HV_many "string list"

definition createRootTrace :: "string option \<Rightarrow> string \<Rightarrow> string \<Rightarrow> trace_context" where
  "createRootTrace traceId uuid1 uuid2 =
     \<lparr>tc_traceId = or_else traceId uuid1, tc_spanId = uuid2, tc_parentId = None\<rparr>"

definition createChildSpan :: "trace_context \<Rightarrow> string \<Rightarrow> trace_context" where
  "createChildSpan parent uuid =
     \<lparr>tc_traceId = tc_traceId parent, tc_spanId = uuid, tc_parentId = Some (tc_spanId parent)\<rparr>"

definition traceToHeaders :: "trace_context \<Rightarrow> (string \<times> header_value) list" where
  "traceToHeaders trace =
     [(''x-trace-id'', HV_one (tc_traceId trace)), (''x-span-id'', HV_one (tc_spanId trace))] @
     (if truthy (tc_parentId trace)
      then [(''x-parent-id'', HV_one (the (tc_parentId trace)))] else [])"

definition asString :: "header_value option \<Rightarrow> string option" where
  "asString v = (case v of
       None \<Rightarrow> None
     | Some (HV_one s) \<Rightarrow> Some s
     | Some (HV_many []) \<Rightarrow> None
     | Some (HV_many (s # _)) \<Rightarrow> Some s)"

definition traceFromHeaders :: "(string \<times> header_value) list \<Rightarrow> trace_context option" where
  "traceFromHeaders headers =
     (let traceId = asString (map_of headers ''x-trace-id'');
          spanId = asString (map_of headers ''x-span-id'')
      in if \<not> truthy traceId \<or> \<not> truthy spanId then None
         else Some \<lparr>tc_traceId = the traceId, tc_spanId = the spanId,
                    tc_parentId = asString (map_of headers ''x-parent-id'')\<rparr>)"

text \<open>What survives the headers: an empty parent id is dropped.\<close>

definition normal_trace :: "trace_context \<Rightarrow> trace_context" where
  "normal_trace t = t\<lparr>tc_parentId := (if truthy (tc_parentId t) then tc_parentId t else None)\<rparr>"

lemma headers_lookup [gw_simps]:
  "map_of (traceToHeaders t) ''x-trace-id'' = Some (HV_one (tc_traceId t))"
  "map_of (traceToHeaders t) ''x-span-id'' = Some (HV_one (tc_spanId t))"
  "map_of (traceToHeaders t) ''x-parent-id'' =
     (if truthy (tc_parentId t) then Some (HV_one (the (tc_parentId t))) else None)"
  by (simp_all add: traceToHeaders_def)

text \<open>
  Headers written by \<open>traceToHeaders\<close> read back as the same context exactly when its two ids
  are not empty, up to an empty parent id.
\<close>

theorem trace_headers_roundtrip:
  "traceFromHeaders (traceToHeaders t) =
     (if tc_traceId t = [] \<or> tc_spanId t = [] then None else Some (normal_trace t))"
  by (cases t) (auto simp: traceFromHeaders_def gw_simps asString_def normal_trace_def truthy_def
      split: option.splits)

lemma child_span_same_trace:
  "tc_traceId (createChildSpan p u) = tc_traceId p \<and>
   tc_parentId (createChildSpan p u) = Some (tc_spanId p)"
  by (simp add: createChildSpan_def)

end
