(* ===== verification/Message_Schemas.thy ===== *)
theory Message_Schemas
  imports Auth_Routes
begin

text \<open>
  The zod schemas of the messages and bodies that are validated at run time outside the auth routes,
  written as parsers of JSON values: the combinators (\<open>z.array\<close>, \<open>.optional()\<close>, \<open>z.enum\<close>,
  \<open>z.record\<close>) and the parsers of \<open>HelloMessageSchema\<close> and \<open>AdapterCallMessageSchema\<close>
  (packages/gateway-contracts/src/protocol.ts) and of \<open>HostRegistrationSchema\<close> (host.ts). A parser
  drops the members the schema does not name, as zod does.
\<close>

section \<open>Combinators\<close>

fun parse_all :: "('a \<Rightarrow> 'b option) \<Rightarrow> 'a list \<Rightarrow> 'b list option" where
  "parse_all p [] = Some []"
| "parse_all p (v # vs) =
     (case p v of
        None \<Rightarrow> None
      | Some x \<Rightarrow> (case parse_all p vs of None \<Rightarrow> None | Some xs \<Rightarrow> Some (x # xs)))"

text \<open>\<open>z.array(p)\<close>, \<open>p.optional()\<close>, \<open>z.record(p)\<close>\<close>

definition schema_array :: "(jval \<Rightarrow> 'b option) \<Rightarrow> jval \<Rightarrow> 'b list option" where
  "schema_array p v = (case v of JArr vs \<Rightarrow> parse_all p vs | _ \<Rightarrow> None)"

definition schema_optional :: "(jval \<Rightarrow> 'b option) \<Rightarrow> jval \<Rightarrow> 'b option option" where
  "schema_optional p v = (if v = JUndef then Some None else map_option Some (p v))"

definition schema_record :: "(jval \<Rightarrow> 'b option) \<Rightarrow> jval \<Rightarrow> (string \<times> 'b) list option" where
  "schema_record p v =
     (case v of JObj fs \<Rightarrow> parse_all (\<lambda>(k, x). map_option (Pair k) (p x)) fs | _ \<Rightarrow> None)"

definition as_object :: "jval \<Rightarrow> jval option" where
  "as_object v = (case v of JObj _ \<Rightarrow> Some v | _ \<Rightarrow> None)"

definition as_number :: "jval \<Rightarrow> int option" where
  "as_number v = (case v of JNum n \<Rightarrow> Some n | _ \<Rightarrow> None)"

definition as_bool :: "jval \<Rightarrow> bool option" where
  "as_bool v = (case v of JBool b \<Rightarrow> Some b | _ \<Rightarrow> None)"

definition positive_number :: "jval \<Rightarrow> int option" where
  "positive_number v = (case v of JNum n \<Rightarrow> if 0 < n then Some n else None | _ \<Rightarrow> None)"

lemma parse_all_Some:
  "parse_all p vs = Some xs \<longleftrightarrow> map p vs = map Some xs"
proof (induction vs arbitrary: xs)
  case Nil
  then show ?case by auto
next
  case (Cons v vs)
  show ?case by (cases xs) (auto simp: Cons.IH [symmetric] split: option.splits)
qed

lemma parse_all_None: "parse_all p vs = None \<longleftrightarrow> (\<exists>v\<in>set vs. p v = None)"
  by (induction vs) (auto split: option.splits)

lemma parse_all_map [simp]: "(\<And>x. x \<in> set xs \<Longrightarrow> p (f x) = Some x) \<Longrightarrow> parse_all p (map f xs) = Some xs"
  by (induction xs) auto

lemma schema_array_Some:
  "schema_array p v = Some xs \<longleftrightarrow> (\<exists>vs. v = JArr vs \<and> map p vs = map Some xs)"
  by (cases v) (auto simp: schema_array_def parse_all_Some)

lemmas schema_defs = schema_array_def schema_optional_def schema_record_def as_object_def as_number_def
  as_bool_def positive_number_def as_string_def

section \<open>Hosts\<close>

text \<open>\<open>HostCapabilitySchema\<close>, \<open>HostTypeSchema\<close> on JSON values\<close>

definition capability_value :: "jval \<Rightarrow> host_capability option" where
  "capability_value v = Option.bind (as_string v) parse_capability"

definition host_type_value :: "jval \<Rightarrow> host_type option" where
  "host_type_value v =
     (if v = JStr ''local'' then Some Local else if v = JStr ''cloud'' then Some Cloud else None)"

definition parse_workspace :: "jval \<Rightarrow> workspace_info option" where
  "parse_workspace v =
     (case (as_string (js_member v ''workspaceId''), schema_optional as_string (js_member v ''repoFingerprint''),
            schema_optional as_string (js_member v ''branch'')) of
        (Some w, Some f, Some b) \<Rightarrow> Some \<lparr>wi_workspaceId = w, wi_repoFingerprint = f, wi_branch = b\<rparr>
      | _ \<Rightarrow> None)"

definition parse_plugin :: "jval \<Rightarrow> plugin_info option" where
  "parse_plugin v =
     (case (as_string (js_member v ''id''), as_string (js_member v ''version'')) of
        (Some i, Some ver) \<Rightarrow> Some \<lparr>pi_id = i, pi_version = ver\<rparr>
      | _ \<Rightarrow> None)"

definition parse_hello :: "jval \<Rightarrow> hello_message option" where
  "parse_hello m =
     (if js_member m ''type'' \<noteq> JStr ''hello'' then None
      else case (as_string (js_member m ''protocolVersion''), as_string (js_member m ''agentVersion''),
             schema_optional as_string (js_member m ''hostId''),
             schema_optional (schema_array as_string) (js_member m ''capabilities''),
             schema_optional host_type_value (js_member m ''hostType''),
             schema_optional (schema_array parse_workspace) (js_member m ''workspaces''),
             schema_optional (schema_array parse_plugin) (js_member m ''plugins'')) of
        (Some pv, Some av, Some h, Some caps, Some ty, Some ws, Some ps) \<Rightarrow>
          Some \<lparr>hm_protocolVersion = pv, hm_agentVersion = av, hm_hostId = h, hm_capabilities = caps,
                hm_hostType = ty, hm_workspaces = ws, hm_plugins = ps\<rparr>
      | _ \<Rightarrow> None)"

definition parse_host_registration :: "jval \<Rightarrow> host_registration option" where
  "parse_host_registration v =
     (case (as_string (js_member v ''name''), as_string (js_member v ''namespaceId''),
            schema_array capability_value (js_member v ''capabilities''),
            schema_array as_string (js_member v ''workspacePaths''),
            schema_optional host_type_value (js_member v ''hostType'')) of
        (Some n, Some ns, Some caps, Some paths, Some ty) \<Rightarrow>
          Some \<lparr>hr_name = n, hr_namespaceId = ns, hr_capabilities = caps, hr_workspacePaths = paths,
                hr_hostType = ty\<rparr>
      | _ \<Rightarrow> None)"

section \<open>Adapter calls\<close>

definition parse_call_context :: "jval \<Rightarrow> adapter_call_context option" where
  "parse_call_context v =
     (case (as_string (js_member v ''namespaceId''), as_string (js_member v ''hostId''),
            schema_optional as_string (js_member v ''workspaceId''),
            schema_optional as_string (js_member v ''environmentId''),
            schema_optional as_string (js_member v ''executionRequestId'')) of
        (Some n, Some h, Some w, Some e, Some x) \<Rightarrow>
          Some \<lparr>cc_namespaceId = n, cc_hostId = h, cc_workspaceId = w, cc_environmentId = e,
                cc_executionRequestId = x\<rparr>
      | _ \<Rightarrow> None)"

definition adapter_value :: "jval \<Rightarrow> string option" where
  "adapter_value v =
     Option.bind (as_string v) (\<lambda>s. if parse_adapter s = None then None else Some s)"

definition parse_adapter_call :: "jval \<Rightarrow> adapter_call option" where
  "parse_adapter_call m =
     (if js_member m ''type'' \<noteq> JStr ''adapter:call'' then None
      else case (as_string (js_member m ''requestId''), adapter_value (js_member m ''adapter''),
             as_string (js_member m ''method''), schema_array Some (js_member m ''args''),
             schema_optional positive_number (js_member m ''timeout''),
             parse_call_context (js_member m ''context'')) of
        (Some r, Some a, Some f, Some args, Some t, Some ctx) \<Rightarrow>
          Some \<lparr>al_requestId = r, al_adapter = a, al_method = f, al_args = args, al_timeout = t,
                al_context = ctx\<rparr>
      | _ \<Rightarrow> None)"

lemma parse_adapter_call_adapter:
  "parse_adapter_call m = Some c \<Longrightarrow> parse_adapter (al_adapter c) \<noteq> None"
  by (auto simp: parse_adapter_call_def adapter_value_def bind_eq_Some_conv
      split: if_splits option.splits)

lemma parse_adapter_call_requestId:
  "parse_adapter_call m = Some c \<Longrightarrow> js_member m ''requestId'' = JStr (al_requestId c)"
  by (auto simp: parse_adapter_call_def as_string_def split: if_splits option.splits jval.splits)

end
