(* ===== verification/Host_Store.thy ===== *)
theory Host_Store
  imports Gateway_Contracts "HOL-Library.List_Lexorder" "HOL-Library.Char_ord"
begin

text \<open>
  The durable side of the host registry: the interface \<open>IHostStore\<close>
  (packages/gateway-contracts/src/host.ts) as a record of operations with the locale \<open>host_store\<close>
  of the laws the registry relies on, and \<open>SqliteHostStore\<close>
  (packages/gateway-core/src/stores/sqlite-host-store.ts), which is shown to satisfy them.

  The SQL database is a service: its two tables are lists of rows in insertion order, and each
  statement of the class is written out on them (\<open>ON CONFLICT\<close> updates in place, \<open>ORDER BY\<close> is a
  stable sort, text compares bytewise). A column holding the JSON text of a list is modelled by the
  list itself. \<open>None\<close> for a table means it has not been created yet.
\<close>

section \<open>The interface\<close>

record 's store_ops =
  s_save :: "host_descriptor \<Rightarrow> int \<Rightarrow> 's \<Rightarrow> 's"
  s_get :: "string \<Rightarrow> string \<Rightarrow> 's \<Rightarrow> host_descriptor option \<times> 's"
  s_list :: "string \<Rightarrow> 's \<Rightarrow> host_descriptor list \<times> 's"
  s_listAll :: "'s \<Rightarrow> host_descriptor list \<times> 's"
  s_delete :: "string \<Rightarrow> string \<Rightarrow> 's \<Rightarrow> bool \<times> 's"
  s_saveToken :: "string \<Rightarrow> string \<Rightarrow> string \<Rightarrow> int \<Rightarrow> 's \<Rightarrow> 's"
  s_resolveToken :: "string \<Rightarrow> 's \<Rightarrow> (string \<times> string) option \<times> 's"
  s_deleteToken :: "string \<Rightarrow> 's \<Rightarrow> 's"

text \<open>What a store keeps of a descriptor: everything but its live state and timestamps.\<close>

definition same_host :: "host_descriptor \<Rightarrow> host_descriptor \<Rightarrow> bool" where
  "same_host a b \<longleftrightarrow>
     hd_hostId a = hd_hostId b \<and> hd_name a = hd_name b \<and> hd_namespaceId a = hd_namespaceId b \<and>
     hd_capabilities a = hd_capabilities b \<and> hd_hostType a = hd_hostType b \<and>
     hd_workspaces a = hd_workspaces b \<and> hd_plugins a = hd_plugins b"

lemma same_host_refl [simp]: "same_host a a"
  by (simp add: same_host_def)

text \<open>
  \<open>persisted s n h\<close> and \<open>token_of s t\<close> are the store seen as two maps. Reads return what the maps
  hold and change neither; a save, a delete and the token operations change one entry.
\<close>

locale host_store =
  fixes S :: "'s store_ops"
    and ok :: "'s \<Rightarrow> bool"
    and persisted :: "'s \<Rightarrow> string \<Rightarrow> string \<Rightarrow> host_descriptor option"
    and token_of :: "'s \<Rightarrow> string \<Rightarrow> (string \<times> string) option"
  assumes ok_save: "ok s \<Longrightarrow> ok (s_save S d now s)"
    and ok_get: "ok s \<Longrightarrow> ok (snd (s_get S h n s))"
    and ok_list: "ok s \<Longrightarrow> ok (snd (s_list S n s))"
    and ok_listAll: "ok s \<Longrightarrow> ok (snd (s_listAll S s))"
    and ok_delete: "ok s \<Longrightarrow> ok (snd (s_delete S h n s))"
    and ok_saveToken: "ok s \<Longrightarrow> ok (s_saveToken S t h n now s)"
    and ok_resolveToken: "ok s \<Longrightarrow> ok (snd (s_resolveToken S t s))"
    and ok_deleteToken: "ok s \<Longrightarrow> ok (s_deleteToken S t s)"
    and keyed: "ok s \<Longrightarrow> persisted s n h = Some d \<Longrightarrow> hd_namespaceId d = n \<and> hd_hostId d = h"
    and get_res: "ok s \<Longrightarrow> fst (s_get S h n s) = persisted s n h"
    and get_frame: "ok s \<Longrightarrow> persisted (snd (s_get S h n s)) = persisted s \<and>
       token_of (snd (s_get S h n s)) = token_of s"
    and list_res: "ok s \<Longrightarrow> set (fst (s_list S n s)) = {d. \<exists>h. persisted s n h = Some d} \<and>
       distinct (map hd_hostId (fst (s_list S n s)))"
    and list_frame: "ok s \<Longrightarrow> persisted (snd (s_list S n s)) = persisted s \<and>
       token_of (snd (s_list S n s)) = token_of s"
    and listAll_res: "ok s \<Longrightarrow> set (fst (s_listAll S s)) = {d. \<exists>n h. persisted s n h = Some d} \<and>
       distinct (map (\<lambda>d. (hd_namespaceId d, hd_hostId d)) (fst (s_listAll S s)))"
    and listAll_frame: "ok s \<Longrightarrow> persisted (snd (s_listAll S s)) = persisted s \<and>
       token_of (snd (s_listAll S s)) = token_of s"
    and save_new: "ok s \<Longrightarrow>
       \<exists>d'. persisted (s_save S d now s) (hd_namespaceId d) (hd_hostId d) = Some d' \<and> same_host d d'"
    and save_frame: "ok s \<Longrightarrow> (n, h) \<noteq> (hd_namespaceId d, hd_hostId d) \<Longrightarrow>
       persisted (s_save S d now s) n h = persisted s n h"
    and save_tokens: "ok s \<Longrightarrow> token_of (s_save S d now s) = token_of s"
    and delete_res: "ok s \<Longrightarrow> fst (s_delete S h n s) = (persisted s n h \<noteq> None)"
    and delete_hosts: "ok s \<Longrightarrow> persisted (snd (s_delete S h n s)) n' h' =
       (if n' = n \<and> h' = h then None else persisted s n' h')"
    and delete_tokens: "ok s \<Longrightarrow> token_of (snd (s_delete S h n s)) t =
       (if token_of s t = Some (h, n) then None else token_of s t)"
    and saveToken_hosts: "ok s \<Longrightarrow> persisted (s_saveToken S t h n now s) = persisted s"
    and saveToken_tokens: "ok s \<Longrightarrow> token_of (s_saveToken S t h n now s) =
       (token_of s)(t \<mapsto> (h, n))"
    and resolve_res: "ok s \<Longrightarrow> fst (s_resolveToken S t s) = token_of s t"
    and resolve_frame: "ok s \<Longrightarrow> persisted (snd (s_resolveToken S t s)) = persisted s \<and>
       token_of (snd (s_resolveToken S t s)) = token_of s"
    and deleteToken_hosts: "ok s \<Longrightarrow> persisted (s_deleteToken S t s) = persisted s"
    and deleteToken_tokens: "ok s \<Longrightarrow> token_of (s_deleteToken S t s) = (token_of s)(t := None)"
begin

lemmas store_ok = ok_save ok_get ok_list ok_listAll ok_delete ok_saveToken ok_resolveToken
  ok_deleteToken

lemma get_after_save:
  assumes "ok s"
  obtains d' where "fst (s_get S (hd_hostId d) (hd_namespaceId d) (s_save S d now s)) = Some d'"
    "same_host d d'"
  using save_new [OF assms, of d now] get_res [OF ok_save [OF assms, of d now]] by fastforce

lemma get_after_delete: "ok s \<Longrightarrow> fst (s_get S h n (snd (s_delete S h n s))) = None"
  by (simp add: get_res ok_delete delete_hosts)

lemma delete_twice: "ok s \<Longrightarrow> fst (s_delete S h n (snd (s_delete S h n s))) = False"
  by (simp add: delete_res ok_delete delete_hosts)

lemma token_gone_with_host:
  "ok s \<Longrightarrow> fst (s_resolveToken S t (snd (s_delete S h n (s_saveToken S t h n now s)))) = None"
  by (simp add: resolve_res ok_delete ok_saveToken delete_tokens saveToken_tokens)

end

section \<open>SqliteHostStore\<close>

record host_row =
  ho_host_id :: string
  ho_namespace_id :: string
  ho_name :: string
  ho_capabilities :: "host_capability list"
  ho_host_type :: "host_type option"
  ho_workspaces :: "workspace_info list option"
  ho_plugins :: "plugin_info list option"
  ho_created_at :: int
  ho_updated_at :: int

record token_row =
  to_token :: string
  to_host_id :: string
  to_namespace_id :: string
  to_created_at :: int

record sqlite_store =
  sq_migrated :: bool
  sq_hosts :: "host_row list option"
  sq_tokens :: "token_row list option"

definition rowToDescriptor :: "host_row \<Rightarrow> host_descriptor" where
  "rowToDescriptor row =
     \<lparr>hd_hostId = ho_host_id row, hd_name = ho_name row, hd_namespaceId = ho_namespace_id row,
      hd_capabilities = ho_capabilities row, hd_status = Offline, hd_lastSeen = ho_updated_at row,
      hd_connections = [], hd_hostType = ho_host_type row, hd_workspaces = ho_workspaces row,
      hd_plugins = ho_plugins row, hd_createdAt = Some (ho_created_at row),
      hd_updatedAt = Some (ho_updated_at row)\<rparr>"

text \<open>\<open>CREATE TABLE IF NOT EXISTS\<close>\<close>

definition create_table :: "'r list option \<Rightarrow> 'r list option" where
  "create_table t = (case t of None \<Rightarrow> Some [] | Some rows \<Rightarrow> Some rows)"

definition migrate :: "sqlite_store \<Rightarrow> sqlite_store" where
  "migrate s =
     (if sq_migrated s then s
      else s\<lparr>sq_hosts := create_table (sq_hosts s), sq_tokens := create_table (sq_tokens s),
             sq_migrated := True\<rparr>)"

text \<open>The rows a statement sees; every statement runs after \<open>migrate\<close>.\<close>

definition hosts_of :: "sqlite_store \<Rightarrow> host_row list" where
  "hosts_of s = or_else (sq_hosts s) []"

definition tokens_of :: "sqlite_store \<Rightarrow> token_row list" where
  "tokens_of s = or_else (sq_tokens s) []"

definition host_key :: "host_row \<Rightarrow> string \<times> string" where
  "host_key row = (ho_host_id row, ho_namespace_id row)"

text \<open>\<open>INSERT ... ON CONFLICT (key) DO UPDATE SET\<close> with the update as a function of both rows.\<close>

definition upsert :: "('r \<Rightarrow> 'k) \<Rightarrow> ('r \<Rightarrow> 'r \<Rightarrow> 'r) \<Rightarrow> 'r \<Rightarrow> 'r list \<Rightarrow> 'r list" where
  "upsert key upd new rows =
     (if key new \<in> set (map key rows)
      then map (\<lambda>old. if key old = key new then upd old new else old) rows
      else rows @ [new])"

definition host_update :: "host_row \<Rightarrow> host_row \<Rightarrow> host_row" where
  "host_update old excluded =
     old\<lparr>ho_name := ho_name excluded, ho_capabilities := ho_capabilities excluded,
         ho_host_type := ho_host_type excluded, ho_workspaces := ho_workspaces excluded,
         ho_plugins := ho_plugins excluded, ho_updated_at := ho_updated_at excluded\<rparr>"

definition token_update :: "token_row \<Rightarrow> token_row \<Rightarrow> token_row" where
  "token_update old excluded =
     old\<lparr>to_host_id := to_host_id excluded, to_namespace_id := to_namespace_id excluded\<rparr>"

definition descriptor_row :: "host_descriptor \<Rightarrow> int \<Rightarrow> host_row" where
  "descriptor_row descriptor now =
     \<lparr>ho_host_id = hd_hostId descriptor, ho_namespace_id = hd_namespaceId descriptor,
      ho_name = hd_name descriptor, ho_capabilities = hd_capabilities descriptor,
      ho_host_type = hd_hostType descriptor, ho_workspaces = hd_workspaces descriptor,
      ho_plugins = hd_plugins descriptor, ho_created_at = or_else (hd_createdAt descriptor) now,
      ho_updated_at = now\<rparr>"

definition sqlite_save :: "host_descriptor \<Rightarrow> int \<Rightarrow> sqlite_store \<Rightarrow> sqlite_store" where
  "sqlite_save descriptor now s =
     (let s1 = migrate s
      in s1\<lparr>sq_hosts := Some (upsert host_key host_update (descriptor_row descriptor now) (hosts_of s1))\<rparr>)"

definition first_row :: "'r list \<Rightarrow> 'r option" where
  "first_row rows = (case rows of [] \<Rightarrow> None | row # _ \<Rightarrow> Some row)"

definition sqlite_get :: "string \<Rightarrow> string \<Rightarrow> sqlite_store \<Rightarrow> host_descriptor option \<times> sqlite_store" where
  "sqlite_get hostId namespaceId s =
     (let s1 = migrate s;
          rows = filter (\<lambda>row. ho_host_id row = hostId \<and> ho_namespace_id row = namespaceId) (hosts_of s1)
      in (map_option rowToDescriptor (first_row rows), s1))"

definition sqlite_list :: "string \<Rightarrow> sqlite_store \<Rightarrow> host_descriptor list \<times> sqlite_store" where
  "sqlite_list namespaceId s =
     (let s1 = migrate s;
          rows = sort_key ho_created_at (filter (\<lambda>row. ho_namespace_id row = namespaceId) (hosts_of s1))
      in (map rowToDescriptor rows, s1))"

definition sqlite_listAll :: "sqlite_store \<Rightarrow> host_descriptor list \<times> sqlite_store" where
  "sqlite_listAll s =
     (let s1 = migrate s;
          rows = sort_key ho_namespace_id (sort_key ho_created_at (hosts_of s1))
      in (map rowToDescriptor rows, s1))"

definition sqlite_delete :: "string \<Rightarrow> string \<Rightarrow> sqlite_store \<Rightarrow> bool \<times> sqlite_store" where
  "sqlite_delete hostId namespaceId s =
     (let s1 = migrate s;
          s2 = s1\<lparr>sq_tokens := Some (filter
                 (\<lambda>row. \<not> (to_host_id row = hostId \<and> to_namespace_id row = namespaceId)) (tokens_of s1))\<rparr>;
          hit = (\<lambda>row. ho_host_id row = hostId \<and> ho_namespace_id row = namespaceId);
          rowCount = length (filter hit (hosts_of s2));
          s3 = s2\<lparr>sq_hosts := Some (filter (\<lambda>row. \<not> hit row) (hosts_of s2))\<rparr>
      in (rowCount > 0, s3))"

definition sqlite_saveToken :: "string \<Rightarrow> string \<Rightarrow> string \<Rightarrow> int \<Rightarrow> sqlite_store \<Rightarrow> sqlite_store" where
  "sqlite_saveToken token hostId namespaceId now s =
     (let s1 = migrate s
      in s1\<lparr>sq_tokens := Some (upsert to_token token_update
              \<lparr>to_token = token, to_host_id = hostId, to_namespace_id = namespaceId, to_created_at = now\<rparr>
              (tokens_of s1))\<rparr>)"

definition sqlite_resolveToken :: "string \<Rightarrow> sqlite_store \<Rightarrow> (string \<times> string) option \<times> sqlite_store" where
  "sqlite_resolveToken token s =
     (let s1 = migrate s;
          rows = filter (\<lambda>row. to_token row = token) (tokens_of s1)
      in (map_option (\<lambda>row. (to_host_id row, to_namespace_id row)) (first_row rows), s1))"

definition sqlite_deleteToken :: "string \<Rightarrow> sqlite_store \<Rightarrow> sqlite_store" where
  "sqlite_deleteToken token s =
     (let s1 = migrate s
      in s1\<lparr>sq_tokens := Some (filter (\<lambda>row. to_token row \<noteq> token) (tokens_of s1))\<rparr>)"

definition sqlite_ops :: "sqlite_store store_ops" where
  "sqlite_ops =
     \<lparr>s_save = sqlite_save, s_get = sqlite_get, s_list = sqlite_list, s_listAll = sqlite_listAll,
      s_delete = sqlite_delete, s_saveToken = sqlite_saveToken, s_resolveToken = sqlite_resolveToken,
      s_deleteToken = sqlite_deleteToken\<rparr>"

section \<open>Rows under a key\<close>

definition row_at :: "('r \<Rightarrow> 'k) \<Rightarrow> 'r list \<Rightarrow> 'k \<Rightarrow> 'r option" where
  "row_at key rows k = first_row (filter (\<lambda>row. key row = k) rows)"

lemma row_at_Nil [simp]: "row_at key [] k = None"
  by (simp add: row_at_def first_row_def)

lemma row_at_Cons [simp]: "row_at key (r # rows) k = (if key r = k then Some r else row_at key rows k)"
  by (simp add: row_at_def first_row_def)

lemma row_at_SomeD: "row_at key rows k = Some r \<Longrightarrow> r \<in> set rows \<and> key r = k"
  by (induction rows) (auto split: if_splits)

lemma row_at_None: "row_at key rows k = None \<longleftrightarrow> k \<notin> set (map key rows)"
  by (induction rows) auto

lemma row_at_append: "row_at key (xs @ ys) k =
    (case row_at key xs k of None \<Rightarrow> row_at key ys k | Some r \<Rightarrow> Some r)"
  by (induction xs) auto

lemma row_at_map_upd:
  assumes "\<And>old. key (upd old new) = key old"
  shows "row_at key (map (\<lambda>old. if key old = key new then upd old new else old) rows) k =
    map_option (\<lambda>old. if k = key new then upd old new else old) (row_at key rows k)"
  using assms by (induction rows) auto

lemma row_at_upsert:
  assumes "\<And>old. key (upd old new) = key old"
  shows "row_at key (upsert key upd new rows) k =
    (if k = key new then Some (case row_at key rows k of None \<Rightarrow> new | Some old \<Rightarrow> upd old new)
     else row_at key rows k)"
proof (cases "key new \<in> set (map key rows)")
  case True
  then have "row_at key rows (key new) \<noteq> None" by (simp only: row_at_None) simp
  with True show ?thesis
    by (auto simp: upsert_def row_at_map_upd [where key = key and upd = upd, OF assms] option.map_ident)
next
  case False
  then have "row_at key rows (key new) = None" by (simp only: row_at_None) simp
  with False show ?thesis by (auto simp: upsert_def row_at_append split: option.splits)
qed

lemma distinct_upsert:
  assumes "\<And>old. key (upd old new) = key old" "distinct (map key rows)"
  shows "distinct (map key (upsert key upd new rows))"
proof -
  have "map key (map (\<lambda>old. if key old = key new then upd old new else old) rows) = map key rows"
    using assms(1) by (induction rows) auto
  with assms(2) show ?thesis
    by (cases "key new \<in> set (map key rows)") (simp_all only: upsert_def if_True if_False,
      simp_all)
qed

lemma row_at_filter:
  "row_at key (filter (\<lambda>r. P (key r)) rows) k = (if P k then row_at key rows k else None)"
  by (induction rows) auto

lemma row_at_filter_row:
  "distinct (map key rows) \<Longrightarrow>
     row_at key (filter P rows) k = (case row_at key rows k of None \<Rightarrow> None | Some r \<Rightarrow> if P r then Some r else None)"
proof (induction rows)
  case (Cons a rows)
  then have "row_at key rows (key a) = None" by (simp only: row_at_None) simp
  with Cons show ?case by auto
qed simp

lemma row_at_mem: "distinct (map key rows) \<Longrightarrow> r \<in> set rows \<longleftrightarrow> row_at key rows (key r) = Some r"
proof (induction rows)
  case (Cons a rows)
  then show ?case by (auto dest: row_at_SomeD)
qed simp

section \<open>The SQLite store keeps the contract\<close>

definition sqlite_ok :: "sqlite_store \<Rightarrow> bool" where
  "sqlite_ok s \<longleftrightarrow> distinct (map host_key (hosts_of s)) \<and> distinct (map to_token (tokens_of s)) \<and>
     (sq_migrated s \<longrightarrow> sq_hosts s \<noteq> None \<and> sq_tokens s \<noteq> None)"

definition sqlite_persisted :: "sqlite_store \<Rightarrow> string \<Rightarrow> string \<Rightarrow> host_descriptor option" where
  "sqlite_persisted s n h = map_option rowToDescriptor (row_at host_key (hosts_of s) (h, n))"

definition sqlite_token :: "sqlite_store \<Rightarrow> string \<Rightarrow> (string \<times> string) option" where
  "sqlite_token s t = map_option (\<lambda>row. (to_host_id row, to_namespace_id row)) (row_at to_token (tokens_of s) t)"

lemma migrate_rows [simp]:
  "hosts_of (migrate s) = hosts_of s" "tokens_of (migrate s) = tokens_of s"
  by (simp_all add: migrate_def hosts_of_def tokens_of_def create_table_def split: option.splits)

lemma rows_update [simp]:
  "hosts_of (s\<lparr>sq_hosts := Some rows\<rparr>) = rows" "tokens_of (s\<lparr>sq_hosts := Some rows\<rparr>) = tokens_of s"
  "tokens_of (s\<lparr>sq_tokens := Some trows\<rparr>) = trows" "hosts_of (s\<lparr>sq_tokens := Some trows\<rparr>) = hosts_of s"
  by (simp_all add: hosts_of_def tokens_of_def)

lemma migrated [simp]: "sq_migrated (migrate s)"
  by (simp add: migrate_def)

text \<open>After \<open>migrate\<close> both tables exist, so no statement meets a missing one.\<close>

lemma migrate_creates:
  "sqlite_ok s \<Longrightarrow> sq_hosts (migrate s) \<noteq> None \<and> sq_tokens (migrate s) \<noteq> None"
  by (auto simp: migrate_def sqlite_ok_def create_table_def split: option.splits)

lemma sqlite_ok_migrate: "sqlite_ok s \<Longrightarrow> sqlite_ok (migrate s)"
  using migrate_creates [of s] by (simp add: sqlite_ok_def)

lemma sqlite_view_migrate [simp]:
  "sqlite_persisted (migrate s) = sqlite_persisted s" "sqlite_token (migrate s) = sqlite_token s"
  by (simp_all add: sqlite_persisted_def sqlite_token_def fun_eq_iff)

lemma host_update_key [simp]: "host_key (host_update old new) = host_key old"
  by (simp add: host_key_def host_update_def)

lemma token_update_key [simp]: "to_token (token_update old new) = to_token old"
  by (simp add: token_update_def)

lemma host_key_iff: "host_key r = (h, n) \<longleftrightarrow> ho_host_id r = h \<and> ho_namespace_id r = n"
  by (auto simp: host_key_def)

lemma descriptor_row_key [simp]: "host_key (descriptor_row d now) = (hd_hostId d, hd_namespaceId d)"
  by (simp add: host_key_def descriptor_row_def)

lemma sqlite_ok_save: "sqlite_ok s \<Longrightarrow> sqlite_ok (sqlite_save d now s)"
  using migrate_creates [of s] by (auto simp: sqlite_ok_def sqlite_save_def Let_def distinct_upsert)

lemma sqlite_ok_delete: "sqlite_ok s \<Longrightarrow> sqlite_ok (snd (sqlite_delete h n s))"
  using migrate_creates [of s]
  by (auto simp: sqlite_ok_def sqlite_delete_def Let_def distinct_map_filter)

lemma sqlite_ok_saveToken: "sqlite_ok s \<Longrightarrow> sqlite_ok (sqlite_saveToken t h n now s)"
  using migrate_creates [of s] by (auto simp: sqlite_ok_def sqlite_saveToken_def Let_def distinct_upsert)

lemma sqlite_ok_deleteToken: "sqlite_ok s \<Longrightarrow> sqlite_ok (sqlite_deleteToken t s)"
  using migrate_creates [of s]
  by (auto simp: sqlite_ok_def sqlite_deleteToken_def Let_def distinct_map_filter)

lemma sqlite_reads_migrate:
  "snd (sqlite_get h n s) = migrate s" "snd (sqlite_list n s) = migrate s"
  "snd (sqlite_listAll s) = migrate s" "snd (sqlite_resolveToken t s) = migrate s"
  by (simp_all add: sqlite_get_def sqlite_list_def sqlite_listAll_def sqlite_resolveToken_def Let_def)

lemma sqlite_get_result: "fst (sqlite_get h n s) = sqlite_persisted s n h"
  by (simp add: sqlite_get_def sqlite_persisted_def row_at_def host_key_iff Let_def)

lemma sqlite_resolve_result: "fst (sqlite_resolveToken t s) = sqlite_token s t"
  by (simp add: sqlite_resolveToken_def sqlite_token_def row_at_def Let_def)

lemma sqlite_persisted_save:
  "sqlite_persisted (sqlite_save d now s) n h =
     (if n = hd_namespaceId d \<and> h = hd_hostId d
      then Some (rowToDescriptor (case row_at host_key (hosts_of s) (h, n) of
             None \<Rightarrow> descriptor_row d now | Some old \<Rightarrow> host_update old (descriptor_row d now)))
      else sqlite_persisted s n h)"
  by (auto simp: sqlite_persisted_def sqlite_save_def Let_def row_at_upsert)

lemma sqlite_save_same_host:
  "\<exists>d'. sqlite_persisted (sqlite_save d now s) (hd_namespaceId d) (hd_hostId d) = Some d' \<and> same_host d d'"
  by (auto simp: sqlite_persisted_save same_host_def rowToDescriptor_def descriptor_row_def
      host_update_def host_key_iff split: option.splits dest: row_at_SomeD)

lemma sqlite_list_result:
  assumes "sqlite_ok s"
  shows "set (fst (sqlite_list n s)) = {d. \<exists>h. sqlite_persisted s n h = Some d} \<and>
    distinct (map hd_hostId (fst (sqlite_list n s)))"
proof -
  have d: "distinct (map host_key (hosts_of s))" using assms by (simp add: sqlite_ok_def)
  have "set (fst (sqlite_list n s)) = rowToDescriptor ` {r \<in> set (hosts_of s). ho_namespace_id r = n}"
    by (simp add: sqlite_list_def Let_def)
  also have "\<dots> = {d. \<exists>h. sqlite_persisted s n h = Some d}"
  proof (intro set_eqI iffI)
    fix d
    assume "d \<in> rowToDescriptor ` {r \<in> set (hosts_of s). ho_namespace_id r = n}"
    then obtain r where "r \<in> set (hosts_of s)" "ho_namespace_id r = n" "d = rowToDescriptor r" by blast
    then have "sqlite_persisted s n (ho_host_id r) = Some d"
      using row_at_mem [OF d, of r] by (simp add: sqlite_persisted_def host_key_def)
    then show "d \<in> {d. \<exists>h. sqlite_persisted s n h = Some d}" by blast
  next
    fix d
    assume "d \<in> {d. \<exists>h. sqlite_persisted s n h = Some d}"
    then obtain h r where "row_at host_key (hosts_of s) (h, n) = Some r" "d = rowToDescriptor r"
      by (auto simp: sqlite_persisted_def)
    then show "d \<in> rowToDescriptor ` {r \<in> set (hosts_of s). ho_namespace_id r = n}"
      by (auto simp: host_key_iff dest!: row_at_SomeD)
  qed
  finally have "set (fst (sqlite_list n s)) = {d. \<exists>h. sqlite_persisted s n h = Some d}" .
  moreover have "inj_on ho_host_id {r \<in> set (hosts_of s). ho_namespace_id r = n}"
    using d by (auto simp: inj_on_def distinct_map host_key_def)
  then have "distinct (map hd_hostId (fst (sqlite_list n s)))"
    using d by (simp add: sqlite_list_def Let_def comp_def rowToDescriptor_def distinct_map)
  ultimately show ?thesis by blast
qed

lemma sqlite_listAll_result:
  assumes "sqlite_ok s"
  shows "set (fst (sqlite_listAll s)) = {d. \<exists>n h. sqlite_persisted s n h = Some d} \<and>
    distinct (map (\<lambda>d. (hd_namespaceId d, hd_hostId d)) (fst (sqlite_listAll s)))"
proof -
  have d: "distinct (map host_key (hosts_of s))" using assms by (simp add: sqlite_ok_def)
  have "set (fst (sqlite_listAll s)) = (\<Union>n. set (fst (sqlite_list n s)))"
    by (auto simp: sqlite_listAll_def sqlite_list_def Let_def)
  then have "set (fst (sqlite_listAll s)) = {d. \<exists>n h. sqlite_persisted s n h = Some d}"
    using sqlite_list_result [OF assms] by auto
  moreover have "inj_on (\<lambda>r. (ho_namespace_id r, ho_host_id r)) (set (hosts_of s))"
    using d by (auto simp: inj_on_def distinct_map host_key_def)
  then have "distinct (map (\<lambda>d. (hd_namespaceId d, hd_hostId d)) (fst (sqlite_listAll s)))"
    using d by (simp add: sqlite_listAll_def Let_def comp_def rowToDescriptor_def distinct_map)
  ultimately show ?thesis by blast
qed

lemma sqlite_delete_result: "fst (sqlite_delete h n s) = (sqlite_persisted s n h \<noteq> None)"
  by (simp add: sqlite_delete_def sqlite_persisted_def Let_def row_at_def first_row_def host_key_iff
      split: list.splits)

lemma sqlite_delete_hosts:
  "sqlite_persisted (snd (sqlite_delete h n s)) n' h' =
     (if n' = n \<and> h' = h then None else sqlite_persisted s n' h')"
proof -
  have "(\<lambda>row. \<not> (ho_host_id row = h \<and> ho_namespace_id row = n)) = (\<lambda>row. host_key row \<noteq> (h, n))"
    by (auto simp: host_key_def)
  then show ?thesis
    by (simp add: sqlite_delete_def sqlite_persisted_def Let_def row_at_filter [where P = "\<lambda>k. k \<noteq> (h, n)"])
qed

lemma sqlite_delete_tokens:
  "sqlite_ok s \<Longrightarrow> sqlite_token (snd (sqlite_delete h n s)) t =
     (if sqlite_token s t = Some (h, n) then None else sqlite_token s t)"
  by (auto simp: sqlite_ok_def sqlite_delete_def sqlite_token_def Let_def row_at_filter_row
      split: option.splits)

lemma sqlite_token_ops:
  "sqlite_persisted (sqlite_saveToken t h n now s) = sqlite_persisted s"
  "sqlite_token (sqlite_saveToken t h n now s) = (sqlite_token s)(t \<mapsto> (h, n))"
  "sqlite_persisted (sqlite_deleteToken t s) = sqlite_persisted s"
  "sqlite_token (sqlite_deleteToken t s) = (sqlite_token s)(t := None)"
  "sqlite_token (sqlite_save d now s) = sqlite_token s"
  by (auto simp: sqlite_saveToken_def sqlite_deleteToken_def sqlite_save_def sqlite_persisted_def
      sqlite_token_def Let_def fun_eq_iff row_at_upsert token_update_def
      row_at_filter [where P = "\<lambda>k. k \<noteq> t"] split: option.splits)

lemma sqlite_keyed:
  "sqlite_persisted s n h = Some d \<Longrightarrow> hd_namespaceId d = n \<and> hd_hostId d = h"
  by (auto simp: sqlite_persisted_def rowToDescriptor_def host_key_iff dest!: row_at_SomeD)

lemma sqlite_ops_sel [simp]:
  "s_save sqlite_ops = sqlite_save" "s_get sqlite_ops = sqlite_get" "s_list sqlite_ops = sqlite_list"
  "s_listAll sqlite_ops = sqlite_listAll" "s_delete sqlite_ops = sqlite_delete"
  "s_saveToken sqlite_ops = sqlite_saveToken" "s_resolveToken sqlite_ops = sqlite_resolveToken"
  "s_deleteToken sqlite_ops = sqlite_deleteToken"
  by (simp_all add: sqlite_ops_def)

lemma sqlite_save_frame:
  "(n, h) \<noteq> (hd_namespaceId d, hd_hostId d) \<Longrightarrow>
     sqlite_persisted (sqlite_save d now s) n h = sqlite_persisted s n h"
  by (auto simp: sqlite_persisted_save)

interpretation sqlite: host_store sqlite_ops sqlite_ok sqlite_persisted sqlite_token
proof unfold_locales
  show "\<exists>d'. sqlite_persisted (s_save sqlite_ops d now s) (hd_namespaceId d) (hd_hostId d) = Some d' \<and>
      same_host d d'" for s d now
    by (simp only: sqlite_ops_sel sqlite_save_same_host)
  show "sqlite_ok s \<Longrightarrow> (n, h) \<noteq> (hd_namespaceId d, hd_hostId d) \<Longrightarrow>
      sqlite_persisted (s_save sqlite_ops d now s) n h = sqlite_persisted s n h" for s n h d now
    unfolding sqlite_ops_sel by (rule sqlite_save_frame)
qed (simp_all add: sqlite_ok_save sqlite_ok_delete sqlite_ok_saveToken sqlite_ok_deleteToken
      sqlite_reads_migrate sqlite_ok_migrate sqlite_keyed sqlite_get_result sqlite_resolve_result
      sqlite_list_result sqlite_listAll_result
      sqlite_delete_result sqlite_delete_hosts sqlite_delete_tokens sqlite_token_ops)

section \<open>Properties\<close>

text \<open>
  C26: a saved host survives a restart with its identity. Saving a descriptor and reading it back,
  also through the flag-less store a fresh process opens on the same tables, gives the same host
  (id, namespace, name, capabilities, type, workspaces, plugins), always offline and without
  connections, whatever live status was saved; a later save never changes its creation time, and
  hosts under other keys are untouched.
\<close>

theorem sqlite_save_then_get:
  fixes d :: host_descriptor and now :: int
  assumes ok: "sqlite_ok s"
  defines "s' \<equiv> (sqlite_save d now s)\<lparr>sq_migrated := False\<rparr>"
  shows "(\<exists>d'. fst (sqlite_get (hd_hostId d) (hd_namespaceId d) s') = Some d' \<and> same_host d d' \<and>
      hd_status d' = Offline \<and> hd_connections d' = [] \<and> hd_updatedAt d' = Some now \<and>
      hd_createdAt d' = (case fst (sqlite_get (hd_hostId d) (hd_namespaceId d) s) of
          None \<Rightarrow> Some (or_else (hd_createdAt d) now) | Some old \<Rightarrow> hd_createdAt old)) \<and>
    ((n, h) \<noteq> (hd_namespaceId d, hd_hostId d) \<longrightarrow> fst (sqlite_get h n s') = fst (sqlite_get h n s))"
proof -
  have view: "sqlite_persisted s' = sqlite_persisted (sqlite_save d now s)"
    by (simp add: s'_def sqlite_persisted_def hosts_of_def fun_eq_iff)
  obtain d' where d': "sqlite_persisted (sqlite_save d now s) (hd_namespaceId d) (hd_hostId d) = Some d'"
    "same_host d d'" using sqlite_save_same_host by blast
  have "hd_status d' = Offline \<and> hd_connections d' = [] \<and> hd_updatedAt d' = Some now \<and>
      hd_createdAt d' = (case sqlite_persisted s (hd_namespaceId d) (hd_hostId d) of
          None \<Rightarrow> Some (or_else (hd_createdAt d) now) | Some old \<Rightarrow> hd_createdAt old)"
    using d'(1) unfolding sqlite_persisted_save
    by (auto simp: sqlite_persisted_def rowToDescriptor_def descriptor_row_def host_update_def
        split: option.splits)
  with d' view show ?thesis
    using sqlite.save_frame [OF ok, of n h d now] by (simp add: sqlite_get_result)
qed

lemma sqlite_save_then_get_witness:
  "\<exists>d'. fst (sqlite_get ''h'' ''n'' ((sqlite_save
      \<lparr>hd_hostId = ''h'', hd_name = ''laptop'', hd_namespaceId = ''n'', hd_capabilities = [Git],
       hd_status = Online, hd_lastSeen = 5, hd_connections = [''c''], hd_hostType = None,
       hd_workspaces = None, hd_plugins = None, hd_createdAt = None, hd_updatedAt = None\<rparr> 9
      \<lparr>sq_migrated = False, sq_hosts = None, sq_tokens = None\<rparr>)\<lparr>sq_migrated := False\<rparr>)) = Some d' \<and>
    hd_status d' = Offline \<and> hd_createdAt d' = Some 9"
proof -
  let ?s = "\<lparr>sq_migrated = False, sq_hosts = None, sq_tokens = None\<rparr>"
  have "sqlite_ok ?s" by (simp add: sqlite_ok_def hosts_of_def tokens_of_def)
  from sqlite_save_then_get [OF this, of "\<lparr>hd_hostId = ''h'', hd_name = ''laptop'', hd_namespaceId = ''n'',
       hd_capabilities = [Git], hd_status = Online, hd_lastSeen = 5, hd_connections = [''c''],
       hd_hostType = None, hd_workspaces = None, hd_plugins = None, hd_createdAt = None,
       hd_updatedAt = None\<rparr>" 9 "[]" "[]"]
  show ?thesis by (auto simp: sqlite_get_result sqlite_persisted_def hosts_of_def)
qed

text \<open>
  Deleting a host revokes its machine tokens and nothing else. The result says whether the host
  existed; afterwards the host is gone, every token that resolved to it resolves to nothing, and all
  other hosts and tokens resolve as before.
\<close>

theorem sqlite_delete_revokes:
  fixes h n :: string
  assumes ok: "sqlite_ok s"
  defines "s' \<equiv> snd (sqlite_delete h n s)"
  shows "fst (sqlite_delete h n s) = (fst (sqlite_get h n s) \<noteq> None) \<and>
    fst (sqlite_get h n s') = None \<and>
    ((n', h') \<noteq> (n, h) \<longrightarrow> fst (sqlite_get h' n' s') = fst (sqlite_get h' n' s)) \<and>
    fst (sqlite_resolveToken t s') =
      (if fst (sqlite_resolveToken t s) = Some (h, n) then None else fst (sqlite_resolveToken t s))"
  using sqlite.delete_res [OF ok] sqlite.delete_hosts [OF ok] sqlite.delete_tokens [OF ok]
  by (auto simp: s'_def sqlite_get_result sqlite_resolve_result)

lemma sqlite_delete_revokes_witness:
  "fst (sqlite_resolveToken ''t'' (snd (sqlite_delete ''h'' ''n''
     (sqlite_saveToken ''t'' ''h'' ''n'' 0 \<lparr>sq_migrated = False, sq_hosts = None, sq_tokens = None\<rparr>)))) = None"
proof -
  have ok: "sqlite_ok (sqlite_saveToken ''t'' ''h'' ''n'' 0
      \<lparr>sq_migrated = False, sq_hosts = None, sq_tokens = None\<rparr>)" (is "sqlite_ok ?s")
    by (intro sqlite_ok_saveToken) (simp add: sqlite_ok_def hosts_of_def tokens_of_def)
  have "fst (sqlite_resolveToken ''t'' ?s) = Some (''h'', ''n'')"
    by (simp add: sqlite_resolve_result sqlite_token_ops)
  with sqlite_delete_revokes [OF ok, of "''h''" "''n''" "[]" "[]" "''t''"] show ?thesis by simp
qed

end
