(* ===== verification/Host_Registry.thy ===== *)
theory Host_Registry
  imports Cache_Interface Host_Store
begin

text \<open>
  apps/gateway-app/src/hosts/registry.ts: \<open>HostRegistry\<close>, which keeps every host's live status in
  the cache (parameter \<open>C\<close>, interface \<open>ICache\<close>) and its identity in an optional durable store
  (parameter \<open>St\<close>, interface \<open>IHostStore\<close>), and arms a grace timer when a host loses its last
  connection. The state is the cache, the store, the \<open>graceTimers\<close> map and the timers armed with
  \<open>setTimeout\<close> and not yet fired or cleared. An operation is one atomic step; \<open>Date.now()\<close> and
  \<open>randomUUID()\<close> results are arguments.
\<close>

section \<open>State\<close>

record ('c, 's) host_registry =
  gr_cache :: 'c
  gr_store :: 's
  gr_timers :: "(string, nat) jsmap"
  gr_armed :: "(nat, string \<times> string) jsmap"
    \<comment> \<open>timer id to the host and namespace its callback is for\<close>
  gr_nextTimer :: nat

definition graceKey :: "string \<Rightarrow> string \<Rightarrow> string" where
  "graceKey namespaceId hostId = namespaceId @ '':'' @ hostId"

definition reg_set :: "'c cache_ops \<Rightarrow> string \<Rightarrow> cval \<Rightarrow> ('c, 's) host_registry \<Rightarrow> ('c, 's) host_registry" where
  "reg_set C k v r = r\<lparr>gr_cache := cset C (gr_cache r) k v None\<rparr>"

definition reg_store_save ::
  "'s store_ops option \<Rightarrow> host_descriptor \<Rightarrow> int \<Rightarrow> ('c, 's) host_registry \<Rightarrow> ('c, 's) host_registry" where
  "reg_store_save St d now r =
     (case St of None \<Rightarrow> r | Some S \<Rightarrow> r\<lparr>gr_store := s_save S d now (gr_store r)\<rparr>)"

section \<open>Private helpers\<close>

definition getFromCache :: "'c cache_ops \<Rightarrow> string \<Rightarrow> string \<Rightarrow> ('c, 's) host_registry \<Rightarrow> host_descriptor option" where
  "getFromCache C hostId namespaceId r = c_host C (gr_cache r) (hostKey namespaceId hostId)"

definition index_list :: "'c cache_ops \<Rightarrow> string \<Rightarrow> ('c, 's) host_registry \<Rightarrow> string list" where
  "index_list C k r = or_else (c_strings C (gr_cache r) k) []"

text \<open>\<open>if (!xs.includes(x)) set(key, [...xs, x])\<close>\<close>

definition add_to_list ::
  "'c cache_ops \<Rightarrow> string \<Rightarrow> string \<Rightarrow> ('c, 's) host_registry \<Rightarrow> ('c, 's) host_registry" where
  "add_to_list C k x r =
     (let xs = index_list C k r in if x \<in> set xs then r else reg_set C k (V_strings (xs @ [x])) r)"

definition addToIndex ::
  "'c cache_ops \<Rightarrow> string \<Rightarrow> string \<Rightarrow> ('c, 's) host_registry \<Rightarrow> ('c, 's) host_registry" where
  "addToIndex C namespaceId hostId r =
     add_to_list C namespacesKey namespaceId (add_to_list C (indexKey namespaceId) hostId r)"

definition removeFromIndex ::
  "'c cache_ops \<Rightarrow> string \<Rightarrow> string \<Rightarrow> ('c, 's) host_registry \<Rightarrow> ('c, 's) host_registry" where
  "removeFromIndex C namespaceId hostId r =
     reg_set C (indexKey namespaceId)
       (V_strings (filter (\<lambda>h. h \<noteq> hostId) (index_list C (indexKey namespaceId) r))) r"

section \<open>Operations\<close>

definition go_offline :: "host_descriptor \<Rightarrow> host_descriptor" where
  "go_offline host = host\<lparr>hd_status := Offline, hd_connections := []\<rparr>"

definition reset_host ::
  "'c cache_ops \<Rightarrow> string \<Rightarrow> string \<Rightarrow> ('c, 's) host_registry \<Rightarrow> ('c, 's) host_registry" where
  "reset_host C ns hostId r =
     (case getFromCache C hostId ns r of
        None \<Rightarrow> r
      | Some host \<Rightarrow>
          if hd_status host = Online \<or> hd_status host = Reconnecting
          then reg_set C (hostKey ns hostId) (V_host (go_offline host)) r else r)"

definition reset_namespace ::
  "'c cache_ops \<Rightarrow> string \<Rightarrow> ('c, 's) host_registry \<Rightarrow> ('c, 's) host_registry" where
  "reset_namespace C ns r = fold (reset_host C ns) (index_list C (indexKey ns) r) r"

definition resetStaleHosts :: "'c cache_ops \<Rightarrow> ('c, 's) host_registry \<Rightarrow> ('c, 's) host_registry" where
  "resetStaleHosts C r =
     fold (reset_namespace C) (or_else (c_strings C (gr_cache r) namespacesKey) [''default'']) r"

definition restore_host ::
  "'c cache_ops \<Rightarrow> 's store_ops \<Rightarrow> int \<Rightarrow> host_descriptor \<Rightarrow> ('c, 's) host_registry \<Rightarrow> ('c, 's) host_registry" where
  "restore_host C S now host r =
     (let offline = go_offline host;
          r1 = reg_set C (hostKey (hd_namespaceId host) (hd_hostId host)) (V_host offline) r;
          r2 = reg_store_save (Some S) offline now r1
      in addToIndex C (hd_namespaceId host) (hd_hostId host) r2)"

definition restore ::
  "'c cache_ops \<Rightarrow> 's store_ops option \<Rightarrow> int \<Rightarrow> ('c, 's) host_registry \<Rightarrow> nat \<times> ('c, 's) host_registry" where
  "restore C St now r =
     (let r1 = resetStaleHosts C r
      in case St of
           None \<Rightarrow> (0, r1)
         | Some S \<Rightarrow>
             let (hosts, s') = s_listAll S (gr_store r1)
             in (length hosts, fold (restore_host C S now) hosts (r1\<lparr>gr_store := s'\<rparr>)))"

text \<open>\<open>`host_${randomUUID().replace(/-/g, '').slice(0, 24)}`\<close>\<close>

definition make_host_id :: "string \<Rightarrow> string" where
  "make_host_id uuid = ''host_'' @ take 24 (filter (\<lambda>c. c \<noteq> CHR ''-'') uuid)"

definition reg_register ::
  "'c cache_ops \<Rightarrow> 's store_ops option \<Rightarrow> string \<Rightarrow> string \<Rightarrow> int \<Rightarrow> host_registration \<Rightarrow>
     ('c, 's) host_registry \<Rightarrow> (host_descriptor \<times> string) \<times> ('c, 's) host_registry" where
  "reg_register C St uuid machineToken now reg r =
     (let hostId = make_host_id uuid;
          descriptor = \<lparr>hd_hostId = hostId, hd_name = hr_name reg, hd_namespaceId = hr_namespaceId reg,
            hd_capabilities = hr_capabilities reg, hd_status = Offline, hd_lastSeen = now,
            hd_connections = [], hd_hostType = hr_hostType reg, hd_workspaces = None, hd_plugins = None,
            hd_createdAt = Some now, hd_updatedAt = Some now\<rparr>;
          r1 = (case St of
                  None \<Rightarrow> r
                | Some S \<Rightarrow> r\<lparr>gr_store := s_saveToken S machineToken hostId (hr_namespaceId reg) now
                              (s_save S descriptor now (gr_store r))\<rparr>);
          r2 = reg_set C (hostKey (hr_namespaceId reg) hostId) (V_host descriptor) r1;
          r3 = reg_set C (tokenKey machineToken) (V_token hostId (hr_namespaceId reg)) r2
      in ((descriptor, machineToken), addToIndex C (hr_namespaceId reg) hostId r3))"

definition clear_grace :: "string \<Rightarrow> ('c, 's) host_registry \<Rightarrow> ('c, 's) host_registry" where
  "clear_grace key r =
     (case jm_get (gr_timers r) key of
        None \<Rightarrow> r
      | Some t \<Rightarrow> r\<lparr>gr_armed := jm_delete (gr_armed r) t, gr_timers := jm_delete (gr_timers r) key\<rparr>)"

definition setOnline ::
  "'c cache_ops \<Rightarrow> 's store_ops option \<Rightarrow> string \<Rightarrow> string \<Rightarrow> string \<Rightarrow> int \<Rightarrow>
     ('c, 's) host_registry \<Rightarrow> ('c, 's) host_registry" where
  "setOnline C St hostId namespaceId connectionId now r =
     (case getFromCache C hostId namespaceId r of
        None \<Rightarrow> r
      | Some host \<Rightarrow>
          let r1 = clear_grace (graceKey namespaceId hostId) r;
              updated = host\<lparr>hd_status := Online, hd_lastSeen := now, hd_connections := [connectionId]\<rparr>
          in reg_store_save St updated now
               (reg_set C (hostKey namespaceId hostId) (V_host updated) r1))"

text \<open>\<open>clearTimeout(existing)\<close> then \<open>graceTimers.set(graceKey, setTimeout(...))\<close>.\<close>

definition arm_grace :: "string \<Rightarrow> string \<Rightarrow> ('c, 's) host_registry \<Rightarrow> ('c, 's) host_registry" where
  "arm_grace hostId namespaceId r =
     (let key = graceKey namespaceId hostId;
          armed = (case jm_get (gr_timers r) key of
                     None \<Rightarrow> gr_armed r | Some t \<Rightarrow> jm_delete (gr_armed r) t);
          t = gr_nextTimer r
      in r\<lparr>gr_timers := jm_set (gr_timers r) key t,
           gr_armed := jm_set armed t (hostId, namespaceId),
           gr_nextTimer := Suc t\<rparr>)"

definition setOffline ::
  "'c cache_ops \<Rightarrow> 's store_ops option \<Rightarrow> string \<Rightarrow> string \<Rightarrow> string \<Rightarrow> int \<Rightarrow>
     ('c, 's) host_registry \<Rightarrow> ('c, 's) host_registry" where
  "setOffline C St hostId namespaceId connectionId now r =
     (case getFromCache C hostId namespaceId r of
        None \<Rightarrow> r
      | Some host \<Rightarrow>
          let connections = filter (\<lambda>c. c \<noteq> connectionId) (hd_connections host)
          in if connections \<noteq> []
             then reg_set C (hostKey namespaceId hostId)
                    (V_host (host\<lparr>hd_status := Online, hd_lastSeen := now, hd_connections := connections\<rparr>)) r
             else let reconnecting =
                        host\<lparr>hd_status := Reconnecting, hd_lastSeen := now, hd_connections := []\<rparr>
                  in arm_grace hostId namespaceId
                       (reg_store_save St reconnecting now
                         (reg_set C (hostKey namespaceId hostId) (V_host reconnecting) r)))"

text \<open>The callback of the grace timer \<open>t\<close>, if it is still armed.\<close>

definition grace_expires ::
  "'c cache_ops \<Rightarrow> 's store_ops option \<Rightarrow> nat \<Rightarrow> int \<Rightarrow> ('c, 's) host_registry \<Rightarrow> ('c, 's) host_registry" where
  "grace_expires C St t now r =
     (case jm_get (gr_armed r) t of
        None \<Rightarrow> r
      | Some (hostId, namespaceId) \<Rightarrow>
          let r1 = r\<lparr>gr_armed := jm_delete (gr_armed r) t,
                     gr_timers := jm_delete (gr_timers r) (graceKey namespaceId hostId)\<rparr>
          in case getFromCache C hostId namespaceId r1 of
               None \<Rightarrow> r1
             | Some current \<Rightarrow>
                 if hd_status current = Reconnecting
                 then let offline = current\<lparr>hd_status := Offline, hd_lastSeen := now\<rparr>
                      in reg_store_save St offline now
                           (reg_set C (hostKey namespaceId hostId) (V_host offline) r1)
                 else r1)"

definition heartbeat ::
  "'c cache_ops \<Rightarrow> string \<Rightarrow> string \<Rightarrow> int \<Rightarrow> ('c, 's) host_registry \<Rightarrow> ('c, 's) host_registry" where
  "heartbeat C hostId namespaceId now r =
     (case getFromCache C hostId namespaceId r of
        None \<Rightarrow> r
      | Some host \<Rightarrow> reg_set C (hostKey namespaceId hostId) (V_host (host\<lparr>hd_lastSeen := now\<rparr>)) r)"

definition reg_get ::
  "'c cache_ops \<Rightarrow> 's store_ops option \<Rightarrow> string \<Rightarrow> string \<Rightarrow> ('c, 's) host_registry \<Rightarrow>
     host_descriptor option \<times> ('c, 's) host_registry" where
  "reg_get C St hostId namespaceId r =
     (case getFromCache C hostId namespaceId r of
        Some cached \<Rightarrow> (Some cached, r)
      | None \<Rightarrow>
          (case St of
             None \<Rightarrow> (None, r)
           | Some S \<Rightarrow>
               (case s_get S hostId namespaceId (gr_store r) of
                  (None, s') \<Rightarrow> (None, r\<lparr>gr_store := s'\<rparr>)
                | (Some stored, s') \<Rightarrow>
                    (Some (go_offline stored),
                     addToIndex C namespaceId hostId
                       (reg_set C (hostKey namespaceId hostId) (V_host (go_offline stored))
                         (r\<lparr>gr_store := s'\<rparr>))))))"

definition reg_resolveToken ::
  "'c cache_ops \<Rightarrow> 's store_ops option \<Rightarrow> string \<Rightarrow> ('c, 's) host_registry \<Rightarrow>
     (string \<times> string) option \<times> ('c, 's) host_registry" where
  "reg_resolveToken C St token r =
     (case c_token C (gr_cache r) (tokenKey token) of
        Some cached \<Rightarrow> (Some cached, r)
      | None \<Rightarrow>
          (case St of
             None \<Rightarrow> (None, r)
           | Some S \<Rightarrow>
               (case s_resolveToken S token (gr_store r) of
                  (None, s') \<Rightarrow> (None, r\<lparr>gr_store := s'\<rparr>)
                | (Some (h, n), s') \<Rightarrow>
                    (Some (h, n), reg_set C (tokenKey token) (V_token h n) (r\<lparr>gr_store := s'\<rparr>)))))"

definition reg_list ::
  "'c cache_ops \<Rightarrow> 's store_ops option \<Rightarrow> string \<Rightarrow> ('c, 's) host_registry \<Rightarrow>
     host_descriptor list \<times> ('c, 's) host_registry" where
  "reg_list C St namespaceId r =
     (case St of
        Some S \<Rightarrow>
          let (persisted, s') = s_list S namespaceId (gr_store r)
          in (map (\<lambda>host. or_else (getFromCache C (hd_hostId host) namespaceId r) (go_offline host)) persisted,
              r\<lparr>gr_store := s'\<rparr>)
      | None \<Rightarrow>
          (List.map_filter (\<lambda>h. getFromCache C h namespaceId r) (index_list C (indexKey namespaceId) r), r))"

definition deregister ::
  "'c cache_ops \<Rightarrow> 's store_ops option \<Rightarrow> string \<Rightarrow> string \<Rightarrow> ('c, 's) host_registry \<Rightarrow>
     bool \<times> ('c, 's) host_registry" where
  "deregister C St hostId namespaceId r =
     (let (deleted, r1) = (case St of
             None \<Rightarrow> (False, r)
           | Some S \<Rightarrow> let (b, s') = s_delete S hostId namespaceId (gr_store r) in (b, r\<lparr>gr_store := s'\<rparr>));
          r2 = r1\<lparr>gr_cache := cdelete C (gr_cache r1) (hostKey namespaceId hostId)\<rparr>
      in (deleted, removeFromIndex C namespaceId hostId r2))"

definition ensureRegistered ::
  "'c cache_ops \<Rightarrow> 's store_ops option \<Rightarrow> string \<Rightarrow> string \<Rightarrow> string \<Rightarrow> host_capability list \<Rightarrow> int \<Rightarrow>
     ('c, 's) host_registry \<Rightarrow> ('c, 's) host_registry" where
  "ensureRegistered C St hostId namespaceId name capabilities now r =
     (case reg_get C St hostId namespaceId r of
        (Some existing, r1) \<Rightarrow>
          if capabilities \<noteq> [] \<and> hd_capabilities existing \<noteq> capabilities
          then let updated = existing\<lparr>hd_capabilities := capabilities, hd_updatedAt := Some now\<rparr>
               in reg_set C (hostKey namespaceId hostId) (V_host updated) (reg_store_save St updated now r1)
          else r1
      | (None, r1) \<Rightarrow>
          let descriptor = \<lparr>hd_hostId = hostId, hd_name = name, hd_namespaceId = namespaceId,
                hd_capabilities = capabilities, hd_status = Offline, hd_lastSeen = now,
                hd_connections = [], hd_hostType = None, hd_workspaces = None, hd_plugins = None,
                hd_createdAt = Some now, hd_updatedAt = Some now\<rparr>
          in addToIndex C namespaceId hostId
               (reg_set C (hostKey namespaceId hostId) (V_host descriptor)
                 (reg_store_save St descriptor now r1)))"

text \<open>
  What the heartbeat watchdog of apps/gateway-app/src/hosts/ws-handler.ts does when no heartbeat came
  for 40 seconds: it writes the cache entry past the registry.
\<close>

definition reg_degrade ::
  "'c cache_ops \<Rightarrow> 's store_ops option \<Rightarrow> string \<Rightarrow> string \<Rightarrow> ('c, 's) host_registry \<Rightarrow>
     ('c, 's) host_registry" where
  "reg_degrade C St hostId namespaceId r =
     (case reg_get C St hostId namespaceId r of
        (None, r1) \<Rightarrow> r1
      | (Some host, r1) \<Rightarrow>
          if hd_status host \<noteq> Degraded
          then reg_set C (hostKey namespaceId hostId) (V_host (host\<lparr>hd_status := Degraded\<rparr>)) r1
          else r1)"

section \<open>Invariants\<close>

text \<open>
  A host has at most one connection; it is online only with one, offline and reconnecting only
  without. (A degraded host keeps its connection.)
\<close>

definition live_ok :: "host_descriptor \<Rightarrow> bool" where
  "live_ok d \<longleftrightarrow> length (hd_connections d) \<le> 1 \<and>
     (hd_status d = Online \<longrightarrow> hd_connections d \<noteq> []) \<and>
     (hd_status d = Offline \<or> hd_status d = Reconnecting \<longrightarrow> hd_connections d = [])"

definition own_key :: "host_descriptor \<Rightarrow> string" where
  "own_key d = hostKey (hd_namespaceId d) (hd_hostId d)"

text \<open>The cache's indexes list the host.\<close>

definition indexed :: "'c cache_ops \<Rightarrow> ('c, 's) host_registry \<Rightarrow> host_descriptor \<Rightarrow> bool" where
  "indexed C r d \<longleftrightarrow> hd_hostId d \<in> set (index_list C (indexKey (hd_namespaceId d)) r) \<and>
     hd_namespaceId d \<in> set (index_list C namespacesKey r)"

definition hosts_ok :: "'c cache_ops \<Rightarrow> ('c, 's) host_registry \<Rightarrow> bool" where
  "hosts_ok C r \<longleftrightarrow> cache_typed C (gr_cache r) \<and>
     (\<forall>k d. c_host C (gr_cache r) k = Some d \<longrightarrow> k = own_key d \<and> live_ok d \<and> indexed C r d)"

text \<open>\<open>graceTimers\<close> and the armed timers are the same timers, one per key at most.\<close>

definition armed_key :: "('c, 's) host_registry \<Rightarrow> nat \<Rightarrow> string option" where
  "armed_key r t = map_option (\<lambda>(h, n). graceKey n h) (jm_get (gr_armed r) t)"

definition timers_ok :: "('c, 's) host_registry \<Rightarrow> bool" where
  "timers_ok r \<longleftrightarrow> (\<forall>k t. jm_get (gr_timers r) k = Some t \<longleftrightarrow> armed_key r t = Some k) \<and>
     (\<forall>t. gr_nextTimer r \<le> t \<longrightarrow> armed_key r t = None)"

text \<open>A reconnecting host has its timer running.\<close>

definition grace_ok :: "'c cache_ops \<Rightarrow> ('c, 's) host_registry \<Rightarrow> bool" where
  "grace_ok C r \<longleftrightarrow>
     (\<forall>k d. c_host C (gr_cache r) k = Some d \<and> hd_status d = Reconnecting \<longrightarrow>
        jm_get (gr_timers r) (graceKey (hd_namespaceId d) (hd_hostId d)) \<noteq> None)"

lemma graceKey_iff [simp]: "graceKey n h = graceKey n' h' \<longleftrightarrow> hostKey n h = hostKey n' h'"
  by (simp add: graceKey_def hostKey_def)

lemma own_key_simps [simp]:
  "own_key (d\<lparr>hd_status := st\<rparr>) = own_key d"
  "own_key (d\<lparr>hd_lastSeen := t\<rparr>) = own_key d"
  "own_key (d\<lparr>hd_connections := cs\<rparr>) = own_key d"
  "own_key (d\<lparr>hd_capabilities := caps\<rparr>) = own_key d"
  "own_key (d\<lparr>hd_updatedAt := u\<rparr>) = own_key d"
  "own_key (go_offline d) = own_key d"
  by (simp_all add: own_key_def go_offline_def)

lemma indexed_simps [simp]:
  "indexed C r (d\<lparr>hd_status := st\<rparr>) = indexed C r d"
  "indexed C r (d\<lparr>hd_lastSeen := t\<rparr>) = indexed C r d"
  "indexed C r (d\<lparr>hd_connections := cs\<rparr>) = indexed C r d"
  "indexed C r (d\<lparr>hd_capabilities := caps\<rparr>) = indexed C r d"
  "indexed C r (d\<lparr>hd_updatedAt := u\<rparr>) = indexed C r d"
  "indexed C r (go_offline d) = indexed C r d"
  by (simp_all add: indexed_def go_offline_def)

lemma live_ok_offline [simp]: "live_ok (go_offline d)" "hd_status (go_offline d) = Offline"
  "hd_hostId (go_offline d) = hd_hostId d" "hd_namespaceId (go_offline d) = hd_namespaceId d"
  by (simp_all add: live_ok_def go_offline_def)

subsection \<open>Fields an operation leaves alone\<close>

lemma reg_set_fields [simp]:
  "gr_store (reg_set C k v r) = gr_store r" "gr_timers (reg_set C k v r) = gr_timers r"
  "gr_armed (reg_set C k v r) = gr_armed r" "gr_nextTimer (reg_set C k v r) = gr_nextTimer r"
  "gr_cache (reg_set C k v r) = cset C (gr_cache r) k v None"
  by (simp_all add: reg_set_def)

lemma store_save_fields [simp]:
  "gr_cache (reg_store_save St d now r) = gr_cache r" "gr_timers (reg_store_save St d now r) = gr_timers r"
  "gr_armed (reg_store_save St d now r) = gr_armed r"
  "gr_nextTimer (reg_store_save St d now r) = gr_nextTimer r"
  by (simp_all add: reg_store_save_def split: option.splits)

lemma addToIndex_fields [simp]:
  "gr_store (addToIndex C n h r) = gr_store r" "gr_timers (addToIndex C n h r) = gr_timers r"
  "gr_armed (addToIndex C n h r) = gr_armed r" "gr_nextTimer (addToIndex C n h r) = gr_nextTimer r"
  by (simp_all add: addToIndex_def add_to_list_def Let_def)

lemma clear_grace_fields [simp]:
  "gr_store (clear_grace k r) = gr_store r" "gr_cache (clear_grace k r) = gr_cache r"
  "gr_nextTimer (clear_grace k r) = gr_nextTimer r"
  by (simp_all add: clear_grace_def split: option.splits)

lemma arm_grace_fields [simp]:
  "gr_store (arm_grace h n r) = gr_store r" "gr_cache (arm_grace h n r) = gr_cache r"
  by (simp_all add: arm_grace_def Let_def)

text \<open>The predicates depend on the cache, or the timers, only.\<close>

lemma index_list_cong: "gr_cache r = gr_cache r' \<Longrightarrow> index_list C k r = index_list C k r'"
  by (simp add: index_list_def)

lemma indexed_cong: "gr_cache r = gr_cache r' \<Longrightarrow> indexed C r d = indexed C r' d"
  by (simp add: indexed_def index_list_def)

lemma hosts_ok_cong: "gr_cache r = gr_cache r' \<Longrightarrow> hosts_ok C r = hosts_ok C r'"
  by (simp add: hosts_ok_def indexed_def index_list_def)

lemma timers_ok_cong:
  "gr_timers r = gr_timers r' \<Longrightarrow> gr_armed r = gr_armed r' \<Longrightarrow> gr_nextTimer r = gr_nextTimer r' \<Longrightarrow>
     timers_ok r = timers_ok r'"
  by (simp add: timers_ok_def armed_key_def)

lemma grace_ok_cong:
  "gr_cache r = gr_cache r' \<Longrightarrow> gr_timers r = gr_timers r' \<Longrightarrow> grace_ok C r = grace_ok C r'"
  by (simp add: grace_ok_def)

lemma hosts_okD:
  assumes "hosts_ok C r" "getFromCache C h n r = Some d"
  shows "own_key d = hostKey n h" "live_ok d" "indexed C r d"
  using assms by (auto simp: hosts_ok_def getFromCache_def)

subsection \<open>Timers\<close>

lemma clear_grace_views [simp]:
  "jm_get (gr_timers (clear_grace k r)) k' = (if k' = k then None else jm_get (gr_timers r) k')"
  "armed_key (clear_grace k r) t = (if jm_get (gr_timers r) k = Some t then None else armed_key r t)"
  by (auto simp: clear_grace_def armed_key_def split: option.splits)

lemma arm_grace_views [simp]:
  "jm_get (gr_timers (arm_grace h n r)) k =
     (if k = graceKey n h then Some (gr_nextTimer r) else jm_get (gr_timers r) k)"
  "armed_key (arm_grace h n r) t =
     (if t = gr_nextTimer r then Some (graceKey n h)
      else if jm_get (gr_timers r) (graceKey n h) = Some t then None else armed_key r t)"
  "gr_nextTimer (arm_grace h n r) = Suc (gr_nextTimer r)"
  by (auto simp: arm_grace_def armed_key_def Let_def split: option.splits)

lemma timers_ok_clear: "timers_ok r \<Longrightarrow> timers_ok (clear_grace k r)"
  by (simp add: timers_ok_def)

lemma timers_ok_arm:
  assumes ok: "timers_ok r"
  shows "timers_ok (arm_grace h n r)"
  unfolding timers_ok_def
proof (intro conjI allI impI)
  have K: "jm_get (gr_timers r) k = Some t \<longleftrightarrow> armed_key r t = Some k" for k t
    using ok by (simp add: timers_ok_def)
  have N: "armed_key r t = None" if "gr_nextTimer r \<le> t" for t
    using ok that by (simp add: timers_ok_def)
  fix k t
  show "jm_get (gr_timers (arm_grace h n r)) k = Some t \<longleftrightarrow> armed_key (arm_grace h n r) t = Some k"
    using K [of k t] K [of "graceKey n h" t] N [of t] by (cases "t = gr_nextTimer r") auto
  assume "gr_nextTimer (arm_grace h n r) \<le> t"
  with N [of t] show "armed_key (arm_grace h n r) t = None" by simp
qed

section \<open>The registry over its cache and its store\<close>

text \<open>A registry whose last written host may not be in the indexes yet.\<close>

definition hosts_ok_upto :: "'c cache_ops \<Rightarrow> string \<Rightarrow> string \<Rightarrow> ('c, 's) host_registry \<Rightarrow> bool" where
  "hosts_ok_upto C n h r \<longleftrightarrow> cache_typed C (gr_cache r) \<and>
     (\<forall>k d. c_host C (gr_cache r) k = Some d \<longrightarrow> k = own_key d \<and> live_ok d \<and>
        (indexed C r d \<or> hd_namespaceId d = n \<and> hd_hostId d = h))"

lemma hosts_ok_upto_weaken: "hosts_ok C r \<Longrightarrow> hosts_ok_upto C n h r"
  by (auto simp: hosts_ok_def hosts_ok_upto_def)

lemma hosts_ok_upto_cong: "gr_cache r = gr_cache r' \<Longrightarrow> hosts_ok_upto C n h r = hosts_ok_upto C n h r'"
  by (simp add: hosts_ok_upto_def indexed_def index_list_def)

definition reg_inv :: "'c cache_ops \<Rightarrow> ('s \<Rightarrow> bool) \<Rightarrow> ('c, 's) host_registry \<Rightarrow> bool" where
  "reg_inv C sok r \<longleftrightarrow> sok (gr_store r) \<and> hosts_ok C r \<and> timers_ok r \<and> grace_ok C r"

locale registry_env = icache C + host_store S sok persisted token_of
  for C :: "'c cache_ops" and S :: "'s store_ops" and sok persisted token_of +
  fixes St :: "'s store_ops option"
  assumes store_cases: "St = None \<or> St = Some S"
begin

lemma host_put:
  "c_host C (gr_cache (reg_set C k (V_host d) r)) k' = (if k' = k then Some d else c_host C (gr_cache r) k')"
  by (simp add: read_over_set)

lemma indexed_put:
  "key_family k \<noteq> 3 \<Longrightarrow> key_family k \<noteq> 4 \<Longrightarrow> indexed C (reg_set C k v r) d = indexed C r d"
  by (auto simp: indexed_def index_list_def read_over_set)

lemma family_own [simp]: "key_family (own_key d) = 1"
  by (simp add: own_key_def)

lemma hosts_ok_put:
  assumes "hosts_ok C r" "own_key d = k" "live_ok d" "indexed C r d"
  shows "hosts_ok C (reg_set C k (V_host d) r)"
  using assms by (auto simp: hosts_ok_def host_put indexed_put read_over_set val_ok_def
      intro!: typed_set split: if_splits)

lemma hosts_upto_put:
  assumes "hosts_ok_upto C n h r" "hd_namespaceId d = n" "hd_hostId d = h" "live_ok d"
  shows "hosts_ok_upto C n h (reg_set C (hostKey n h) (V_host d) r)"
  using assms by (auto simp: hosts_ok_upto_def host_put indexed_put read_over_set val_ok_def own_key_def
      intro!: typed_set split: if_splits)

lemma typed_host_family: "cache_typed C c \<Longrightarrow> c_host C c k = Some d \<Longrightarrow> key_family k = 1"
proof -
  assume typed: "cache_typed C c" and "c_host C c k = Some d"
  then have "cget C c k = Some (V_host d)" by (auto simp: c_host_def split: option.splits cval.splits)
  with typed have "val_ok k (V_host d)" by (simp add: cache_typed_def)
  then show ?thesis by (simp add: val_ok_def)
qed

lemma hosts_upto_token:
  assumes "hosts_ok_upto C n h r"
  shows "hosts_ok_upto C n h (reg_set C (tokenKey t) (V_token a b) r)"
  using assms by (auto simp: hosts_ok_upto_def indexed_put read_over_set val_ok_def
      intro!: typed_set split: if_splits)

lemma hosts_ok_token:
  assumes "hosts_ok C r"
  shows "hosts_ok C (reg_set C (tokenKey t) (V_token a b) r)"
  using assms by (auto simp: hosts_ok_def indexed_put read_over_set val_ok_def
      intro!: typed_set split: if_splits)

lemma index_list_add:
  "index_list C k' (add_to_list C k x r) =
     (if k' = k then js_add (index_list C k r) x else index_list C k' r)"
  by (auto simp: add_to_list_def Let_def index_list_def read_over_set js_add_def)

lemma typed_add:
  "key_family k = 3 \<or> key_family k = 4 \<Longrightarrow> cache_typed C (gr_cache r) \<Longrightarrow>
     cache_typed C (gr_cache (add_to_list C k x r))"
  by (auto simp: add_to_list_def Let_def val_ok_def intro!: typed_set)

lemma host_add:
  assumes "key_family k = 3 \<or> key_family k = 4" "cache_typed C (gr_cache r)"
  shows "c_host C (gr_cache (add_to_list C k x r)) k' = c_host C (gr_cache r) k'"
proof -
  have "c_host C (gr_cache r) k = None"
    using typed_host_family [OF assms(2), of k] assms(1) by (cases "c_host C (gr_cache r) k") auto
  then show ?thesis by (simp add: add_to_list_def Let_def read_over_set)
qed

lemma addToIndex_views:
  "index_list C (indexKey n') (addToIndex C n h r) =
     (if n' = n then js_add (index_list C (indexKey n) r) h else index_list C (indexKey n') r)"
  "index_list C namespacesKey (addToIndex C n h r) = js_add (index_list C namespacesKey r) n"
  "cache_typed C (gr_cache r) \<Longrightarrow> cache_typed C (gr_cache (addToIndex C n h r))"
  "cache_typed C (gr_cache r) \<Longrightarrow> c_host C (gr_cache (addToIndex C n h r)) k = c_host C (gr_cache r) k"
  by (simp_all add: addToIndex_def index_list_add typed_add host_add)

lemma hosts_ok_index:
  assumes "hosts_ok_upto C n h r"
  shows "hosts_ok C (addToIndex C n h r)"
  using assms by (auto simp: hosts_ok_def hosts_ok_upto_def addToIndex_views indexed_def)

lemma grace_index: "cache_typed C (gr_cache r) \<Longrightarrow> grace_ok C (addToIndex C n h r) = grace_ok C r"
  by (simp add: grace_ok_def addToIndex_views)

lemma grace_put:
  assumes "grace_ok C r"
    and "hd_status d = Reconnecting \<Longrightarrow>
      jm_get (gr_timers r) (graceKey (hd_namespaceId d) (hd_hostId d)) \<noteq> None"
  shows "grace_ok C (reg_set C k (V_host d) r)"
  using assms by (auto simp: grace_ok_def read_over_set split: if_splits)

lemma grace_token: "grace_ok C r \<Longrightarrow> grace_ok C (reg_set C (tokenKey t) (V_token a b) r)"
  by (auto simp: grace_ok_def read_over_set split: if_splits)

subsection \<open>Every operation keeps the invariant\<close>

lemma inv_parts:
  assumes "reg_inv C sok r"
  shows "sok (gr_store r)" "hosts_ok C r" "timers_ok r" "grace_ok C r"
  using assms by (simp_all add: reg_inv_def)

lemma store_ok_save: "sok (gr_store r) \<Longrightarrow> sok (gr_store (reg_store_save St d now r))"
  using store_cases by (auto simp: reg_store_save_def ok_save)

lemma inv_cong_save:
  "sok (gr_store r) \<Longrightarrow> reg_inv C sok (reg_store_save St d now r) =
     (hosts_ok C r \<and> timers_ok r \<and> grace_ok C r)"
  by (simp add: reg_inv_def store_ok_save hosts_ok_def indexed_def index_list_def timers_ok_def
      armed_key_def grace_ok_def)

lemma timers_put [simp]: "timers_ok (reg_set C k v r) = timers_ok r"
  by (simp add: timers_ok_def armed_key_def)

lemma inv_put:
  assumes "reg_inv C sok r" "own_key d = k" "live_ok d" "indexed C r d"
    and "hd_status d = Reconnecting \<Longrightarrow>
      jm_get (gr_timers r) (graceKey (hd_namespaceId d) (hd_hostId d)) \<noteq> None"
  shows "reg_inv C sok (reg_set C k (V_host d) r)"
  using assms unfolding reg_inv_def by (simp add: hosts_ok_put grace_put)

lemma inv_save: "reg_inv C sok r \<Longrightarrow> reg_inv C sok (reg_store_save St d now r)"
  using inv_cong_save [of r d now] by (simp add: reg_inv_def)

lemma own_grace: "own_key d = hostKey n h \<longleftrightarrow> graceKey (hd_namespaceId d) (hd_hostId d) = graceKey n h"
  by (simp add: own_key_def)

lemma inv_heartbeat:
  assumes "reg_inv C sok r"
  shows "reg_inv C sok (heartbeat C h n now r)"
proof (cases "getFromCache C h n r")
  case (Some d)
  note D = hosts_okD [OF inv_parts(2) [OF assms] Some]
  have g: "hd_status d = Reconnecting \<Longrightarrow>
      jm_get (gr_timers r) (graceKey (hd_namespaceId d) (hd_hostId d)) \<noteq> None"
    using inv_parts(4) [OF assms] Some by (auto simp: grace_ok_def getFromCache_def)
  show ?thesis
    using D g assms Some by (simp add: heartbeat_def) (rule inv_put; simp add: live_ok_def)
qed (simp add: heartbeat_def assms)

lemma inv_setOnline:
  assumes "reg_inv C sok r"
  shows "reg_inv C sok (setOnline C St h n conn now r)"
proof (cases "getFromCache C h n r")
  case (Some d)
  note D = hosts_okD [OF inv_parts(2) [OF assms] Some]
  let ?u = "d\<lparr>hd_status := Online, hd_lastSeen := now, hd_connections := [conn]\<rparr>"
  let ?r1 = "clear_grace (graceKey n h) r"
  have "hosts_ok C ?r1" using inv_parts(2) [OF assms] hosts_ok_cong [of ?r1 r] by simp
  then have "hosts_ok C (reg_set C (hostKey n h) (V_host ?u) ?r1)"
    using D by (intro hosts_ok_put) (simp_all add: live_ok_def indexed_cong [of ?r1 r])
  moreover have "grace_ok C (reg_set C (hostKey n h) (V_host ?u) ?r1)"
    using inv_parts(2,4) [OF assms]
    by (auto simp: grace_ok_def read_over_set hosts_ok_def own_key_def split: if_splits)
  ultimately have "reg_inv C sok (reg_set C (hostKey n h) (V_host ?u) ?r1)"
    using inv_parts [OF assms] by (simp add: reg_inv_def timers_ok_clear)
  then show ?thesis using Some by (simp add: setOnline_def Let_def inv_save)
qed (simp add: setOnline_def assms)

lemma inv_setOffline:
  assumes "reg_inv C sok r"
  shows "reg_inv C sok (setOffline C St h n conn now r)"
proof (cases "getFromCache C h n r")
  case (Some d)
  note D = hosts_okD [OF inv_parts(2) [OF assms] Some]
  let ?cs = "filter (\<lambda>c. c \<noteq> conn) (hd_connections d)"
  show ?thesis
  proof (cases "?cs = []")
    case False
    have "length ?cs \<le> 1" using D(2) length_filter_le [of _ "hd_connections d"] le_trans
      unfolding live_ok_def by blast
    with False D assms Some show ?thesis
      by (simp add: setOffline_def) (rule inv_put; simp add: live_ok_def)
  next
    case True
    let ?u = "d\<lparr>hd_status := Reconnecting, hd_lastSeen := now, hd_connections := []\<rparr>"
    let ?r1 = "reg_store_save St ?u now (reg_set C (hostKey n h) (V_host ?u) r)"
    have h: "hosts_ok C (reg_set C (hostKey n h) (V_host ?u) r)"
      using D inv_parts(2) [OF assms] by (intro hosts_ok_put) (simp_all add: live_ok_def)
    have "hosts_ok C (arm_grace h n ?r1)"
      using h hosts_ok_cong [of "arm_grace h n ?r1" "reg_set C (hostKey n h) (V_host ?u) r" C] by simp
    moreover have "timers_ok (arm_grace h n ?r1)"
      using inv_parts(3) [OF assms] timers_ok_cong [of ?r1 r] by (intro timers_ok_arm) simp
    moreover have "grace_ok C (arm_grace h n ?r1)"
      using inv_parts(4) [OF assms] D(1) by (auto simp: grace_ok_def read_over_set own_key_def)
    ultimately have "reg_inv C sok (arm_grace h n ?r1)"
      using inv_parts(1) [OF assms] by (simp add: reg_inv_def store_ok_save)
    with True Some show ?thesis by (simp add: setOffline_def Let_def)
  qed
qed (simp add: setOffline_def assms)

lemma expires_is_clear:
  assumes "timers_ok r" "jm_get (gr_armed r) t = Some (h, n)"
  shows "r\<lparr>gr_armed := jm_delete (gr_armed r) t, gr_timers := jm_delete (gr_timers r) (graceKey n h)\<rparr> =
    clear_grace (graceKey n h) r"
proof -
  have "armed_key r t = Some (graceKey n h)" using assms(2) by (simp add: armed_key_def)
  then have "jm_get (gr_timers r) (graceKey n h) = Some t" using assms(1) by (simp add: timers_ok_def)
  then show ?thesis by (simp add: clear_grace_def)
qed

lemma inv_clear:
  assumes "reg_inv C sok r"
    and "\<And>d. c_host C (gr_cache r) (hostKey n h) = Some d \<Longrightarrow> hd_status d \<noteq> Reconnecting"
  shows "reg_inv C sok (clear_grace (graceKey n h) r)"
proof -
  have "hosts_ok C (clear_grace (graceKey n h) r)"
    using inv_parts(2) [OF assms(1)] hosts_ok_cong [of "clear_grace (graceKey n h) r" r] by simp
  moreover have "grace_ok C (clear_grace (graceKey n h) r)"
    using inv_parts(2,4) [OF assms(1)] assms(2)
    by (auto simp: grace_ok_def hosts_ok_def own_key_def)
  ultimately show ?thesis using inv_parts [OF assms(1)] by (simp add: reg_inv_def timers_ok_clear)
qed

text \<open>Writing a host that is not reconnecting and clearing its timer commute.\<close>

lemma put_clear:
  "reg_set C k v (clear_grace g r) = clear_grace g (reg_set C k v r)"
  by (simp add: reg_set_def clear_grace_def split: option.splits)

lemma inv_grace_expires:
  assumes "reg_inv C sok r"
  shows "reg_inv C sok (grace_expires C St t now r)"
proof (cases "jm_get (gr_armed r) t")
  case (Some p)
  then obtain h n where hn: "jm_get (gr_armed r) t = Some (h, n)" by (cases p) auto
  note clear = expires_is_clear [OF inv_parts(3) [OF assms] hn]
  have from_clear: "getFromCache C h n (clear_grace (graceKey n h) r) = getFromCache C h n r"
    by (simp add: getFromCache_def)
  show ?thesis
  proof (cases "getFromCache C h n r")
    case None
    then have "reg_inv C sok (clear_grace (graceKey n h) r)"
      by (intro inv_clear assms) (simp add: getFromCache_def)
    with None hn clear from_clear show ?thesis by (simp add: grace_expires_def)
  next
    case (Some d)
    note D = hosts_okD [OF inv_parts(2) [OF assms] Some]
    let ?u = "d\<lparr>hd_status := Offline, hd_lastSeen := now\<rparr>"
    show ?thesis
    proof (cases "hd_status d = Reconnecting")
      case True
      have "reg_inv C sok (reg_set C (hostKey n h) (V_host ?u) r)"
        using D True by (intro inv_put assms) (simp_all add: live_ok_def)
      then have "reg_inv C sok (clear_grace (graceKey n h) (reg_set C (hostKey n h) (V_host ?u) r))"
        by (rule inv_clear) (auto simp: read_over_set)
      then show ?thesis
        using Some True hn clear from_clear by (simp add: grace_expires_def Let_def put_clear inv_save)
    next
      case False
      then have "reg_inv C sok (clear_grace (graceKey n h) r)"
        using Some by (intro inv_clear assms) (simp add: getFromCache_def)
      with False Some hn clear from_clear show ?thesis by (simp add: grace_expires_def)
    qed
  qed
qed (simp add: grace_expires_def assms)

lemma inv_cong_store:
  "reg_inv C sok r \<Longrightarrow> sok s' \<Longrightarrow> reg_inv C sok (r\<lparr>gr_store := s'\<rparr>)"
  using hosts_ok_cong [of "r\<lparr>gr_store := s'\<rparr>" r C] timers_ok_cong [of "r\<lparr>gr_store := s'\<rparr>" r]
    grace_ok_cong [of "r\<lparr>gr_store := s'\<rparr>" r C]
  by (simp add: reg_inv_def)

lemma inv_put_index:
  assumes "reg_inv C sok r" "hd_namespaceId d = n" "hd_hostId d = h" "live_ok d"
    "hd_status d \<noteq> Reconnecting"
  shows "reg_inv C sok (addToIndex C n h (reg_set C (hostKey n h) (V_host d) r))"
proof -
  have up: "hosts_ok_upto C n h (reg_set C (hostKey n h) (V_host d) r)"
    using assms inv_parts(2) by (intro hosts_upto_put) (simp_all add: hosts_ok_upto_weaken)
  then have typed: "cache_typed C (gr_cache (reg_set C (hostKey n h) (V_host d) r))"
    by (simp add: hosts_ok_upto_def)
  have "grace_ok C (reg_set C (hostKey n h) (V_host d) r)"
    using assms inv_parts(4) by (intro grace_put) auto
  then have "grace_ok C (addToIndex C n h (reg_set C (hostKey n h) (V_host d) r))"
    using grace_index [OF typed] by simp
  moreover have "timers_ok (addToIndex C n h (reg_set C (hostKey n h) (V_host d) r))"
    using inv_parts(3) [OF assms(1)] by (simp add: timers_ok_def armed_key_def)
  ultimately show ?thesis using hosts_ok_index [OF up] inv_parts(1) [OF assms(1)] by (simp add: reg_inv_def)
qed

lemma inv_token:
  assumes "reg_inv C sok r"
  shows "reg_inv C sok (reg_set C (tokenKey t) (V_token a b) r)"
  using assms by (simp add: reg_inv_def hosts_ok_token grace_token)

lemma inv_reg_get:
  assumes "reg_inv C sok r"
  shows "reg_inv C sok (snd (reg_get C St h n r))"
proof (cases "getFromCache C h n r")
  case None
  show ?thesis
  proof (cases St)
    case (Some S')
    then have S': "S' = S" using store_cases by simp
    have s: "sok (snd (s_get S h n (gr_store r)))" using ok_get inv_parts(1) [OF assms] by blast
    show ?thesis
    proof (cases "fst (s_get S h n (gr_store r))")
      case (Some d)
      then have "persisted (gr_store r) n h = Some d" using get_res inv_parts(1) [OF assms] by simp
      then have "hd_namespaceId d = n" "hd_hostId d = h" using keyed inv_parts(1) [OF assms] by blast+
      then have "reg_inv C sok (addToIndex C n h (reg_set C (hostKey n h) (V_host (go_offline d))
          (r\<lparr>gr_store := snd (s_get S h n (gr_store r))\<rparr>)))"
        by (intro inv_put_index inv_cong_store assms s) simp_all
      with \<open>St = Some S'\<close> S' None Some show ?thesis by (simp add: reg_get_def case_prod_unfold)
    qed (use Some S' None assms s inv_cong_store in \<open>simp add: reg_get_def case_prod_unfold\<close>)
  qed (simp add: reg_get_def None assms)
qed (simp add: reg_get_def assms)

lemma inv_resolveToken:
  assumes "reg_inv C sok r"
  shows "reg_inv C sok (snd (reg_resolveToken C St t r))"
proof (cases "c_token C (gr_cache r) (tokenKey t)")
  case None
  have "sok (snd (s_resolveToken S t (gr_store r)))" using ok_resolveToken inv_parts(1) [OF assms] by blast
  with store_cases None assms show ?thesis
    by (auto simp: reg_resolveToken_def case_prod_unfold inv_token inv_cong_store split: option.splits)
qed (simp add: reg_resolveToken_def assms)

lemma inv_list:
  assumes "reg_inv C sok r"
  shows "reg_inv C sok (snd (reg_list C St n r))"
  using assms store_cases ok_list inv_parts(1) [OF assms]
  by (auto simp: reg_list_def Let_def case_prod_unfold inv_cong_store split: option.splits)

lemma inv_register:
  assumes "reg_inv C sok r"
  shows "reg_inv C sok (snd (reg_register C St uuid tok now reg r))"
proof -
  let ?h = "make_host_id uuid" and ?n = "hr_namespaceId reg"
  let ?d = "\<lparr>hd_hostId = ?h, hd_name = hr_name reg, hd_namespaceId = ?n,
            hd_capabilities = hr_capabilities reg, hd_status = Offline, hd_lastSeen = now,
            hd_connections = [], hd_hostType = hr_hostType reg, hd_workspaces = None, hd_plugins = None,
            hd_createdAt = Some now, hd_updatedAt = Some now\<rparr>"
  have main: "reg_inv C sok (addToIndex C ?n ?h (reg_set C (tokenKey tok) (V_token ?h ?n)
      (reg_set C (hostKey ?n ?h) (V_host ?d) r')))" if r': "reg_inv C sok r'" for r'
  proof -
    have up: "hosts_ok_upto C ?n ?h (reg_set C (tokenKey tok) (V_token ?h ?n)
        (reg_set C (hostKey ?n ?h) (V_host ?d) r'))"
      using inv_parts(2) [OF r']
      by (intro hosts_upto_token hosts_upto_put) (simp_all add: hosts_ok_upto_weaken live_ok_def)
    have "grace_ok C (reg_set C (tokenKey tok) (V_token ?h ?n) (reg_set C (hostKey ?n ?h) (V_host ?d) r'))"
      using inv_parts(4) [OF r'] by (intro grace_token grace_put) auto
    with up have "grace_ok C (addToIndex C ?n ?h (reg_set C (tokenKey tok) (V_token ?h ?n)
        (reg_set C (hostKey ?n ?h) (V_host ?d) r')))"
      by (subst grace_index) (simp_all add: hosts_ok_upto_def)
    moreover have "timers_ok (addToIndex C ?n ?h (reg_set C (tokenKey tok) (V_token ?h ?n)
        (reg_set C (hostKey ?n ?h) (V_host ?d) r')))"
      using inv_parts(3) [OF r'] by (simp add: timers_ok_def armed_key_def)
    ultimately show ?thesis using hosts_ok_index [OF up] inv_parts(1) [OF r'] by (simp add: reg_inv_def)
  qed
  have s: "sok (s_saveToken S tok ?h ?n now (s_save S ?d now (gr_store r)))"
    using inv_parts(1) [OF assms] by (intro ok_saveToken ok_save)
  show ?thesis
    using store_cases main [OF assms] main [OF inv_cong_store [OF assms s]]
    by (auto simp: reg_register_def Let_def)
qed

lemma inv_delete_host:
  assumes "reg_inv C sok r"
  shows "reg_inv C sok (removeFromIndex C n h (r\<lparr>gr_cache := cdelete C (gr_cache r) (hostKey n h)\<rparr>))"
    (is "reg_inv C sok ?r")
proof -
  have host: "c_host C (gr_cache ?r) k =
      (if k = hostKey n h \<or> k = indexKey n then None else c_host C (gr_cache r) k)" for k
    by (simp add: removeFromIndex_def read_over_set read_over_delete)
  have typed: "cache_typed C (gr_cache ?r)"
    using inv_parts(2) [OF assms]
    by (auto simp: removeFromIndex_def hosts_ok_def val_ok_def intro!: typed_set typed_delete)
  have ns: "index_list C namespacesKey ?r = index_list C namespacesKey r"
    "index_list C (indexKey n') ?r =
       (if n' = n then filter (\<lambda>x. x \<noteq> h) (index_list C (indexKey n) r) else index_list C (indexKey n') r)" for n'
    by (simp_all add: removeFromIndex_def index_list_def read_over_set read_over_delete)
  have "indexed C ?r d" if "c_host C (gr_cache ?r) k = Some d" for k d
  proof -
    from that host have "k \<noteq> hostKey n h" "c_host C (gr_cache r) k = Some d" by (auto split: if_splits)
    with inv_parts(2) [OF assms] have "own_key d \<noteq> hostKey n h" "indexed C r d"
      by (auto simp: hosts_ok_def)
    then show ?thesis by (auto simp: indexed_def ns own_key_def)
  qed
  then have "hosts_ok C ?r"
    using inv_parts(2) [OF assms] typed host by (auto simp: hosts_ok_def split: if_splits)
  moreover have "grace_ok C ?r"
    using inv_parts(4) [OF assms]
    by (auto simp: grace_ok_def host split: if_splits) (auto simp: removeFromIndex_def)
  moreover have "timers_ok ?r" "gr_store ?r = gr_store r"
    using inv_parts(3) [OF assms] by (simp_all add: removeFromIndex_def timers_ok_def armed_key_def)
  ultimately show ?thesis using inv_parts(1) [OF assms] by (simp add: reg_inv_def)
qed

lemma inv_deregister:
  assumes "reg_inv C sok r"
  shows "reg_inv C sok (snd (deregister C St h n r))"
proof -
  have s: "sok (snd (s_delete S h n (gr_store r)))" using ok_delete inv_parts(1) [OF assms] by blast
  show ?thesis
    using store_cases inv_delete_host [OF assms, of n h]
      inv_delete_host [OF inv_cong_store [OF assms s], of n h]
    by (auto simp: deregister_def case_prod_unfold Let_def)
qed

lemma reg_get_cached:
  assumes "reg_inv C sok r" "fst (reg_get C St h n r) = Some d"
  shows "getFromCache C h n (snd (reg_get C St h n r)) = Some d"
proof (cases "getFromCache C h n r")
  case (Some d')
  with assms(2) show ?thesis by (simp add: reg_get_def)
next
  case None
  with assms(2) store_cases have St: "St = Some S" by (auto simp: reg_get_def)
  with None assms(2) obtain d' where d': "fst (s_get S h n (gr_store r)) = Some d'" "d = go_offline d'"
    by (auto simp: reg_get_def case_prod_unfold split: option.splits)
  let ?r = "reg_set C (hostKey n h) (V_host (go_offline d')) (r\<lparr>gr_store := snd (s_get S h n (gr_store r))\<rparr>)"
  have "cache_typed C (gr_cache ?r)"
    using inv_parts(2) [OF assms(1)] by (auto simp: hosts_ok_def val_ok_def intro!: typed_set)
  then have "c_host C (gr_cache (addToIndex C n h ?r)) (hostKey n h) = Some d"
    by (simp only: addToIndex_views host_put d') simp
  with St None d' show ?thesis by (simp add: reg_get_def case_prod_unfold getFromCache_def)
qed

lemma inv_ensureRegistered:
  assumes "reg_inv C sok r"
  shows "reg_inv C sok (ensureRegistered C St h n name caps now r)"
proof -
  obtain res r1 where g: "reg_get C St h n r = (res, r1)" by (cases "reg_get C St h n r")
  then have i: "reg_inv C sok r1" using inv_reg_get [OF assms, of h n] by simp
  show ?thesis
  proof (cases res)
    case None
    with g i show ?thesis
      by (simp add: ensureRegistered_def Let_def) (intro inv_put_index inv_save; simp add: live_ok_def)
  next
    case (Some d)
    then have d: "getFromCache C h n r1 = Some d" using reg_get_cached [OF assms, of h n d] g by simp
    note D = hosts_okD [OF inv_parts(2) [OF i] d]
    let ?u = "d\<lparr>hd_capabilities := caps, hd_updatedAt := Some now\<rparr>"
    let ?r2 = "reg_store_save St ?u now r1"
    have "hd_status ?u = Reconnecting \<Longrightarrow>
        jm_get (gr_timers ?r2) (graceKey (hd_namespaceId ?u) (hd_hostId ?u)) \<noteq> None"
      using inv_parts(4) [OF i] d by (auto simp: grace_ok_def getFromCache_def)
    then have "reg_inv C sok (reg_set C (hostKey n h) (V_host ?u) ?r2)"
      using D by (intro inv_put inv_save i) (simp_all add: live_ok_def indexed_cong [of ?r2 r1])
    with Some g i show ?thesis by (simp add: ensureRegistered_def Let_def)
  qed
qed

lemma inv_degrade:
  assumes "reg_inv C sok r"
  shows "reg_inv C sok (reg_degrade C St h n r)"
proof -
  obtain res r1 where g: "reg_get C St h n r = (res, r1)" by (cases "reg_get C St h n r")
  then have i: "reg_inv C sok r1" using inv_reg_get [OF assms, of h n] by simp
  show ?thesis
  proof (cases res)
    case (Some d)
    then have d: "getFromCache C h n r1 = Some d" using reg_get_cached [OF assms, of h n d] g by simp
    note D = hosts_okD [OF inv_parts(2) [OF i] d]
    have "reg_inv C sok (reg_set C (hostKey n h) (V_host (d\<lparr>hd_status := Degraded\<rparr>)) r1)"
      using D by (intro inv_put i) (simp_all add: live_ok_def)
    with Some g i show ?thesis by (simp add: reg_degrade_def)
  qed (use g i in \<open>simp add: reg_degrade_def\<close>)
qed

end

section \<open>Start-up\<close>

definition stale :: "host_descriptor \<Rightarrow> host_descriptor" where
  "stale d = (if hd_status d = Online \<or> hd_status d = Reconnecting then go_offline d else d)"

text \<open>The registry after the hosts under some keys have been reset, everything else as before.\<close>

definition reset_on :: "'c cache_ops \<Rightarrow> string set \<Rightarrow> ('c, 's) host_registry \<Rightarrow> ('c, 's) host_registry \<Rightarrow> bool" where
  "reset_on C K r r' \<longleftrightarrow> cache_typed C (gr_cache r') \<and> gr_store r' = gr_store r \<and> gr_timers r' = gr_timers r \<and>
     gr_armed r' = gr_armed r \<and> gr_nextTimer r' = gr_nextTimer r \<and>
     (\<forall>k. c_host C (gr_cache r') k =
        (if k \<in> K then map_option stale (c_host C (gr_cache r) k) else c_host C (gr_cache r) k)) \<and>
     (\<forall>k. key_family k = 3 \<or> key_family k = 4 \<longrightarrow> index_list C k r' = index_list C k r)"

lemma stale_stale [simp]: "stale (stale d) = stale d"
  by (simp add: stale_def)

lemma stale_simps [simp]:
  "own_key (stale d) = own_key d" "indexed C r (stale d) = indexed C r d"
  "hd_status (stale d) \<noteq> Online" "hd_status (stale d) \<noteq> Reconnecting"
  by (simp_all add: stale_def)

lemma live_ok_stale: "live_ok d \<Longrightarrow> live_ok (stale d)"
  by (simp add: stale_def)

lemma reset_on_refl: "cache_typed C (gr_cache r) \<Longrightarrow> reset_on C {} r r"
  by (simp add: reset_on_def)

lemma reset_on_trans:
  assumes "reset_on C K r r1" "reset_on C K' r1 r2"
  shows "reset_on C (K \<union> K') r r2"
  using assms by (simp add: reset_on_def option.map_comp comp_def)

lemma reset_on_typed: "reset_on C K r r' \<Longrightarrow> cache_typed C (gr_cache r')"
  by (simp add: reset_on_def)

context icache
begin

lemma reset_host_on:
  assumes "cache_typed C (gr_cache r)"
  shows "reset_on C {hostKey n h} r (reset_host C n h r)"
  using assms
  by (auto simp: reset_on_def reset_host_def getFromCache_def stale_def read_over_set index_list_def
      val_ok_def split: option.splits intro!: typed_set)

lemma reset_hosts_on:
  "cache_typed C (gr_cache r) \<Longrightarrow>
     reset_on C ((\<lambda>h. hostKey n h) ` set hs) r (fold (reset_host C n) hs r)"
proof (induction hs arbitrary: r)
  case Nil
  then show ?case by (simp add: reset_on_refl)
next
  case (Cons h hs)
  note one = reset_host_on [OF Cons.prems, of n h]
  from reset_on_trans [OF one Cons.IH [OF reset_on_typed [OF one]]] show ?case by simp
qed

lemma reset_namespaces_on:
  "cache_typed C (gr_cache r) \<Longrightarrow>
     reset_on C {k. \<exists>n\<in>set ns. \<exists>h\<in>set (index_list C (indexKey n) r). k = hostKey n h} r
       (fold (reset_namespace C) ns r)"
proof (induction ns arbitrary: r)
  case Nil
  then show ?case by (simp add: reset_on_refl)
next
  case (Cons n ns)
  let ?r = "reset_namespace C n r"
  have one: "reset_on C ((\<lambda>h. hostKey n h) ` set (index_list C (indexKey n) r)) r ?r"
    using reset_hosts_on [OF Cons.prems] by (simp add: reset_namespace_def)
  then have "index_list C (indexKey n') ?r = index_list C (indexKey n') r" for n'
    by (simp add: reset_on_def)
  with reset_on_trans [OF one Cons.IH [OF reset_on_typed [OF one]]]
  show ?case by (simp add: image_def Un_def disj_commute)
qed

text \<open>Every cached host is indexed, so the reset reaches all of them.\<close>

lemma resetStaleHosts_all:
  assumes "hosts_ok C r"
  shows "reset_on C UNIV r (resetStaleHosts C r)"
proof -
  have typed: "cache_typed C (gr_cache r)" using assms by (simp add: hosts_ok_def)
  let ?ns = "or_else (c_strings C (gr_cache r) namespacesKey) [''default'']"
  let ?K = "{k. \<exists>n\<in>set ?ns. \<exists>h\<in>set (index_list C (indexKey n) r). k = hostKey n h}"
  have "k \<in> ?K" if "c_host C (gr_cache r) k = Some d" for k d
  proof -
    from that assms have k: "k = own_key d" "indexed C r d" by (auto simp: hosts_ok_def)
    then have "hd_namespaceId d \<in> set ?ns"
      by (auto simp: indexed_def index_list_def or_else_def split: option.splits)
    with k show ?thesis by (auto simp: indexed_def own_key_def)
  qed
  then have "(if k \<in> ?K then map_option stale (c_host C (gr_cache r) k) else c_host C (gr_cache r) k) =
      map_option stale (c_host C (gr_cache r) k)" for k
    by (cases "c_host C (gr_cache r) k") auto
  with reset_namespaces_on [OF typed, of ?ns] show ?thesis
    by (simp add: reset_on_def resetStaleHosts_def)
qed

end

definition stored_hosts :: "'s store_ops option \<Rightarrow> ('c, 's) host_registry \<Rightarrow> host_descriptor list" where
  "stored_hosts St r = (case St of None \<Rightarrow> [] | Some S \<Rightarrow> fst (s_listAll S (gr_store r)))"

context registry_env
begin

lemma hosts_ok_reset:
  assumes "hosts_ok C r" "reset_on C UNIV r r'"
  shows "hosts_ok C r'"
proof -
  have ix: "indexed C r' d = indexed C r d" for d using assms(2) by (simp add: reset_on_def indexed_def)
  show ?thesis
    using assms by (auto simp: hosts_ok_def reset_on_def ix live_ok_stale)
qed

lemma inv_after_reset:
  assumes "hosts_ok C r" "sok (gr_store r)" "gr_timers r = []" "gr_armed r = []"
  shows "reg_inv C sok (resetStaleHosts C r)"
proof -
  note R = resetStaleHosts_all [OF assms(1)]
  have "grace_ok C (resetStaleHosts C r)" using R by (auto simp: grace_ok_def reset_on_def)
  moreover have "timers_ok (resetStaleHosts C r)"
    using R assms(3,4) by (simp add: reset_on_def timers_ok_def armed_key_def)
  ultimately show ?thesis using hosts_ok_reset [OF assms(1) R] R assms(2)
    by (simp add: reg_inv_def reset_on_def)
qed

lemma restore_host_alt:
  "restore_host C S now d r = addToIndex C (hd_namespaceId d) (hd_hostId d)
     (reg_set C (hostKey (hd_namespaceId d) (hd_hostId d)) (V_host (go_offline d))
       (reg_store_save (Some S) (go_offline d) now r))"
  by (cases r) (simp add: restore_host_def reg_set_def reg_store_save_def Let_def)

lemma inv_restore_host:
  assumes "reg_inv C sok r"
  shows "reg_inv C sok (restore_host C S now d r)"
proof -
  have "reg_inv C sok (reg_store_save (Some S) (go_offline d) now r)"
    using assms inv_parts(1) [OF assms] ok_save
    by (simp add: reg_store_save_def inv_cong_store)
  then show ?thesis unfolding restore_host_alt by (intro inv_put_index) simp_all
qed

lemma restore_host_view:
  assumes "reg_inv C sok r"
  shows "c_host C (gr_cache (restore_host C S now d r)) k =
    (if k = own_key d then Some (go_offline d) else c_host C (gr_cache r) k)"
proof -
  have "cache_typed C (gr_cache (reg_set C (hostKey (hd_namespaceId d) (hd_hostId d)) (V_host (go_offline d))
       (reg_store_save (Some S) (go_offline d) now r)))"
    using inv_parts(2) [OF assms] by (auto simp: hosts_ok_def val_ok_def intro!: typed_set)
  then show ?thesis unfolding restore_host_alt by (simp add: addToIndex_views read_over_set own_key_def)
qed

lemma restore_hosts:
  assumes "reg_inv C sok r"
  shows "reg_inv C sok (fold (restore_host C S now) ds r) \<and>
    (\<forall>k. c_host C (gr_cache (fold (restore_host C S now) ds r)) k =
       (case rev (filter (\<lambda>d. own_key d = k) ds) of [] \<Rightarrow> c_host C (gr_cache r) k | d # _ \<Rightarrow> Some (go_offline d)))"
  using assms
proof (induction ds rule: rev_induct)
  case Nil
  then show ?case by simp
next
  case (snoc d ds)
  then have "reg_inv C sok (fold (restore_host C S now) ds r)" by blast
  with snoc show ?case by (auto simp: inv_restore_host restore_host_view)
qed

text \<open>What \<open>restore\<close> leaves in the cache: the stored hosts offline, the other cached hosts reset.\<close>

lemma restore_facts:
  assumes "hosts_ok C r" "sok (gr_store r)" "gr_timers r = []" "gr_armed r = []"
  shows "reg_inv C sok (snd (restore C St now r)) \<and>
    fst (restore C St now r) = length (stored_hosts St r) \<and>
    (\<forall>k. c_host C (gr_cache (snd (restore C St now r))) k =
       (case rev (filter (\<lambda>d. own_key d = k) (stored_hosts St r)) of
          [] \<Rightarrow> map_option stale (c_host C (gr_cache r) k) | d # _ \<Rightarrow> Some (go_offline d)))"
proof -
  note R = resetStaleHosts_all [OF assms(1)]
  have st: "gr_store (resetStaleHosts C r) = gr_store r" using R by (simp add: reset_on_def)
  have view: "c_host C (gr_cache (resetStaleHosts C r)) k = map_option stale (c_host C (gr_cache r) k)" for k
    using R by (simp add: reset_on_def)
  have i: "reg_inv C sok (resetStaleHosts C r)" by (rule inv_after_reset [OF assms])
  show ?thesis
  proof (cases St)
    case None
    then show ?thesis using i view by (simp add: restore_def stored_hosts_def)
  next
    case (Some S')
    then have St: "St = Some S" using store_cases by simp
    let ?r = "(resetStaleHosts C r)\<lparr>gr_store := snd (s_listAll S (gr_store r))\<rparr>"
    have "reg_inv C sok ?r" using i ok_listAll [OF assms(2)] by (rule inv_cong_store)
    from restore_hosts [OF this, of now "fst (s_listAll S (gr_store r))"] St st view
    show ?thesis
      by (simp add: restore_def stored_hosts_def case_prod_unfold Let_def split: list.split)
  qed
qed

end

end
