(* ===== verification/Host_Lifecycle.thy ===== *)
theory Host_Lifecycle
  imports Host_Registry
begin

text \<open>
  What the host registry promises over the life of a host: its step relation, the interpretation of
  the registry's environment on the repository's own cache and store, and the properties of
  apps/gateway-app/src/hosts/registry.ts. The cache stays a parameter \<open>C\<close> with the laws of
  \<open>icache\<close>; the store, where there is one, is \<open>SqliteHostStore\<close>.
\<close>

inductive reg_step ::
  "'c cache_ops \<Rightarrow> 's store_ops option \<Rightarrow> ('c, 's) host_registry \<Rightarrow> ('c, 's) host_registry \<Rightarrow> bool"
  for C :: "'c cache_ops" and St :: "'s store_ops option" where
  "reg_step C St r (snd (reg_register C St uuid tok now reg r))"
| "reg_step C St r (setOnline C St h n conn now r)"
| "reg_step C St r (setOffline C St h n conn now r)"
| "reg_step C St r (grace_expires C St t now r)"
| "reg_step C St r (heartbeat C h n now r)"
| "reg_step C St r (snd (reg_get C St h n r))"
| "reg_step C St r (snd (reg_resolveToken C St tok r))"
| "reg_step C St r (snd (reg_list C St n r))"
| "reg_step C St r (snd (deregister C St h n r))"
| "reg_step C St r (ensureRegistered C St h n name caps now r)"
| "reg_step C St r (reg_degrade C St h n r)"

context registry_env
begin

lemma inv_step: "reg_step C St r r' \<Longrightarrow> reg_inv C sok r \<Longrightarrow> reg_inv C sok r'"
  by (induction rule: reg_step.induct)
    (simp_all add: inv_register inv_setOnline inv_setOffline inv_grace_expires inv_heartbeat
      inv_reg_get inv_resolveToken inv_list inv_deregister inv_ensureRegistered inv_degrade)

lemma inv_steps: "(reg_step C St)\<^sup>*\<^sup>* r r' \<Longrightarrow> reg_inv C sok r \<Longrightarrow> reg_inv C sok r'"
  by (induction rule: rtranclp_induct) (auto intro: inv_step)

lemma timer_of_reconnecting:
  assumes i: "reg_inv C sok r" and d: "getFromCache C h n r = Some d" "hd_status d = Reconnecting"
  obtains t h' n' where "jm_get (gr_timers r) (graceKey n h) = Some t"
    "jm_get (gr_armed r) t = Some (h', n')" "hostKey n' h' = hostKey n h"
proof -
  have "graceKey (hd_namespaceId d) (hd_hostId d) = graceKey n h"
    using hosts_okD(1) [OF inv_parts(2) [OF i] d(1)] by (simp add: own_key_def)
  then obtain t where t: "jm_get (gr_timers r) (graceKey n h) = Some t"
    using inv_parts(4) [OF i] d unfolding grace_ok_def getFromCache_def by (metis not_None_eq)
  then have "armed_key r t = Some (graceKey n h)" using inv_parts(3) [OF i] by (simp add: timers_ok_def)
  then obtain h' n' where "jm_get (gr_armed r) t = Some (h', n')" "graceKey n' h' = graceKey n h"
    by (auto simp: armed_key_def)
  with t that show ?thesis by simp
qed

lemma online_view:
  "getFromCache C h n r = Some d \<Longrightarrow>
     getFromCache C h n (setOnline C St h n conn now r) =
       Some (d\<lparr>hd_status := Online, hd_lastSeen := now, hd_connections := [conn]\<rparr>)"
  by (simp add: setOnline_def getFromCache_def Let_def read_over_set)

lemma expires_view:
  assumes "jm_get (gr_armed r) t = Some (h', n')" "hostKey n' h' = hostKey n h"
    "getFromCache C h n r = Some d" "hd_status d = Reconnecting"
  shows "getFromCache C h n (grace_expires C St t now r) =
    Some (d\<lparr>hd_status := Offline, hd_lastSeen := now\<rparr>)"
  using assms by (simp add: grace_expires_def getFromCache_def Let_def read_over_set)

lemma online_disarms:
  assumes "timers_ok r" "jm_get (gr_timers r) (graceKey n h) = Some t" "getFromCache C h n r = Some d"
  shows "grace_expires C St t now' (setOnline C St h n conn now r) = setOnline C St h n conn now r"
proof -
  have "jm_get (gr_armed (setOnline C St h n conn now r)) t = None"
    using assms(2,3) by (simp add: setOnline_def Let_def clear_grace_def)
  then show ?thesis by (simp add: grace_expires_def)
qed

lemma heartbeat_status:
  "getFromCache C h n r = Some d \<Longrightarrow>
     getFromCache C h n (heartbeat C h n now r) = Some (d\<lparr>hd_lastSeen := now\<rparr>)"
  by (simp add: heartbeat_def getFromCache_def read_over_set)

lemma delete_view:
  "getFromCache C h n (snd (deregister C St h n r)) = None"
  "c_token C (gr_cache (snd (deregister C St h n r))) (tokenKey t) = c_token C (gr_cache r) (tokenKey t)"
  by (auto simp: deregister_def removeFromIndex_def getFromCache_def case_prod_unfold Let_def
      read_over_set read_over_delete split: option.splits)

lemma register_view:
  fixes reg :: host_registration and uuid tok :: string and now :: int
  assumes "reg_inv C sok r"
  defines "hid \<equiv> make_host_id uuid" and "ns \<equiv> hr_namespaceId reg"
  defines "p \<equiv> reg_register C St uuid tok now reg r"
  shows "fst (fst p) = \<lparr>hd_hostId = hid, hd_name = hr_name reg, hd_namespaceId = ns,
            hd_capabilities = hr_capabilities reg, hd_status = Offline, hd_lastSeen = now,
            hd_connections = [], hd_hostType = hr_hostType reg, hd_workspaces = None, hd_plugins = None,
            hd_createdAt = Some now, hd_updatedAt = Some now\<rparr>"
    and "St \<noteq> None \<Longrightarrow> token_of (gr_store (snd p)) tok = Some (hid, ns)"
    and "St \<noteq> None \<Longrightarrow> \<exists>d'. persisted (gr_store (snd p)) ns hid = Some d' \<and> same_host (fst (fst p)) d'"
proof -
  show d: "fst (fst p) = \<lparr>hd_hostId = hid, hd_name = hr_name reg, hd_namespaceId = ns,
            hd_capabilities = hr_capabilities reg, hd_status = Offline, hd_lastSeen = now,
            hd_connections = [], hd_hostType = hr_hostType reg, hd_workspaces = None, hd_plugins = None,
            hd_createdAt = Some now, hd_updatedAt = Some now\<rparr>"
    by (simp add: p_def reg_register_def Let_def hid_def ns_def)
  assume "St \<noteq> None"
  then have st: "gr_store (snd p) = s_saveToken S tok hid ns now (s_save S (fst (fst p)) now (gr_store r))"
    using store_cases d by (auto simp: p_def reg_register_def Let_def hid_def ns_def)
  have ids: "hd_namespaceId (fst (fst p)) = ns" "hd_hostId (fst (fst p)) = hid" by (simp_all add: d)
  have ok: "sok (s_save S (fst (fst p)) now (gr_store r))"
    using inv_parts(1) [OF assms(1)] by (rule ok_save)
  show "token_of (gr_store (snd p)) tok = Some (hid, ns)"
    by (simp add: st saveToken_tokens [OF ok])
  show "\<exists>d'. persisted (gr_store (snd p)) ns hid = Some d' \<and> same_host (fst (fst p)) d'"
    using save_new [OF inv_parts(1) [OF assms(1)], of "fst (fst p)" now]
    unfolding st saveToken_hosts [OF ok] ids .
qed

text \<open>A registry whose cache holds nothing answers from the store.\<close>

lemma cold_reads:
  assumes "sok (gr_store r)" "St = Some S"
    "\<And>k. c_host C (gr_cache r) k = None" "\<And>k. c_token C (gr_cache r) k = None"
  shows "fst (reg_get C St h n r) = map_option go_offline (persisted (gr_store r) n h)"
    and "fst (reg_resolveToken C St t r) = token_of (gr_store r) t"
  using assms(2-4) get_res [OF assms(1), of h n] resolve_res [OF assms(1), of t]
  by (auto simp: reg_get_def reg_resolveToken_def getFromCache_def case_prod_unfold
      split: option.splits)

end

lemma registry_env_sqlite:
  "icache C \<Longrightarrow> St = None \<or> St = Some sqlite_ops \<Longrightarrow>
     registry_env C sqlite_ops sqlite_ok sqlite_persisted sqlite_token St"
  by (intro registry_env.intro registry_env_axioms.intro sqlite.host_store_axioms)

interpretation mem_registry:
  registry_env mem_cache sqlite_ops sqlite_ok sqlite_persisted sqlite_token "Some sqlite_ops"
  by (rule registry_env_sqlite) (simp_all add: mem.icache_axioms)

text \<open>A process that starts on an empty cache and an empty database, for the witnesses.\<close>

definition fresh_registry :: "((string, cval) jsmap, sqlite_store) host_registry" where
  "fresh_registry = \<lparr>gr_cache = [], gr_store = \<lparr>sq_migrated = False, sq_hosts = None, sq_tokens = None\<rparr>,
     gr_timers = [], gr_armed = [], gr_nextTimer = 0\<rparr>"

lemma fresh_ok:
  "hosts_ok mem_cache fresh_registry" "sqlite_ok (gr_store fresh_registry)"
  "gr_timers fresh_registry = []" "gr_armed fresh_registry = []"
  "reg_inv mem_cache sqlite_ok fresh_registry"
  by (simp_all add: reg_inv_def hosts_ok_def fresh_registry_def cache_typed_def c_host_def mem_cache_def
      sqlite_ok_def hosts_of_def tokens_of_def timers_ok_def armed_key_def grace_ok_def)

section \<open>Properties\<close>

text \<open>
  C11: the state of every host stays consistent. Starting from whatever cache and database an earlier
  process left, after \<open>restore\<close> and any sequence of registry operations, timer expiries and
  watchdog writes, a cached host has at most one connection, is online only with one and offline or
  reconnecting only without; and a reconnecting host has exactly one armed grace timer.
\<close>

theorem host_states_consistent:
  assumes "icache C" and "St = None \<or> St = Some sqlite_ops"
    and "hosts_ok C r0" "sqlite_ok (gr_store r0)" "gr_timers r0 = []" "gr_armed r0 = []"
    and "(reg_step C St)\<^sup>*\<^sup>* (snd (restore C St now r0)) r"
    and "getFromCache C h n r = Some d"
  shows "length (hd_connections d) \<le> 1 \<and> (hd_status d = Online \<longrightarrow> hd_connections d \<noteq> []) \<and>
    (hd_status d = Offline \<or> hd_status d = Reconnecting \<longrightarrow> hd_connections d = []) \<and>
    (hd_status d = Reconnecting \<longrightarrow>
       (\<exists>!t. \<exists>h' n'. jm_get (gr_armed r) t = Some (h', n') \<and> hostKey n' h' = hostKey n h))"
proof -
  note E = registry_env_sqlite [OF assms(1,2)]
  have i: "reg_inv C sqlite_ok r"
    using registry_env.inv_steps [OF E assms(7)] registry_env.restore_facts [OF E assms(3-6)] by blast
  have "live_ok d" using hosts_okD(2) [OF registry_env.inv_parts(2) [OF E i] assms(8)] .
  moreover have "\<exists>!t. \<exists>h' n'. jm_get (gr_armed r) t = Some (h', n') \<and> hostKey n' h' = hostKey n h"
    if rec: "hd_status d = Reconnecting"
  proof -
    obtain t h' n' where t: "jm_get (gr_timers r) (graceKey n h) = Some t"
      "jm_get (gr_armed r) t = Some (h', n')" "hostKey n' h' = hostKey n h"
      using registry_env.timer_of_reconnecting [OF E i assms(8) rec] by blast
    have "jm_get (gr_timers r) (graceKey n h) = Some u"
      if "jm_get (gr_armed r) u = Some (h2, n2)" "hostKey n2 h2 = hostKey n h" for u h2 n2
    proof -
      have "armed_key r u = Some (graceKey n h)" using that by (simp add: armed_key_def)
      then show ?thesis using registry_env.inv_parts(3) [OF E i] by (simp add: timers_ok_def)
    qed
    with t show ?thesis by (metis option.inject)
  qed
  ultimately show ?thesis by (simp add: live_ok_def)
qed

definition fresh_online :: "((string, cval) jsmap, sqlite_store) host_registry" where
  "fresh_online = setOnline mem_cache (Some sqlite_ops) ''h'' ''n'' ''c1'' 2
     (ensureRegistered mem_cache (Some sqlite_ops) ''h'' ''n'' ''laptop'' [Git] 1
       (snd (restore mem_cache (Some sqlite_ops) 0 fresh_registry)))"

definition fresh_host :: host_descriptor where
  "fresh_host = \<lparr>hd_hostId = ''h'', hd_name = ''laptop'', hd_namespaceId = ''n'', hd_capabilities = [Git],
     hd_status = Online, hd_lastSeen = 2, hd_connections = [''c1''], hd_hostType = None,
     hd_workspaces = None, hd_plugins = None, hd_createdAt = Some 1, hd_updatedAt = Some 1\<rparr>"

lemma fresh_online_get: "getFromCache mem_cache ''h'' ''n'' fresh_online = Some fresh_host"
  by code_simp

lemma fresh_offline_get:
  "getFromCache mem_cache ''h'' ''n'' (setOffline mem_cache (Some sqlite_ops) ''h'' ''n'' ''c1'' 3 fresh_online) =
     Some (fresh_host\<lparr>hd_status := Reconnecting, hd_lastSeen := 3, hd_connections := []\<rparr>)"
  using fresh_online_get
  by (simp add: setOffline_def Let_def getFromCache_def fresh_host_def mem.read_over_set)

lemma fresh_steps:
  "(reg_step mem_cache (Some sqlite_ops))\<^sup>*\<^sup>* (snd (restore mem_cache (Some sqlite_ops) 0 fresh_registry))
     fresh_online"
  unfolding fresh_online_def by (rule rtranclp.intros)+ (rule reg_step.intros rtranclp.intros)+

lemma fresh_online_inv: "reg_inv mem_cache sqlite_ok fresh_online"
  using mem_registry.inv_steps [OF fresh_steps] mem_registry.restore_facts [OF fresh_ok(1-4)] by blast

lemma fresh_offline_inv:
  "reg_inv mem_cache sqlite_ok (setOffline mem_cache (Some sqlite_ops) ''h'' ''n'' ''c1'' 3 fresh_online)"
  by (rule mem_registry.inv_setOffline [OF fresh_online_inv])

lemma host_states_consistent_witness:
  "\<exists>!t. \<exists>h' n'. jm_get (gr_armed (setOffline mem_cache (Some sqlite_ops) ''h'' ''n'' ''c1'' 3 fresh_online)) t =
     Some (h', n') \<and> hostKey n' h' = hostKey ''n'' ''h''"
  using host_states_consistent [OF mem.icache_axioms _ fresh_ok(1-4)
      rtranclp.rtrancl_into_rtrancl [OF fresh_steps reg_step.intros(3)] fresh_offline_get]
  by simp

text \<open>
  The reconnect grace period. A host that lost its last connection has an armed timer; if it
  expires the host goes offline; if the host comes back first it is online with the new connection
  and the expiry of the old timer no longer does anything.
\<close>

theorem reconnect_grace:
  assumes "icache C" and "St = None \<or> St = Some sqlite_ops" and "reg_inv C sqlite_ok r"
    and "getFromCache C h n r = Some d" "hd_status d = Reconnecting"
  shows "\<exists>t. jm_get (gr_armed r) t \<noteq> None \<and>
    getFromCache C h n (grace_expires C St t now r) = Some (d\<lparr>hd_status := Offline, hd_lastSeen := now\<rparr>) \<and>
    getFromCache C h n (setOnline C St h n conn now' r) =
      Some (d\<lparr>hd_status := Online, hd_lastSeen := now', hd_connections := [conn]\<rparr>) \<and>
    grace_expires C St t now (setOnline C St h n conn now' r) = setOnline C St h n conn now' r"
proof -
  note E = registry_env_sqlite [OF assms(1,2)]
  obtain t h' n' where t: "jm_get (gr_timers r) (graceKey n h) = Some t"
    "jm_get (gr_armed r) t = Some (h', n')" "hostKey n' h' = hostKey n h"
    using registry_env.timer_of_reconnecting [OF E assms(3-5)] by blast
  with registry_env.expires_view [OF E t(2,3) assms(4,5)] registry_env.online_view [OF E assms(4)]
    registry_env.online_disarms [OF E registry_env.inv_parts(3) [OF E assms(3)] t(1) assms(4)]
  show ?thesis by blast
qed

lemma reconnect_grace_witness:
  "\<exists>t. getFromCache mem_cache ''h'' ''n'' (grace_expires mem_cache (Some sqlite_ops) t 9
      (setOffline mem_cache (Some sqlite_ops) ''h'' ''n'' ''c1'' 3 fresh_online)) =
    Some (fresh_host\<lparr>hd_status := Offline, hd_lastSeen := 9, hd_connections := []\<rparr>)"
  using reconnect_grace [OF mem.icache_axioms _ fresh_offline_inv fresh_offline_get, of "Some sqlite_ops" 9]
  by (auto simp: fresh_host_def)

text \<open>
  The close of a superseded connection does not take the host offline. When a host reconnects
  (\<open>setOnline\<close> with a new connection) before the old socket's close is handled, that close
  (\<open>setOffline\<close> with the old connection id) leaves it online with the new connection, starts no
  grace timer and writes nothing to the store.
\<close>

theorem superseded_close_ignored:
  fixes St :: "'s store_ops option" and r :: "('c, 's) host_registry" and now now' :: int
  assumes "icache C" and "getFromCache C h n r = Some d" and "old \<noteq> new"
  defines "r1 \<equiv> setOnline C St h n new now r"
  defines "r2 \<equiv> setOffline C St h n old now' r1"
  shows "getFromCache C h n r2 =
      Some (d\<lparr>hd_status := Online, hd_lastSeen := now', hd_connections := [new]\<rparr>) \<and>
    gr_armed r2 = gr_armed r1 \<and> gr_timers r2 = gr_timers r1 \<and> gr_store r2 = gr_store r1"
proof -
  have "getFromCache C h n r1 = Some (d\<lparr>hd_status := Online, hd_lastSeen := now, hd_connections := [new]\<rparr>)"
    using assms(2) by (simp add: r1_def setOnline_def getFromCache_def Let_def icache.read_over_set [OF assms(1)])
  then show ?thesis
    using assms(3) by (simp add: r2_def setOffline_def getFromCache_def icache.read_over_set [OF assms(1)])
qed

lemma superseded_close_ignored_witness:
  "getFromCache mem_cache ''h'' ''n'' (setOffline mem_cache (Some sqlite_ops) ''h'' ''n'' ''c1'' 8
      (setOnline mem_cache (Some sqlite_ops) ''h'' ''n'' ''c2'' 7 fresh_online)) =
    Some (fresh_host\<lparr>hd_lastSeen := 8, hd_connections := [''c2'']\<rparr>)"
  using superseded_close_ignored [OF mem.icache_axioms fresh_online_get, of "''c1''" "''c2''"]
  by (simp add: fresh_host_def)

text \<open>
  A restart. \<open>restore\<close> returns the number of stored hosts; afterwards no cached host is online or
  reconnecting, every stored host is cached, offline and without connections, and a cached host the
  store does not know keeps everything but a stale online or reconnecting status. In particular a
  host the watchdog had marked degraded stays degraded, with its dead connection, when there is no
  store: the reset skips that status.
\<close>

theorem restore_after_restart:
  fixes now :: int
  assumes "icache C" and "St = None \<or> St = Some sqlite_ops"
    and "hosts_ok C r" "sqlite_ok (gr_store r)" "gr_timers r = []" "gr_armed r = []"
  defines "r' \<equiv> snd (restore C St now r)"
  shows "fst (restore C St now r) = length (stored_hosts St r) \<and>
    (\<forall>h n d. getFromCache C h n r' = Some d \<longrightarrow> hd_status d \<noteq> Online \<and> hd_status d \<noteq> Reconnecting) \<and>
    (\<forall>s\<in>set (stored_hosts St r). \<exists>d. getFromCache C (hd_hostId s) (hd_namespaceId s) r' = Some d \<and>
       hd_status d = Offline \<and> hd_connections d = []) \<and>
    (\<forall>h n d. getFromCache C h n r = Some d \<and> hd_status d = Degraded \<and> St = None \<longrightarrow>
       getFromCache C h n r' = Some d)"
proof -
  note F = registry_env.restore_facts [OF registry_env_sqlite [OF assms(1,2)] assms(3-6), of now, folded r'_def]
  have view: "c_host C (gr_cache r') k = (case rev (filter (\<lambda>d. own_key d = k) (stored_hosts St r)) of
      [] \<Rightarrow> map_option stale (c_host C (gr_cache r) k) | d # _ \<Rightarrow> Some (go_offline d))" for k
    using F by blast
  have "hd_status d \<noteq> Online \<and> hd_status d \<noteq> Reconnecting" if "getFromCache C h n r' = Some d" for h n d
    using that by (auto simp: getFromCache_def view split: list.splits)
  moreover have "\<exists>d. getFromCache C (hd_hostId s) (hd_namespaceId s) r' = Some d \<and>
       hd_status d = Offline \<and> hd_connections d = []" if "s \<in> set (stored_hosts St r)" for s
  proof -
    have "rev (filter (\<lambda>d. own_key d = own_key s) (stored_hosts St r)) \<noteq> []"
      using that by (auto simp: filter_empty_conv)
    then obtain x xs where "rev (filter (\<lambda>d. own_key d = own_key s) (stored_hosts St r)) = x # xs"
      by (meson neq_Nil_conv)
    then show ?thesis by (simp add: getFromCache_def own_key_def [symmetric] view go_offline_def)
  qed
  moreover have "getFromCache C h n r' = Some d"
    if "getFromCache C h n r = Some d" "hd_status d = Degraded" "St = None" for h n d
    using that by (simp add: getFromCache_def view stored_hosts_def stale_def)
  ultimately show ?thesis using F by blast
qed

lemma restore_after_restart_witness:
  "fst (restore mem_cache (Some sqlite_ops) 5 (fresh_online\<lparr>gr_timers := [], gr_armed := []\<rparr>)) = 1"
proof -
  have "hosts_ok mem_cache (fresh_online\<lparr>gr_timers := [], gr_armed := []\<rparr>)"
    "sqlite_ok (gr_store (fresh_online\<lparr>gr_timers := [], gr_armed := []\<rparr>))"
    using fresh_online_inv hosts_ok_cong [of "fresh_online\<lparr>gr_timers := [], gr_armed := []\<rparr>" fresh_online mem_cache]
    by (simp_all add: reg_inv_def)
  from restore_after_restart [OF mem.icache_axioms _ this, of "Some sqlite_ops" 5]
  have "fst (restore mem_cache (Some sqlite_ops) 5 (fresh_online\<lparr>gr_timers := [], gr_armed := []\<rparr>)) =
      length (stored_hosts (Some sqlite_ops) fresh_online)"
    by (simp add: stored_hosts_def)
  also have "\<dots> = 1" by code_simp
  finally show ?thesis .
qed

text \<open>
  What is registered survives the loss of the cache. After a registration with a store, a process
  that starts with an empty cache on the same database answers \<open>get\<close> with the same host, offline,
  and \<open>resolveToken\<close> with the host and namespace the token was issued for; without a store both are
  lost.
\<close>

theorem registration_survives_cache_loss:
  fixes reg :: host_registration and uuid tok :: string and now :: int
  assumes "icache C" and "St = None \<or> St = Some sqlite_ops" and "reg_inv C sqlite_ok r"
  defines "p \<equiv> reg_register C St uuid tok now reg r"
  defines "d \<equiv> fst (fst p)"
  assumes cold: "\<And>k. cget C c0 k = None"
  defines "r' \<equiv> (snd p)\<lparr>gr_cache := c0, gr_timers := [], gr_armed := []\<rparr>"
  shows "(St \<noteq> None \<longrightarrow>
      (\<exists>d'. fst (reg_get C St (hd_hostId d) (hd_namespaceId d) r') = Some d' \<and> same_host d d' \<and>
         hd_status d' = Offline) \<and>
      fst (reg_resolveToken C St tok r') = Some (hd_hostId d, hd_namespaceId d)) \<and>
    (St = None \<longrightarrow> fst (reg_get C St (hd_hostId d) (hd_namespaceId d) r') = None \<and>
      fst (reg_resolveToken C St tok r') = None)"
proof -
  note E = registry_env_sqlite [OF assms(1,2)]
  have none: "c_host C c0 k = None" "c_token C c0 k = None" for k
    using cold by (simp_all add: c_host_def c_token_def)
  note V = registry_env.register_view [OF E assms(3), of uuid tok now reg, folded p_def, folded d_def]
  have ids: "hd_hostId d = make_host_id uuid" "hd_namespaceId d = hr_namespaceId reg"
    by (simp_all add: V(1))
  have "reg_inv C sqlite_ok (snd p)" unfolding p_def by (rule registry_env.inv_register [OF E assms(3)])
  then have ok: "sqlite_ok (gr_store r')" by (simp add: reg_inv_def r'_def)
  show ?thesis
  proof (cases "St = None")
    case True
    then show ?thesis by (simp add: reg_get_def reg_resolveToken_def getFromCache_def r'_def none)
  next
    case False
    then have St: "St = Some sqlite_ops" using assms(2) by blast
    have st: "gr_store r' = gr_store (snd p)" by (simp add: r'_def)
    have "fst (reg_get C St h n r') = map_option go_offline (sqlite_persisted (gr_store r') n h)"
      "fst (reg_resolveToken C St t r') = sqlite_token (gr_store r') t" for h n t
      using registry_env.cold_reads [OF E ok St] none by (simp_all add: r'_def)
    with V(2,3) [OF False] st show ?thesis
      using False by (auto simp: ids same_host_def go_offline_def)
  qed
qed

lemma registration_survives_cache_loss_witness:
  "fst (reg_resolveToken mem_cache (Some sqlite_ops) ''tok''
     ((snd (reg_register mem_cache (Some sqlite_ops) ''0-1'' ''tok'' 3
        \<lparr>hr_name = ''laptop'', hr_namespaceId = ''n'', hr_capabilities = [], hr_workspacePaths = [],
         hr_hostType = None\<rparr> fresh_registry))\<lparr>gr_cache := [], gr_timers := [], gr_armed := []\<rparr>)) =
    Some (''host_01'', ''n'')"
  using registration_survives_cache_loss [OF mem.icache_axioms _ fresh_ok(5), of "Some sqlite_ops" "[]" "''0-1''" "''tok''" 3
      "\<lparr>hr_name = ''laptop'', hr_namespaceId = ''n'', hr_capabilities = [], hr_workspacePaths = [],
         hr_hostType = None\<rparr>"]
  by (simp add: reg_register_def Let_def make_host_id_def mem_cache_def)

text \<open>
  Deregistration. Afterwards \<open>get\<close> finds nothing (in the cache or the store) and the store's
  tokens of the host no longer resolve there; the result is true exactly when the store held the
  host, so without a store it is false even though a cached host was removed; and a machine token
  cached for the host keeps resolving to it, because the cache entry of the token is left behind.
\<close>

theorem deregister_effect:
  fixes h n :: string
  assumes "icache C" and "St = None \<or> St = Some sqlite_ops" and "reg_inv C sqlite_ok r"
  defines "r' \<equiv> snd (deregister C St h n r)"
  shows "fst (reg_get C St h n r') = None \<and>
    fst (deregister C St h n r) = (St \<noteq> None \<and> fst (sqlite_get h n (gr_store r)) \<noteq> None) \<and>
    (c_token C (gr_cache r) (tokenKey t) = Some (h, n) \<longrightarrow> fst (reg_resolveToken C St t r') = Some (h, n)) \<and>
    (c_token C (gr_cache r) (tokenKey t) = None \<and> fst (reg_resolveToken C St t r) = Some (h, n) \<longrightarrow>
       fst (reg_resolveToken C St t r') = None)"
proof -
  note E = registry_env_sqlite [OF assms(1,2)]
  note V = registry_env.delete_view [OF E, of h n r, folded r'_def]
  have ok: "sqlite_ok (gr_store r)" using assms(3) by (simp add: reg_inv_def)
  have st: "gr_store r' = (if St = None then gr_store r else snd (sqlite_delete h n (gr_store r)))"
    using assms(2) by (auto simp: r'_def deregister_def removeFromIndex_def case_prod_unfold Let_def)
  have "fst (deregister C St h n r) = (St \<noteq> None \<and> fst (sqlite_get h n (gr_store r)) \<noteq> None)"
    using assms(2) sqlite.delete_res [OF ok, of h n]
    by (auto simp: deregister_def case_prod_unfold Let_def sqlite_get_result)
  moreover have "fst (reg_get C St h n r') = None"
    using assms(2) V(1) st sqlite.delete_hosts [OF ok, of h n n h]
    by (auto simp: reg_get_def case_prod_unfold sqlite_get_result split: option.splits)
  moreover have "fst (reg_resolveToken C St t r') = None"
    if "c_token C (gr_cache r) (tokenKey t) = None" "fst (reg_resolveToken C St t r) = Some (h, n)"
  proof -
    from that assms(2) have "St = Some sqlite_ops" "sqlite_token (gr_store r) t = Some (h, n)"
      by (auto simp: reg_resolveToken_def case_prod_unfold sqlite_resolve_result split: option.splits)
    with that(1) V(2) [of t] st sqlite.delete_tokens [OF ok, of h n t] show ?thesis
      by (simp add: reg_resolveToken_def case_prod_unfold sqlite_resolve_result)
  qed
  moreover have "c_token C (gr_cache r) (tokenKey t) = Some (h, n) \<longrightarrow>
      fst (reg_resolveToken C St t r') = Some (h, n)"
    using V(2) [of t] by (simp add: reg_resolveToken_def)
  ultimately show ?thesis by (intro conjI impI) (simp_all only: conjunct1 conjunct2 simp_thms)
qed

lemma deregister_effect_witness:
  "fst (deregister mem_cache (Some sqlite_ops) ''h'' ''n'' fresh_online) = True"
proof -
  have "fst (sqlite_get ''h'' ''n'' (gr_store fresh_online)) \<noteq> None" by code_simp
  with deregister_effect [OF mem.icache_axioms _ fresh_online_inv, of "Some sqlite_ops" "''h''" "''n''"]
  show ?thesis by simp
qed

text \<open>
  A degraded host does not recover by heartbeats. Once the watchdog has marked a host degraded,
  any number of heartbeats only refresh \<open>lastSeen\<close>: its status stays degraded (until it reconnects),
  although the watchdog keeps the connection open to ``allow recovery''.
\<close>

theorem heartbeats_do_not_recover:
  fixes St :: "'s store_ops option" and r :: "('c, 's) host_registry"
  assumes "icache C" and "getFromCache C h n r = Some d"
  defines "r1 \<equiv> reg_degrade C St h n r"
  shows "\<exists>d'. getFromCache C h n (fold (heartbeat C h n) (t # ts) r1) = Some d' \<and>
    hd_status d' = Degraded \<and> hd_connections d' = hd_connections d \<and> hd_lastSeen d' = last (t # ts)"
proof -
  have "getFromCache C h n r1 = Some (d\<lparr>hd_status := Degraded\<rparr>)"
    using assms(2) by (auto simp: r1_def reg_degrade_def reg_get_def getFromCache_def
        icache.read_over_set [OF assms(1)])
  moreover have "\<exists>d'. getFromCache C h n (fold (heartbeat C h n) ts r2) = Some d' \<and>
      hd_status d' = hd_status d2 \<and> hd_connections d' = hd_connections d2 \<and>
      hd_lastSeen d' = last (hd_lastSeen d2 # ts)"
    if "getFromCache C h n r2 = Some d2" for r2 :: "('c, 's) host_registry" and d2 ts
    using that
  proof (induction ts arbitrary: r2 d2)
    case (Cons t ts)
    have "getFromCache C h n (heartbeat C h n t r2) = Some (d2\<lparr>hd_lastSeen := t\<rparr>)"
      using Cons.prems by (simp add: heartbeat_def getFromCache_def icache.read_over_set [OF assms(1)])
    from Cons.IH [OF this] show ?case by auto
  qed simp
  ultimately show ?thesis by fastforce
qed

lemma heartbeats_do_not_recover_witness:
  "\<exists>d'. getFromCache mem_cache ''h'' ''n'' (fold (heartbeat mem_cache ''h'' ''n'') [100, 200]
      (reg_degrade mem_cache (Some sqlite_ops) ''h'' ''n'' fresh_online)) = Some d' \<and> hd_status d' = Degraded"
  using heartbeats_do_not_recover [OF mem.icache_axioms fresh_online_get, of 100 "[200]"] by blast

end
