(* ===== verification/Adaptive_Buffer.thy ===== *)
theory Adaptive_Buffer
  imports Cache_Interface
begin

text \<open>
  packages/gateway-core/src/buffer/adaptive.ts: the per-host queue of calls kept in the cache while
  a host is offline, with a TTL that shrinks as load grows. \<open>load\<close> and the threshold are rationals
  where the code has doubles; \<open>Math.round\<close> is \<open>round\<close> (\<open>floor (x + 1/2)\<close> in both). What the queue
  promises is the locale \<open>bounded_fifo\<close>, and the buffer satisfies it over any lawful cache.
\<close>

section \<open>The code\<close>

record buffer_policy =
  minTTL :: int
  maxTTL :: int
  maxSize :: nat
  loadThreshold :: rat

definition DEFAULT_BUFFER_POLICY :: buffer_policy where
  "DEFAULT_BUFFER_POLICY =
     \<lparr>minTTL = 30000, maxTTL = 300000, maxSize = 100, loadThreshold = 7 / 10\<rparr>"

definition ttlFor :: "buffer_policy \<Rightarrow> rat \<Rightarrow> int" where
  "ttlFor p load =
     (if load \<ge> loadThreshold p then minTTL p
      else let factor = 1 - load / loadThreshold p
           in round (of_int (minTTL p) + of_int (maxTTL p - minTTL p) * factor))"

definition buffer_enqueue ::
  "'c cache_ops \<Rightarrow> buffer_policy \<Rightarrow> string \<Rightarrow> buffered_call \<Rightarrow> rat \<Rightarrow> 'c \<Rightarrow> string + 'c" where
  "buffer_enqueue C p hostId call load c =
     (let key = bufferKey hostId;
          existing = or_else (c_calls C c key) []
      in if length existing \<ge> maxSize p then Inl ''HOST_BUFFER_FULL''
         else Inr (cset C c key (V_calls (existing @ [call])) (Some (ttlFor p load))))"

definition buffer_flush :: "'c cache_ops \<Rightarrow> string \<Rightarrow> 'c \<Rightarrow> buffered_call list \<times> 'c" where
  "buffer_flush C hostId c =
     (let key = bufferKey hostId;
          calls = or_else (c_calls C c key) []
      in (calls, cdelete C c key))"

text \<open>What the cache holds for a host.\<close>

definition buffered :: "'c cache_ops \<Rightarrow> 'c \<Rightarrow> string \<Rightarrow> buffered_call list" where
  "buffered C c hostId = or_else (c_calls C c (bufferKey hostId)) []"

section \<open>The contract: a bounded queue per host\<close>

locale bounded_fifo =
  fixes put :: "'h \<Rightarrow> 'x \<times> 'l \<Rightarrow> 's \<Rightarrow> 'e + 's"
    and drain :: "'h \<Rightarrow> 's \<Rightarrow> 'x list \<times> 's"
    and queue :: "'s \<Rightarrow> 'h \<Rightarrow> 'x list"
    and capacity :: nat
    and full :: 'e
  assumes put_full: "capacity \<le> length (queue s h) \<Longrightarrow> put h x s = Inl full"
    and put_room: "length (queue s h) < capacity \<Longrightarrow>
          \<exists>s'. put h x s = Inr s' \<and>
               (\<forall>h'. queue s' h' = (if h' = h then queue s h @ [fst x] else queue s h'))"
    and drain_all: "fst (drain h s) = queue s h"
    and drain_clears: "queue (snd (drain h s)) h' = (if h' = h then [] else queue s h')"
begin

lemma put_all_room:
  "length (queue s h) + length xs \<le> capacity \<Longrightarrow>
     \<exists>s'. try_all (put h) xs s = Inr s' \<and>
          (\<forall>h'. queue s' h' = (if h' = h then queue s h @ map fst xs else queue s h'))"
proof (induction xs arbitrary: s)
  case Nil
  then show ?case by auto
next
  case (Cons x xs)
  from Cons.prems have "length (queue s h) < capacity" by simp
  from put_room [OF this] obtain s1 where s1: "put h x s = Inr s1"
    and q1: "\<forall>h'. queue s1 h' = (if h' = h then queue s h @ [fst x] else queue s h')"
    by blast
  from Cons.prems q1 have "length (queue s1 h) + length xs \<le> capacity" by simp
  from Cons.IH [OF this] s1 q1 show ?case by auto
qed

lemma put_all_overflow:
  assumes "length (queue s h) \<le> capacity" "capacity < length (queue s h) + length xs"
  shows "try_all (put h) xs s = Inl full"
proof -
  define k where "k = capacity - length (queue s h)"
  show ?thesis
  proof (cases "capacity \<le> length (queue s h)")
    case True
    with assms show ?thesis by (cases xs) (auto simp: put_full)
  next
    case False
    then have sum: "length (queue s h) + k = capacity" by (simp add: k_def)
    with assms have k: "k < length xs" by simp
    then have "length (take k xs) = k" by simp
    with sum have "length (queue s h) + length (take k xs) \<le> capacity" by simp
    from put_all_room [OF this] obtain s' where s': "try_all (put h) (take k xs) s = Inr s'"
      and q': "\<forall>h'. queue s' h' = (if h' = h then queue s h @ map fst (take k xs) else queue s h')"
      by blast
    have "length (queue s' h) = capacity" using q' \<open>length (take k xs) = k\<close> sum by simp
    then have "put h (xs ! k) s' = Inl full" by (simp add: put_full)
    moreover have "xs = take k xs @ xs ! k # drop (Suc k) xs" using k by (rule id_take_nth_drop)
    ultimately show ?thesis using s' by (metis try_all_append try_all.simps(2) sum.case)
  qed
qed

end

section \<open>The buffer satisfies it\<close>

locale icache_buffer = icache C for C :: "'c cache_ops" +
  fixes policy :: buffer_policy

sublocale icache_buffer \<subseteq> bounded_fifo
  "\<lambda>h x. buffer_enqueue C policy h (fst x) (snd x)" "buffer_flush C" "buffered C"
  "maxSize policy" "''HOST_BUFFER_FULL''"
  by unfold_locales
    (auto simp: buffer_enqueue_def buffer_flush_def buffered_def cache_simps Let_def)

context icache_buffer begin

lemmas fifo_room = put_all_room
lemmas fifo_overflow = put_all_overflow
lemmas fifo_drain = drain_all drain_clears

end

interpretation mem_buffer: icache_buffer mem_cache DEFAULT_BUFFER_POLICY ..

section \<open>The TTL\<close>

lemma ttl_affine:
  "load < loadThreshold p \<Longrightarrow>
     ttlFor p load = round (of_int (minTTL p) + of_int (maxTTL p - minTTL p) * (1 - load / loadThreshold p))"
  by (simp add: ttlFor_def Let_def)

lemma round_of_int_le: "(x::rat) \<le> of_int n \<Longrightarrow> round x \<le> n"
  using round_mono [of x "of_int n"] by simp

lemma round_of_int_ge: "of_int n \<le> (x::rat) \<Longrightarrow> n \<le> round x"
  using round_mono [of "of_int n" x] by simp

lemma ttl_above_min:
  assumes "minTTL p \<le> maxTTL p" "0 < loadThreshold p"
  shows "minTTL p \<le> ttlFor p load"
proof (cases "load < loadThreshold p")
  case True
  then have "0 \<le> 1 - load / loadThreshold p" using assms(2) by (simp add: field_simps)
  moreover have "(0::rat) \<le> of_int (maxTTL p - minTTL p)" using assms(1) by simp
  ultimately have "(0::rat) \<le> of_int (maxTTL p - minTTL p) * (1 - load / loadThreshold p)"
    by (rule mult_nonneg_nonneg [rotated])
  then show ?thesis using True by (simp add: ttl_affine round_of_int_ge)
qed (simp add: ttlFor_def)

lemma ttl_below_max:
  assumes "minTTL p \<le> maxTTL p" "0 \<le> load"
  shows "ttlFor p load \<le> maxTTL p"
proof (cases "load < loadThreshold p")
  case True
  then have pos: "0 < loadThreshold p" using assms(2) by linarith
  then have "1 - load / loadThreshold p \<le> 1" using assms(2) by simp
  moreover have "(0::rat) \<le> of_int (maxTTL p - minTTL p)" using assms(1) by simp
  ultimately have "of_int (maxTTL p - minTTL p) * (1 - load / loadThreshold p)
      \<le> (of_int (maxTTL p - minTTL p) :: rat) * 1"
    by (rule mult_left_mono)
  then show ?thesis using True by (simp add: ttl_affine round_of_int_le)
qed (use assms(1) in \<open>simp add: ttlFor_def\<close>)

lemma ttl_antitone:
  assumes "minTTL p \<le> maxTTL p" "0 < loadThreshold p" "l1 \<le> l2"
  shows "ttlFor p l2 \<le> ttlFor p l1"
proof (cases "l2 < loadThreshold p")
  case True
  then have l1: "l1 < loadThreshold p" using assms(3) by linarith
  have "1 - l2 / loadThreshold p \<le> 1 - l1 / loadThreshold p"
    using assms(2,3) by (simp add: divide_right_mono)
  moreover have "(0::rat) \<le> of_int (maxTTL p - minTTL p)" using assms(1) by simp
  ultimately have "(of_int (maxTTL p - minTTL p) :: rat) * (1 - l2 / loadThreshold p)
      \<le> of_int (maxTTL p - minTTL p) * (1 - l1 / loadThreshold p)"
    by (rule mult_left_mono)
  then show ?thesis using True l1 by (simp add: ttl_affine round_mono)
next
  case False
  then have "ttlFor p l2 = minTTL p" by (simp add: ttlFor_def)
  then show ?thesis using ttl_above_min [OF assms(1,2), of l1] by simp
qed

section \<open>Properties\<close>

text \<open>C26:
  Over any lawful cache, calls enqueued for a host that has nothing buffered come back from
  \<open>flush\<close> once each and in order, the flush leaves the buffer empty and other hosts' buffers are
  untouched; one call more than \<open>maxSize\<close> and the whole sequence fails with \<open>HOST_BUFFER_FULL\<close>.
\<close>

theorem buffer_fifo:
  assumes "icache C" and "buffered C c h = []"
  shows "case try_all (\<lambda>x. buffer_enqueue C p h (fst x) (snd x)) xs c of
      Inl e \<Rightarrow> maxSize p < length xs \<and> e = ''HOST_BUFFER_FULL''
    | Inr c' \<Rightarrow> length xs \<le> maxSize p \<and> fst (buffer_flush C h c') = map fst xs \<and>
        (\<forall>h'. buffered C (snd (buffer_flush C h c')) h' = (if h' = h then [] else buffered C c h'))"
proof -
  have F: "icache_buffer C" using assms(1) by (simp add: icache_buffer_def)
  show ?thesis
  proof (cases "length xs \<le> maxSize p")
    case True
    then have "length (buffered C c h) + length xs \<le> maxSize p" using assms(2) by simp
    from icache_buffer.fifo_room [OF F this] obtain c' where
      c': "try_all (\<lambda>x. buffer_enqueue C p h (fst x) (snd x)) xs c = Inr c'"
      and q: "\<forall>h'. buffered C c' h' = (if h' = h then buffered C c h @ map fst xs else buffered C c h')"
      by blast
    then show ?thesis using True assms(2)
      by (simp add: icache_buffer.fifo_drain [OF F])
  next
    case False
    then show ?thesis using icache_buffer.fifo_overflow [OF F, of c h p xs] assms(2) by simp
  qed
qed

theorem buffer_fifo_witness:
  "case try_all (\<lambda>x. buffer_enqueue mem_cache DEFAULT_BUFFER_POLICY ''h'' (fst x) (snd x))
      [(\<lparr>bc_requestId = ''r'', bc_adapter = ''fs'', bc_method = ''read'', bc_args = [],
         bc_enqueuedAt = 1\<rparr>, 0)] ([] :: (string, cval) jsmap) of
      Inl e \<Rightarrow> False
    | Inr c' \<Rightarrow> fst (buffer_flush mem_cache ''h'' c') =
        [\<lparr>bc_requestId = ''r'', bc_adapter = ''fs'', bc_method = ''read'', bc_args = [],
          bc_enqueuedAt = 1\<rparr>]"
proof -
  have "buffered mem_cache ([] :: (string, cval) jsmap) ''h'' = []"
    by (simp add: buffered_def c_calls_def mem_cache_def)
  from buffer_fifo [OF mem.icache_axioms this, of DEFAULT_BUFFER_POLICY
      "[(\<lparr>bc_requestId = ''r'', bc_adapter = ''fs'', bc_method = ''read'', bc_args = [],
         bc_enqueuedAt = 1\<rparr>, 0)]"]
  show ?thesis by (simp add: DEFAULT_BUFFER_POLICY_def split: sum.splits)
qed

text \<open>C36:
  For a sensible policy and any load of at least 0 the TTL lies between \<open>minTTL\<close> and \<open>maxTTL\<close>, is
  \<open>maxTTL\<close> on an idle platform and \<open>minTTL\<close> from the threshold on, and never grows with the load.
\<close>

theorem ttl_bounds:
  assumes "minTTL p \<le> maxTTL p" "0 < loadThreshold p" "0 \<le> load" "load \<le> load'"
  shows "minTTL p \<le> ttlFor p load \<and> ttlFor p load \<le> maxTTL p \<and> ttlFor p load' \<le> ttlFor p load \<and>
    ttlFor p 0 = maxTTL p \<and> ttlFor p (loadThreshold p) = minTTL p"
proof -
  have "ttlFor p 0 = round (of_int (maxTTL p) :: rat)"
    using assms(2) by (simp add: ttl_affine)
  then show ?thesis
    using ttl_above_min [OF assms(1,2)] ttl_below_max [OF assms(1,3)] ttl_antitone [OF assms(1,2,4)]
    by (simp add: ttlFor_def)
qed

theorem ttl_bounds_witness:
  "minTTL DEFAULT_BUFFER_POLICY \<le> ttlFor DEFAULT_BUFFER_POLICY (35 / 100) \<and>
   ttlFor DEFAULT_BUFFER_POLICY (35 / 100) = 165000 \<and>
   ttlFor DEFAULT_BUFFER_POLICY (9 / 10) \<le> ttlFor DEFAULT_BUFFER_POLICY (35 / 100)"
proof -
  have "ttlFor DEFAULT_BUFFER_POLICY (35 / 100) = 165000"
    by (simp add: ttlFor_def DEFAULT_BUFFER_POLICY_def Let_def)
  then show ?thesis
    using ttl_bounds [of DEFAULT_BUFFER_POLICY "35 / 100" "9 / 10"]
    by (simp add: DEFAULT_BUFFER_POLICY_def)
qed

end
