(* ===== verification/Host_Ws.thy ===== *)
theory Host_Ws
  imports Message_Schemas Client_Ws Host_Lifecycle Adaptive_Buffer
begin

text \<open>
  apps/gateway-app/src/hosts/ws-handler.ts: the WebSocket of a host. The handshake accepts machine
  tokens only and negotiates the protocol version; the connection is then entered in the registry and
  in the dispatcher and buffered calls are flushed; after that the message listener, the heartbeat
  watchdog and the close listener run, each an atomic step here, on the state \<open>host_world\<close> (the shared
  registries of the process, the dispatcher among them, and the host registry with the cache). What
  is sent to the host's socket is returned. UUIDs, times and the answer of the REST API are arguments.
\<close>

section \<open>State\<close>

record ('c, 's) host_world =
  hw_gateway :: gateway_state
  hw_registry :: "('c, 's) host_registry"

text \<open>The variables of one connection's closure.\<close>

record host_session =
  hs_hostId :: string
  hs_namespaceId :: string
  hs_connectionId :: string
  hs_socket :: nat
  hs_lastHeartbeat :: int

definition upd_disp :: "(dispatcher \<Rightarrow> dispatcher) \<Rightarrow> ('c, 's) host_world \<Rightarrow> ('c, 's) host_world" where
  "upd_disp f w = w\<lparr>hw_gateway := (hw_gateway w)\<lparr>gs_disp := f (gs_disp (hw_gateway w))\<rparr>\<rparr>"

definition world_disp :: "('c, 's) host_world \<Rightarrow> dispatcher" where
  "world_disp w = gs_disp (hw_gateway w)"

definition world_exec :: "('c, 's) host_world \<Rightarrow> exec_registry" where
  "world_exec w = gs_exec (hw_gateway w)"

section \<open>Handshake\<close>

text \<open>
  The host and namespace are those of the token. A claim missing from a token reads as \<open>undefined\<close>,
  which the keys built from it print; no machine token the gateway issues lacks one.
\<close>

datatype host_handshake_result =
    HH_closed "outbound_msg list" string
      \<comment> \<open>what was sent before, and the close reason\<close>
  | HH_accepted string string string "string list"
      \<comment> \<open>host, namespace, protocol version, capabilities of the hello\<close>

definition host_hello :: "string \<Rightarrow> string \<Rightarrow> jval option \<Rightarrow> host_handshake_result" where
  "host_hello hostId namespaceId raw =
     (case Option.bind raw parse_hello of
        None \<Rightarrow> HH_closed [] ''Invalid hello message''
      | Some msg \<Rightarrow>
          if hm_protocolVersion msg \<notin> set SUPPORTED_PROTOCOL_VERSIONS
          then HH_closed [O_negotiate SUPPORTED_PROTOCOL_VERSIONS] ''Unsupported protocol version''
          else HH_accepted hostId namespaceId (hm_protocolVersion msg) (or_else (hm_capabilities msg) []))"

definition host_handshake ::
  "'c cache_ops \<Rightarrow> jose \<Rightarrow> string \<Rightarrow> int \<Rightarrow> string option \<Rightarrow> 'c \<Rightarrow> hello_event \<Rightarrow> host_handshake_result" where
  "host_handshake C J secret ms authorization c hello =
     (case extractBearerToken authorization of
        None \<Rightarrow> HH_closed [] ''Missing Authorization header''
      | Some token \<Rightarrow>
          (case auth_resolveToken C J secret ms token c of
             None \<Rightarrow> HH_closed [] ''Invalid machine token''
           | Some ctx \<Rightarrow>
               if ac_type ctx \<noteq> Some ''machine'' then HH_closed [] ''Invalid machine token''
               else (case hello of
                 Hello_timeout \<Rightarrow> HH_closed [] ''Hello timeout''
               | Hello_message raw \<Rightarrow>
                   host_hello (or_else (ac_userId ctx) ''undefined'')
                     (or_else (ac_namespaceId ctx) ''undefined'') raw)))"

section \<open>Connecting\<close>

text \<open>
  The capabilities a connection is routed by: those of the client record, if the host has one, else
  those of the hello; unknown names are dropped.
\<close>

definition host_capabilities :: "client_record option \<Rightarrow> string list \<Rightarrow> host_capability list" where
  "host_capabilities clientRecord helloCaps =
     (case clientRecord of
        Some r \<Rightarrow> List.map_filter parse_capability (cr_capabilities r)
      | None \<Rightarrow> List.map_filter parse_capability helloCaps)"

definition flushed_call :: "(nat \<Rightarrow> string) \<Rightarrow> nat \<times> buffered_call \<Rightarrow> outbound_msg" where
  "flushed_call spanIds ic =
     (let call = snd ic
      in O_call (bc_requestId call) (bc_adapter call) (bc_method call) (bc_args call)
           \<lparr>tc_traceId = bc_requestId call, tc_spanId = spanIds (fst ic), tc_parentId = None\<rparr>)"

definition host_connect ::
  "'c cache_ops \<Rightarrow> 's store_ops option \<Rightarrow> host_session \<Rightarrow> string \<Rightarrow> string list \<Rightarrow> string \<Rightarrow> (nat \<Rightarrow> string) \<Rightarrow>
     int \<Rightarrow> ('c, 's) host_world \<Rightarrow> outbound_msg list \<times> ('c, 's) host_world" where
  "host_connect C St sess protocolVersion helloCaps sessionId spanIds now w =
     (let hostId = hs_hostId sess;
          ns = hs_namespaceId sess;
          clientRecord = getClientByHostId C hostId (gr_cache (hw_registry w));
          capabilities = host_capabilities clientRecord helloCaps;
          r1 = ensureRegistered C St hostId ns (or_else (map_option cr_name clientRecord) hostId)
                 capabilities now (hw_registry w);
          r2 = setOnline C St hostId ns (hs_connectionId sess) now r1;
          w1 = upd_disp (registerConnection hostId ns (hs_socket sess) (map capability_string capabilities)) w;
          (buffered, c) = buffer_flush C hostId (gr_cache r2)
      in (O_connected protocolVersion hostId sessionId # map (flushed_call spanIds) (enumerate 0 buffered),
          w1\<lparr>hw_registry := r2\<lparr>gr_cache := c\<rparr>\<rparr>))"

text \<open>
  The same in the pieces the handler runs between its awaits: the descriptor is ensured; the host is set
  online; the connection is registered and told so; the buffered calls are flushed, after which the
  listeners are installed.
\<close>

definition connect_prepare ::
  "'c cache_ops \<Rightarrow> 's store_ops option \<Rightarrow> host_session \<Rightarrow> string list \<Rightarrow> int \<Rightarrow> ('c, 's) host_registry \<Rightarrow>
     host_capability list \<times> ('c, 's) host_registry" where
  "connect_prepare C St sess helloCaps now r =
     (let clientRecord = getClientByHostId C (hs_hostId sess) (gr_cache r);
          capabilities = host_capabilities clientRecord helloCaps
      in (capabilities, ensureRegistered C St (hs_hostId sess) (hs_namespaceId sess)
            (or_else (map_option cr_name clientRecord) (hs_hostId sess)) capabilities now r))"

definition connect_online ::
  "'c cache_ops \<Rightarrow> 's store_ops option \<Rightarrow> host_session \<Rightarrow> int \<Rightarrow> ('c, 's) host_registry \<Rightarrow> ('c, 's) host_registry" where
  "connect_online C St sess now r = setOnline C St (hs_hostId sess) (hs_namespaceId sess) (hs_connectionId sess) now r"

definition connect_register ::
  "host_session \<Rightarrow> string \<Rightarrow> string \<Rightarrow> host_capability list \<Rightarrow> ('c, 's) host_world \<Rightarrow>
     outbound_msg list \<times> ('c, 's) host_world" where
  "connect_register sess protocolVersion sessionId capabilities w =
     ([O_connected protocolVersion (hs_hostId sess) sessionId],
      upd_disp (registerConnection (hs_hostId sess) (hs_namespaceId sess) (hs_socket sess)
        (map capability_string capabilities)) w)"

definition connect_flush ::
  "'c cache_ops \<Rightarrow> host_session \<Rightarrow> (nat \<Rightarrow> string) \<Rightarrow> ('c, 's) host_registry \<Rightarrow>
     outbound_msg list \<times> ('c, 's) host_registry" where
  "connect_flush C sess spanIds r =
     (let (buffered, c) = buffer_flush C (hs_hostId sess) (gr_cache r)
      in (map (flushed_call spanIds) (enumerate 0 buffered), r\<lparr>gr_cache := c\<rparr>))"

lemma host_connect_pieces:
  "host_connect C St sess pv helloCaps sid spanIds now w =
     (let (capabilities, r1) = connect_prepare C St sess helloCaps now (hw_registry w);
          r2 = connect_online C St sess now r1;
          (hello, w1) = connect_register sess pv sid capabilities w;
          (calls, r3) = connect_flush C sess spanIds r2
      in (hello @ calls, w1\<lparr>hw_registry := r3\<rparr>))"
  by (simp add: host_connect_def connect_prepare_def connect_online_def connect_register_def connect_flush_def
      Let_def case_prod_unfold)

section \<open>The watchdog\<close>

definition HEARTBEAT_INTERVAL_MS :: int where
  "HEARTBEAT_INTERVAL_MS = 30000"

definition HEARTBEAT_GRACE_MS :: int where
  "HEARTBEAT_GRACE_MS = 10000"

definition host_watchdog ::
  "'c cache_ops \<Rightarrow> 's store_ops option \<Rightarrow> host_session \<Rightarrow> int \<Rightarrow> ('c, 's) host_world \<Rightarrow> ('c, 's) host_world" where
  "host_watchdog C St sess now w =
     (if now - hs_lastHeartbeat sess > HEARTBEAT_INTERVAL_MS + HEARTBEAT_GRACE_MS
      then w\<lparr>hw_registry := reg_degrade C St (hs_hostId sess) (hs_namespaceId sess) (hw_registry w)\<rparr>
      else w)"

section \<open>Adapter calls\<close>

text \<open>
  \<open>handleAdapterCall\<close> in its two halves around the request to the REST API. \<open>zod_message\<close> is the
  text zod gives for the schema's failure.
\<close>

record rest_request =
  fr_url :: string
  fr_secret :: string
  fr_body :: jval

datatype adapter_start =
    AS_reply outbound_msg
  | AS_forward string rest_request
      \<comment> \<open>request id and the request to the REST API\<close>

definition plain_error :: "string \<Rightarrow> string \<Rightarrow> bool \<Rightarrow> jval" where
  "plain_error code message retryable =
     error_json \<lparr>se_code = code, se_message = message, se_retryable = retryable, se_details = None\<rparr>"

text \<open>\<open>{ ...call.context, namespaceId, hostId }\<close>\<close>

definition context_json :: "string \<Rightarrow> string \<Rightarrow> adapter_call_context \<Rightarrow> jval" where
  "context_json namespaceId hostId ctx =
     JObj ([(''namespaceId'', JStr namespaceId), (''hostId'', JStr hostId)] @
       List.map_filter (\<lambda>(k, v). map_option (\<lambda>s. (k, JStr s)) v)
         [(''workspaceId'', cc_workspaceId ctx), (''environmentId'', cc_environmentId ctx),
          (''executionRequestId'', cc_executionRequestId ctx)])"

definition adapter_call_start ::
  "string option \<Rightarrow> string option \<Rightarrow> string \<Rightarrow> string \<Rightarrow> string \<Rightarrow> jval \<Rightarrow> adapter_start" where
  "adapter_call_start REST_API_URL GATEWAY_INTERNAL_SECRET zod_message hostId namespaceId msg =
     (case parse_adapter_call msg of
        None \<Rightarrow>
          AS_reply (O_adapter_error (js_nullish (js_member msg ''requestId'') (JStr ''unknown''))
            (plain_error ''INVALID_MESSAGE'' zod_message False))
      | Some call \<Rightarrow>
          (case parse_adapter (al_adapter call) of
             None \<Rightarrow>
               AS_reply (O_adapter_error (JStr (al_requestId call))
                 (plain_error ''ADAPTER_CALL_REJECTED'' (''Adapter not allowed: '' @ al_adapter call) False))
           | Some _ \<Rightarrow>
               AS_forward (al_requestId call)
                 \<lparr>fr_url = or_else REST_API_URL ''http://localhost:5050'' @ ''/api/v1/internal/adapter-call'',
                  fr_secret = or_else GATEWAY_INTERNAL_SECRET '''',
                  fr_body = JObj
                    [(''requestId'', JStr (al_requestId call)), (''adapter'', JStr (al_adapter call)),
                     (''method'', JStr (al_method call)), (''args'', JArr (al_args call)),
                     (''context'', context_json namespaceId hostId (al_context call))]\<rparr>))"

text \<open>What \<open>fetch\<close> and \<open>response.json()\<close> give: the parsed body, or the message of the error thrown.\<close>

datatype rest_result = Rest_body jval | Rest_throws string

definition adapter_call_finish :: "string \<Rightarrow> rest_result \<Rightarrow> outbound_msg" where
  "adapter_call_finish requestId res =
     (let unreachable = (\<lambda>message. O_adapter_error (JStr requestId)
            (plain_error ''ADAPTER_CALL_TIMEOUT'' (''REST API unreachable: '' @ message) True))
      in case res of
           Rest_throws message \<Rightarrow> unreachable message
         | Rest_body body \<Rightarrow>
             if body = JNull then unreachable ''Cannot read properties of null (reading 'ok')''
             else if js_truthy (js_member body ''ok'')
             then O_adapter_response requestId (js_member body ''result'')
             else O_adapter_error (JStr requestId)
               (js_nullish (js_member body ''error'') (plain_error ''ADAPTER_ERROR'' ''Unknown error'' False)))"

section \<open>Messages\<close>

text \<open>
  The members of a message \<open>handleInbound\<close> reads. A request id that is not a string is no key of the
  pending map, like a missing one.
\<close>

definition inbound_of :: "string \<Rightarrow> jval \<Rightarrow> inbound_msg" where
  "inbound_of ty msg =
     \<lparr>im_type = ty, im_requestId = as_string (js_member msg ''requestId''),
      im_data = js_member msg ''data'', im_error = js_member msg ''error''\<rparr>"

datatype host_action = HA_none | HA_ack | HA_adapter_call jval

text \<open>
  The listener. An exception is caught and logged, so malformed JSON, \<open>null\<close> and unknown types do
  nothing. The second component says what the handler goes on to do on the socket.
\<close>

definition host_message ::
  "'c cache_ops \<Rightarrow> host_session \<Rightarrow> int \<Rightarrow> jval option \<Rightarrow> ('c, 's) host_world \<Rightarrow>
     host_action \<times> host_session \<times> ('c, 's) host_world" where
  "host_message C sess now raw w =
     (case raw of
        None \<Rightarrow> (HA_none, sess, w)
      | Some msg \<Rightarrow>
          (case js_member msg ''type'' of
             JStr ty \<Rightarrow>
               if ty = ''heartbeat'' then
                 (HA_ack, sess\<lparr>hs_lastHeartbeat := now\<rparr>,
                  w\<lparr>hw_registry := heartbeat C (hs_hostId sess) (hs_namespaceId sess) now (hw_registry w)\<rparr>)
               else if ty = ''chunk'' \<or> ty = ''result'' \<or> ty = ''error'' then
                 (HA_none, sess, upd_disp (handleInbound (inbound_of ty msg)) w)
               else if ty = ''adapter:call'' then (HA_adapter_call msg, sess, w)
               else (HA_none, sess, w)
           | _ \<Rightarrow> (HA_none, sess, w)))"

section \<open>Disconnect\<close>

definition host_closed ::
  "'c cache_ops \<Rightarrow> 's store_ops option \<Rightarrow> host_session \<Rightarrow> int \<Rightarrow> ('c, 's) host_world \<Rightarrow>
     string list \<times> ('c, 's) host_world" where
  "host_closed C St sess now w =
     (let hostId = hs_hostId sess;
          ns = hs_namespaceId sess;
          w1 = upd_disp (removeConnection hostId ns) w;
          (cancelled, x) = cancelByHost hostId ''disconnect'' (world_exec w1)
      in (cancelled,
          w1\<lparr>hw_gateway := (hw_gateway w1)\<lparr>gs_exec := x\<rparr>,
             hw_registry := setOffline C St hostId ns (hs_connectionId sess) now (hw_registry w1)\<rparr>))"

lemma host_closed_fields [gw_simps]:
  "fst (host_closed C St sess now w) = fst (cancelByHost (hs_hostId sess) ''disconnect'' (world_exec w))"
  "world_disp (snd (host_closed C St sess now w)) =
     removeConnection (hs_hostId sess) (hs_namespaceId sess) (world_disp w)"
  "world_exec (snd (host_closed C St sess now w)) =
     snd (cancelByHost (hs_hostId sess) ''disconnect'' (world_exec w))"
  "gs_subs (hw_gateway (snd (host_closed C St sess now w))) = gs_subs (hw_gateway w)"
  "hw_registry (snd (host_closed C St sess now w)) =
     setOffline C St (hs_hostId sess) (hs_namespaceId sess) (hs_connectionId sess) now (hw_registry w)"
  by (simp_all add: host_closed_def Let_def case_prod_unfold upd_disp_def world_disp_def world_exec_def)

lemma host_connect_disp [gw_simps]:
  "world_disp (snd (host_connect C St sess pv caps sid spans now w)) =
     registerConnection (hs_hostId sess) (hs_namespaceId sess) (hs_socket sess)
       (map capability_string (host_capabilities
          (getClientByHostId C (hs_hostId sess) (gr_cache (hw_registry w))) caps)) (world_disp w)"
  "world_exec (snd (host_connect C St sess pv caps sid spans now w)) = world_exec w"
  by (simp_all add: host_connect_def Let_def case_prod_unfold upd_disp_def world_disp_def world_exec_def)

section \<open>What the registry's operations leave in the cache\<close>

context icache
begin

lemma index_keeps:
  "c_host C (gr_cache (addToIndex C n h r)) (hostKey n' h') = c_host C (gr_cache r) (hostKey n' h')"
  "c_calls C (gr_cache (addToIndex C n h r)) (bufferKey b) = c_calls C (gr_cache r) (bufferKey b)"
  by (simp_all add: addToIndex_def add_to_list_def Let_def read_over_set)

lemma reg_get_caches:
  "getFromCache C h n (snd (reg_get C St h n r)) = fst (reg_get C St h n r)"
  by (auto simp: reg_get_def getFromCache_def index_keeps read_over_set split: option.splits prod.splits)

lemma reg_get_calls:
  "c_calls C (gr_cache (snd (reg_get C St h n r))) (bufferKey b) = c_calls C (gr_cache r) (bufferKey b)"
  by (auto simp: reg_get_def index_keeps read_over_set split: option.splits prod.splits)

lemma ensureRegistered_caches: "getFromCache C h n (ensureRegistered C St h n name caps now r) \<noteq> None"
  using reg_get_caches [of h n St r]
  by (auto simp: ensureRegistered_def getFromCache_def index_keeps read_over_set Let_def
      split: option.splits prod.splits)

lemma ensureRegistered_calls:
  "c_calls C (gr_cache (ensureRegistered C St h n name caps now r)) (bufferKey b) =
     c_calls C (gr_cache r) (bufferKey b)"
  using reg_get_calls [of St h n r b]
  by (auto simp: ensureRegistered_def index_keeps read_over_set Let_def split: option.splits prod.splits)

lemma setOnline_calls:
  "c_calls C (gr_cache (setOnline C St h n conn now r)) (bufferKey b) = c_calls C (gr_cache r) (bufferKey b)"
  by (auto simp: setOnline_def read_over_set Let_def split: option.splits)

lemma setOnline_caches:
  "getFromCache C h n r = Some d \<Longrightarrow> getFromCache C h n (setOnline C St h n conn now r) =
     Some (d\<lparr>hd_status := Online, hd_lastSeen := now, hd_connections := [conn]\<rparr>)"
  by (simp add: setOnline_def getFromCache_def Let_def read_over_set)

lemma connect_registry:
  fixes St :: "'s store_ops option" and w :: "('c, 's) host_world"
  shows "\<exists>d. getFromCache C (hs_hostId sess) (hs_namespaceId sess)
      (hw_registry (snd (host_connect C St sess pv caps sid spans now w))) = Some d \<and>
    hd_status d = Online \<and> hd_connections d = [hs_connectionId sess]"
proof -
  let ?h = "hs_hostId sess" and ?n = "hs_namespaceId sess"
  let ?rec = "getClientByHostId C ?h (gr_cache (hw_registry w))"
  let ?r1 = "ensureRegistered C St ?h ?n (or_else (map_option cr_name ?rec) ?h)
    (host_capabilities ?rec caps) now (hw_registry w)"
  obtain d where "getFromCache C ?h ?n ?r1 = Some d" using ensureRegistered_caches by blast
  from setOnline_caches [OF this]
  show ?thesis
    by (simp add: host_connect_def Let_def case_prod_unfold upd_disp_def buffer_flush_def getFromCache_def
        read_over_delete)
qed

lemma connect_buffer:
  fixes St :: "'s store_ops option" and w :: "('c, 's) host_world"
  shows "fst (host_connect C St sess pv caps sid spans now w) =
      O_connected pv (hs_hostId sess) sid #
        map (flushed_call spans) (enumerate 0 (buffered C (gr_cache (hw_registry w)) (hs_hostId sess)))"
    and "buffered C (gr_cache (hw_registry (snd (host_connect C St sess pv caps sid spans now w))))
      (hs_hostId sess) = []"
  by (simp_all add: host_connect_def Let_def case_prod_unfold upd_disp_def buffer_flush_def buffered_def
      read_over_delete ensureRegistered_calls setOnline_calls)

end

section \<open>Properties\<close>

text \<open>
  C23: what connecting does. The host is online in the registry with this connection alone, its socket
  is the dispatcher's, and the calls buffered for it are sent once each, in order, after
  \<open>connected\<close>, leaving the buffer empty. It becomes routable for exactly the known capabilities of
  its client record; only a host without one is routed by what its hello claims.
\<close>

theorem host_connect_effect:
  fixes St :: "'s store_ops option" and w :: "('c, 's) host_world" and sess :: host_session
    and pv sid :: string and caps :: "string list" and spans :: "nat \<Rightarrow> string" and now :: int
  assumes "icache C"
  defines "h \<equiv> hs_hostId sess" and "n \<equiv> hs_namespaceId sess"
  defines "client \<equiv> getClientByHostId C (hs_hostId sess) (gr_cache (hw_registry w))"
  defines "res \<equiv> host_connect C St sess pv caps sid spans now w"
  shows "(\<exists>d. getFromCache C h n (hw_registry (snd res)) = Some d \<and> hd_status d = Online \<and>
       hd_connections d = [hs_connectionId sess]) \<and>
    socket_of (world_disp (snd res)) n h = Some (hs_socket sess) \<and>
    set (capable (world_disp (snd res)) n cap) = set (capable (world_disp w) n cap) \<union>
      (if parse_capability cap \<noteq> None \<and>
          cap \<in> set (case client of Some r \<Rightarrow> cr_capabilities r | None \<Rightarrow> caps) then {h} else {}) \<and>
    fst res = O_connected pv h sid #
      map (flushed_call spans) (enumerate 0 (buffered C (gr_cache (hw_registry w)) h)) \<and>
    buffered C (gr_cache (hw_registry (snd res))) h = []"
proof -
  have known: "cap \<in> capability_string ` set (List.map_filter parse_capability xs) \<longleftrightarrow>
      parse_capability cap \<noteq> None \<and> cap \<in> set xs" for xs
    by (force simp: List.map_filter_def parse_capability_Some image_iff)
  have "set (capable (world_disp (snd res)) n cap) = set (capable (world_disp w) n cap) \<union>
      (if parse_capability cap \<noteq> None \<and>
          cap \<in> set (case client of Some r \<Rightarrow> cr_capabilities r | None \<Rightarrow> caps) then {h} else {})"
    using known by (auto simp: res_def gw_simps h_def n_def client_def host_capabilities_def
        split: option.splits)
  then show ?thesis
    using icache.connect_registry [OF assms(1), where sess = sess and St = St and pv = pv and caps = caps and
        sid = sid and spans = spans and now = now and w = w]
      icache.connect_buffer [OF assms(1), where sess = sess and St = St and pv = pv and caps = caps and
        sid = sid and spans = spans and now = now and w = w]
    by (simp add: res_def h_def n_def gw_simps)
qed

text \<open>
  What a disconnect does. The host's socket and all its capability entries are gone, so no request
  is routed to it in that namespace; exactly the executions running on it are aborted, with reason
  ``disconnect''; and a host that was online with this connection waits for it to come back
  (reconnecting, with a grace timer).
\<close>

theorem host_closed_effect:
  fixes St :: "'s store_ops option" and w :: "('c, 's) host_world" and sess :: host_session
    and now :: int
  assumes "icache C" "exec_ok (world_exec w)"
  defines "h \<equiv> hs_hostId sess" and "n \<equiv> hs_namespaceId sess"
  defines "w' \<equiv> snd (host_closed C St sess now w)"
  shows "socket_of (world_disp w') n h = None \<and> h \<notin> set (capable (world_disp w') n cap) \<and>
    firstHostWithCapability n cap (world_disp w') \<noteq> Some h \<and>
    fst (host_closed C St sess now w) =
      filter (live_on (world_exec w) h) (jm_keys (xr_executions (world_exec w))) \<and>
    (\<forall>k e. exec_get k (world_exec w) = Some e \<longrightarrow> abort_reason (world_exec w') (ae_controller e) =
       (if live_on (world_exec w) h k then Some ''disconnect''
        else abort_reason (world_exec w) (ae_controller e))) \<and>
    (\<forall>d. getFromCache C h n (hw_registry w) = Some d \<and> set (hd_connections d) \<subseteq> {hs_connectionId sess} \<longrightarrow>
       (\<exists>d'. getFromCache C h n (hw_registry w') = Some d' \<and> hd_status d' = Reconnecting \<and>
          jm_get (gr_timers (hw_registry w')) (graceKey n h) \<noteq> None))"
proof -
  have gone: "h \<notin> set (capable (world_disp w') n cap)"
    by (simp add: w'_def h_def n_def gw_simps)
  moreover have "firstHostWithCapability n cap (world_disp w') \<noteq> Some h"
    using gone by (auto simp: firstHostWithCapability_find find_Some_iff in_set_conv_nth)
  moreover have "\<exists>d'. getFromCache C h n (hw_registry w') = Some d' \<and> hd_status d' = Reconnecting \<and>
          jm_get (gr_timers (hw_registry w')) (graceKey n h) \<noteq> None"
    if "getFromCache C h n (hw_registry w) = Some d" "set (hd_connections d) \<subseteq> {hs_connectionId sess}" for d
  proof -
    have "filter (\<lambda>c. c \<noteq> hs_connectionId sess) (hd_connections d) = []" using that(2) by (auto simp: filter_empty_conv)
    with that(1) show ?thesis
      by (simp add: w'_def gw_simps h_def n_def setOffline_def Let_def getFromCache_def
          icache.read_over_set [OF assms(1)])
  qed
  ultimately show ?thesis
    using cancelByHost_facts(1,2) [OF assms(2), where h = h and reason = "''disconnect''"]
    by (simp add: w'_def h_def n_def gw_simps exec_get_def)
qed

definition sample_world :: "((string, cval) jsmap, sqlite_store) host_world" where
  "sample_world = \<lparr>hw_gateway = sample_running, hw_registry = fresh_online\<rparr>"

definition sample_session :: "string \<Rightarrow> nat \<Rightarrow> host_session" where
  "sample_session conn sk = \<lparr>hs_hostId = ''h'', hs_namespaceId = ''n'', hs_connectionId = conn,
     hs_socket = sk, hs_lastHeartbeat = 0\<rparr>"

lemma sample_session_simps [simp]:
  "hs_hostId (sample_session c k) = ''h''" "hs_namespaceId (sample_session c k) = ''n''"
  "hs_connectionId (sample_session c k) = c" "hs_socket (sample_session c k) = k"
  by (simp_all add: sample_session_def)

lemma host_connect_effect_witness:
  "socket_of (world_disp (snd (host_connect mem_cache (Some sqlite_ops) (sample_session ''c2'' 9) ''1.0''
     [''git'', ''root''] ''s'' (\<lambda>_. ''u'') 5 sample_world))) ''n'' ''h'' = Some 9"
  using host_connect_effect [OF mem.icache_axioms, where sess = "sample_session ''c2'' 9" and
      w = sample_world and St = "Some sqlite_ops"] by simp

lemma host_closed_effect_witness:
  "fst (host_closed mem_cache (Some sqlite_ops) (sample_session ''c1'' 7) 5 sample_world) = [''e'']"
proof -
  have "exec_ok (world_exec sample_world)"
    using sample_running_ok(1) by (simp add: world_exec_def sample_world_def)
  moreover have "filter (live_on (world_exec sample_world) ''h'')
      (jm_keys (xr_executions (world_exec sample_world))) = [''e'']" by code_simp
  ultimately show ?thesis
    using host_closed_effect [OF mem.icache_axioms, where sess = "sample_session ''c1'' 7" and
        w = sample_world and St = "Some sqlite_ops"] by simp
qed

text \<open>
  C36: the close of an old connection tears down the new one. When a host connects again before the
  close of its old socket is handled, the old socket's close listener removes the new socket from the
  dispatcher and aborts the executions running over it, while the registry, which compares connection
  ids, rightly keeps the host online: the host is online there and unreachable by every call until it
  connects once more.
\<close>

theorem stale_close_drops_connection:
  fixes St :: "'s store_ops option" and w :: "('c, 's) host_world" and old new :: host_session
    and pv sid :: string and caps :: "string list" and spans :: "nat \<Rightarrow> string" and now now' :: int
  assumes "icache C" "exec_ok (world_exec w)"
    and "hs_hostId old = hs_hostId new" "hs_namespaceId old = hs_namespaceId new"
    and "hs_connectionId old \<noteq> hs_connectionId new"
  defines "w1 \<equiv> snd (host_connect C St new pv caps sid spans now w)"
  defines "w2 \<equiv> snd (host_closed C St old now' w1)"
  defines "h \<equiv> hs_hostId new" and "n \<equiv> hs_namespaceId new"
  shows "socket_of (world_disp w1) n h = Some (hs_socket new) \<and>
    (\<exists>d. getFromCache C h n (hw_registry w2) = Some d \<and> hd_status d = Online \<and>
       hd_connections d = [hs_connectionId new]) \<and>
    dispatcher_call n h adapter f args r tr thr (world_disp w2) =
      (Inl (not_connected_message h n), world_disp w2) \<and>
    (\<forall>k e. exec_get k (world_exec w1) = Some e \<and> live_on (world_exec w1) h k \<longrightarrow>
       abort_reason (world_exec w2) (ae_controller e) = Some ''disconnect'')"
proof -
  have keep: "\<exists>d. getFromCache C h n (hw_registry w2) = Some d \<and> hd_status d = Online \<and>
       hd_connections d = [hs_connectionId new]"
  proof -
    obtain d where d: "getFromCache C h n (hw_registry w1) = Some d" "hd_connections d = [hs_connectionId new]"
      using icache.connect_registry [OF assms(1), of new St pv caps sid spans now w]
      by (auto simp: w1_def h_def n_def)
    then show ?thesis
      using assms(3-5) by (simp add: w2_def gw_simps setOffline_def h_def n_def getFromCache_def
          icache.read_over_set [OF assms(1)])
  qed
  have sock: "socket_of (world_disp w2) n h = None" "socket_of (world_disp w1) n h = Some (hs_socket new)"
    using assms(3,4) by (simp_all add: w2_def w1_def h_def n_def gw_simps)
  have ok: "exec_ok (world_exec w1)" using assms(2) by (simp add: w1_def gw_simps)
  show ?thesis
    using keep sock cancelByHost_facts(2) [OF ok, where h = h and reason = "''disconnect''"] assms(3)
    by (auto simp: dispatcher_call_def w2_def gw_simps exec_get_def h_def)
qed

lemma stale_close_drops_connection_witness:
  "fst (dispatcher_call ''n'' ''h'' ''execution'' ''execute'' [] ''r''
     \<lparr>tc_traceId = ''t'', tc_spanId = ''u'', tc_parentId = None\<rparr> None
     (world_disp (snd (host_closed mem_cache (Some sqlite_ops) (sample_session ''c1'' 7) 6
       (snd (host_connect mem_cache (Some sqlite_ops) (sample_session ''c2'' 9) ''1.0'' [''execution''] ''s''
          (\<lambda>_. ''u'') 5 sample_world)))))) = Inl (not_connected_message ''h'' ''n'')"
proof -
  have ok: "exec_ok (world_exec sample_world)"
    using sample_running_ok(1) by (simp add: world_exec_def sample_world_def)
  have "hs_connectionId (sample_session ''c1'' 7) \<noteq> hs_connectionId (sample_session ''c2'' 9)" by simp
  note T = stale_close_drops_connection [OF mem.icache_axioms ok _ _ this, where St = "Some sqlite_ops"]
  show ?thesis using T by simp
qed

text \<open>
  C31: an adapter call carries the identity of the connection. Whatever context a host puts into the
  message, the request forwarded to the platform names the namespace and host of its token, and one of
  the six allowed adapters; a message the schema does not accept is answered with
  \<open>INVALID_MESSAGE\<close> and not forwarded, so the second allowlist check never rejects anything; and the
  platform's reply is always answered to the request id of the call.
\<close>

theorem adapter_call_identity:
  "case adapter_call_start url secret zm h n msg of
      AS_forward rid req \<Rightarrow>
        js_member msg ''requestId'' = JStr rid \<and> fr_secret req = or_else secret '''' \<and>
        js_member (js_member (fr_body req) ''context'') ''namespaceId'' = JStr n \<and>
        js_member (js_member (fr_body req) ''context'') ''hostId'' = JStr h \<and>
        (\<exists>a. js_member (fr_body req) ''adapter'' = JStr a \<and> parse_adapter a \<noteq> None) \<and>
        (case adapter_call_finish rid res of
           O_adapter_response r v \<Rightarrow> r = rid \<and> (\<exists>b. res = Rest_body b \<and> v = js_member b ''result'')
         | O_adapter_error r e \<Rightarrow> r = JStr rid
         | _ \<Rightarrow> False)
    | AS_reply m \<Rightarrow> parse_adapter_call msg = None \<and>
        m = O_adapter_error (js_nullish (js_member msg ''requestId'') (JStr ''unknown''))
          (plain_error ''INVALID_MESSAGE'' zm False)"
proof (cases "parse_adapter_call msg")
  case None
  then show ?thesis by (simp add: adapter_call_start_def)
next
  case (Some call)
  with parse_adapter_call_adapter [OF Some] parse_adapter_call_requestId [OF Some] show ?thesis
    by (auto simp: adapter_call_start_def context_json_def adapter_call_finish_def Let_def
        split: option.splits rest_result.splits)
qed

text \<open>
  Any host may answer any call. The listener hands chunk, result and error messages to the
  dispatcher without the identity of the connection they came on: a call made to one host is settled
  by a message from a host of another namespace that names its request id.
\<close>

theorem any_host_answers:
  fixes w :: "('c, 's) host_world" and sess :: host_session and a f :: string and args :: "jval list"
    and tr :: trace_context
  assumes "socket_of (world_disp w) n h \<noteq> None" "r \<noteq> []"
    and "hs_hostId sess \<noteq> h" "hs_namespaceId sess \<noteq> n"
  defines "w1 \<equiv> upd_disp (\<lambda>d. snd (dispatcher_call n h a f args r tr None d)) w"
  defines "answer \<equiv> JObj [(''type'', JStr ''result''), (''requestId'', JStr r)]"
  shows "jm_get (d_promises (world_disp w1)) r = Some P_pending \<and>
    jm_get (d_promises (world_disp (snd (snd (host_message C sess now (Some answer) w1))))) r =
      Some (P_resolved JUndef)"
proof -
  note opened = call_opens [OF assms(1), of a f args r tr]
  then have "jm_get (d_promises (world_disp w1)) r = Some P_pending"
    "jm_get (d_pending (world_disp w1)) r = Some \<lparr>pc_chunks = [], pc_timer = d_nextTimer (world_disp w)\<rparr>"
    by (simp_all add: w1_def world_disp_def upd_disp_def)
  with assms(2) show ?thesis
    by (simp add: answer_def host_message_def inbound_of_def as_string_def handleInbound_def
        upd_disp_def world_disp_def settle_promise collect_chunks_def)
qed

definition sample_intruder :: host_session where
  "sample_intruder = (sample_session ''c'' 3)\<lparr>hs_hostId := ''evil'', hs_namespaceId := ''m''\<rparr>"

lemma any_host_answers_witness:
  "jm_get (d_promises (world_disp (snd (snd (host_message mem_cache sample_intruder 1
      (Some (JObj [(''type'', JStr ''result''), (''requestId'', JStr ''r'')]))
      (upd_disp (\<lambda>d. snd (dispatcher_call ''n'' ''h'' ''git'' ''log'' []
         ''r'' \<lparr>tc_traceId = ''t'', tc_spanId = ''u'', tc_parentId = None\<rparr> None d)) sample_world)))))) ''r'' =
     Some (P_resolved JUndef)"
proof -
  have "socket_of (world_disp sample_world) ''n'' ''h'' \<noteq> None" by code_simp
  moreover have "''r'' \<noteq> []" "hs_hostId sample_intruder \<noteq> ''h''" "hs_namespaceId sample_intruder \<noteq> ''n''"
    by (simp_all add: sample_intruder_def)
  ultimately show ?thesis by (rule conjunct2 [OF any_host_answers])
qed

end
