(* ===== verification/Server_Routes.thy ===== *)
theory Server_Routes
  imports Host_Ws
begin

text \<open>
  The routes apps/gateway-app/src/server.ts declares itself: the internal endpoints the execution layer
  calls (\<open>/internal/dispatch\<close>, \<open>/internal/resolve-host\<close>), the host endpoints (\<open>/hosts\<close>), and
  \<open>/health\<close> with \<open>/ready\<close>. Replies are datatypes that carry what the handler sends. A request
  body the code only casts is read as its cast says: a member of another type counts as missing.
\<close>

section \<open>Request identity (onRequest hook)\<close>

definition request_ids ::
  "string option \<Rightarrow> string option \<Rightarrow> string option \<Rightarrow> string \<Rightarrow> string \<Rightarrow> string \<times> string" where
  "request_ids x_request_id x_trace_id fastify_id uuid1 uuid2 =
     (if truthy x_request_id then the x_request_id
      else if truthy fastify_id then the fastify_id else uuid1,
      if truthy x_trace_id then the x_trace_id else uuid2)"

section \<open>POST /internal/dispatch\<close>

record dispatch_body =
  db_namespaceId :: "string option"
  db_hostId :: "string option"
  db_adapter :: "string option"
  db_method :: "string option"
  db_args :: "jval list option"

definition as_array :: "jval \<Rightarrow> jval list option" where
  "as_array v = (case v of JArr vs \<Rightarrow> Some vs | _ \<Rightarrow> None)"

definition dispatch_body_of :: "jval \<Rightarrow> dispatch_body" where
  "dispatch_body_of body =
     \<lparr>db_namespaceId = as_string (js_member body ''namespaceId''),
      db_hostId = as_string (js_member body ''hostId''),
      db_adapter = as_string (js_member body ''adapter''),
      db_method = as_string (js_member body ''method''),
      db_args = as_array (js_member body ''args'')\<rparr>"

datatype dispatch_reply =
    DR_forbidden
  | DR_throws
      \<comment> \<open>the handler itself throws, Fastify answers 500\<close>
  | DR_missing_fields
  | DR_no_host string
  | DR_waiting string
      \<comment> \<open>the call was sent, its promise is filed under this request id\<close>
  | DR_unavailable string
  | DR_bad_gateway string
  | DR_result jval

definition internal_allowed :: "string option \<Rightarrow> string option \<Rightarrow> bool" where
  "internal_allowed internalSecret provided \<longleftrightarrow> truthy internalSecret \<and> provided = internalSecret"

text \<open>The \<open>catch\<close> block.\<close>

definition call_failed :: "string \<Rightarrow> dispatch_reply" where
  "call_failed message =
     (if js_includes message ''Host not connected'' then DR_unavailable message else DR_bad_gateway message)"

definition dispatch_target :: "dispatch_body \<Rightarrow> string \<Rightarrow> string \<Rightarrow> dispatcher \<Rightarrow> string option" where
  "dispatch_target b ns adapter d =
     or_else_opt (db_hostId b) (or_else_opt (firstHostWithCapability ns adapter d) (firstHost ns d))"

definition internal_dispatch ::
  "string option \<Rightarrow> string option \<Rightarrow> jval \<Rightarrow> string \<Rightarrow> trace_context \<Rightarrow> string option \<Rightarrow> dispatcher \<Rightarrow>
     dispatch_reply \<times> dispatcher" where
  "internal_dispatch internalSecret provided body requestId trace send_throws d =
     (if \<not> internal_allowed internalSecret provided then (DR_forbidden, d)
      else if body = JUndef \<or> body = JNull then (DR_throws, d)
      else let b = dispatch_body_of body
        in if \<not> truthy (db_namespaceId b) \<or> \<not> truthy (db_adapter b) \<or> \<not> truthy (db_method b)
           then (DR_missing_fields, d)
           else let ns = the (db_namespaceId b);
                    adapter = the (db_adapter b);
                    hostId = dispatch_target b ns adapter d
             in if \<not> truthy hostId then (DR_no_host ns, d)
                else case dispatcher_call ns (the hostId) adapter (the (db_method b)) (or_else (db_args b) [])
                       requestId trace send_throws d of
                       (Inl message, d1) \<Rightarrow> (call_failed message, d1)
                     | (Inr r, d1) \<Rightarrow> (DR_waiting r, d1))"

text \<open>The reply once the promise of the call has settled.\<close>

definition dispatch_settled :: "promise \<Rightarrow> dispatch_reply option" where
  "dispatch_settled p = (case p of
       P_pending \<Rightarrow> None
     | P_resolved v \<Rightarrow> Some (DR_result v)
     | P_rejected message \<Rightarrow> Some (call_failed message))"

section \<open>POST /internal/resolve-host\<close>

datatype resolve_reply =
    RR_forbidden
  | RR_throws
  | RR_not_found
  | RR_host string string string
      \<comment> \<open>hostId, strategy, namespaceId\<close>

definition resolve_host ::
  "'c cache_ops \<Rightarrow> 's store_ops option \<Rightarrow> string option \<Rightarrow> string option \<Rightarrow> jval \<Rightarrow> dispatcher \<Rightarrow>
     ('c, 's) host_registry \<Rightarrow> resolve_reply \<times> ('c, 's) host_registry" where
  "resolve_host C St internalSecret provided body d r =
     (if \<not> internal_allowed internalSecret provided then (RR_forbidden, r)
      else if body = JUndef \<or> body = JNull then (RR_throws, r)
      else let namespaceId = or_else (as_string (js_member body ''namespaceId'')) ''default'';
               target = js_member body ''target'';
               strategy = or_else (as_string (js_member target ''hostSelection'')) ''any-matching'';
               targetHost = as_string (js_member target ''hostId'');
               (hostId, r1) =
                 (if strategy = ''pinned'' \<and> truthy targetHost
                  then let (host, r1) = reg_get C St (the targetHost) namespaceId r
                       in (case host of
                             Some d' \<Rightarrow> if hd_status d' = Online \<or> hd_status d' = Reconnecting
                                        then targetHost else None
                           | None \<Rightarrow> None, r1)
                  else (firstHostWithCapability namespaceId ''execution'' d, r))
           in if \<not> truthy hostId then (RR_not_found, r1)
              else (RR_host (the hostId) strategy namespaceId, r1))"

section \<open>/hosts\<close>

datatype hosts_reply =
    HO_unauthorized
  | HO_bad_request
  | HO_created string string host_status
      \<comment> \<open>hostId, machineToken, status\<close>
  | HO_hosts "host_descriptor list"
  | HO_host host_descriptor
  | HO_not_found
  | HO_no_content

definition route_hosts_register ::
  "'c cache_ops \<Rightarrow> 's store_ops option \<Rightarrow> string \<Rightarrow> string \<Rightarrow> int \<Rightarrow> jval \<Rightarrow> ('c, 's) host_registry \<Rightarrow>
     hosts_reply \<times> ('c, 's) host_registry" where
  "route_hosts_register C St uuid machineToken now body r =
     (case parse_host_registration body of
        None \<Rightarrow> (HO_bad_request, r)
      | Some reg \<Rightarrow>
          let ((descriptor, token), r1) = reg_register C St uuid machineToken now reg r
          in (HO_created (hd_hostId descriptor) token (hd_status descriptor), r1))"

text \<open>A context without a namespace (a refresh token) queries the namespace printed as \<open>undefined\<close>.\<close>

definition auth_namespace :: "auth_context \<Rightarrow> string" where
  "auth_namespace ctx = or_else (ac_namespaceId ctx) ''undefined''"

definition route_hosts_list ::
  "'c cache_ops \<Rightarrow> 's store_ops option \<Rightarrow> auth_context option \<Rightarrow> ('c, 's) host_registry \<Rightarrow>
     hosts_reply \<times> ('c, 's) host_registry" where
  "route_hosts_list C St auth r =
     (case auth of
        None \<Rightarrow> (HO_unauthorized, r)
      | Some ctx \<Rightarrow> let (hosts, r1) = reg_list C St (auth_namespace ctx) r in (HO_hosts hosts, r1))"

definition route_hosts_get ::
  "'c cache_ops \<Rightarrow> 's store_ops option \<Rightarrow> auth_context option \<Rightarrow> string \<Rightarrow> ('c, 's) host_registry \<Rightarrow>
     hosts_reply \<times> ('c, 's) host_registry" where
  "route_hosts_get C St auth hostId r =
     (case auth of
        None \<Rightarrow> (HO_unauthorized, r)
      | Some ctx \<Rightarrow>
          (case reg_get C St hostId (auth_namespace ctx) r of
             (None, r1) \<Rightarrow> (HO_not_found, r1)
           | (Some host, r1) \<Rightarrow> (HO_host host, r1)))"

definition route_hosts_delete ::
  "'c cache_ops \<Rightarrow> 's store_ops option \<Rightarrow> auth_context option \<Rightarrow> string \<Rightarrow> ('c, 's) host_registry \<Rightarrow>
     hosts_reply \<times> ('c, 's) host_registry" where
  "route_hosts_delete C St auth hostId r =
     (case auth of
        None \<Rightarrow> (HO_unauthorized, r)
      | Some ctx \<Rightarrow>
          let (deleted, r1) = deregister C St hostId (auth_namespace ctx) r
          in (if deleted then HO_no_content else HO_not_found, r1))"

section \<open>/health and /ready\<close>

text \<open>
  A probe says whether the platform has the adapter, and whether the upstream's own health endpoint
  answered with an ok status in time. Latencies and the time stamp are left out.
\<close>

record health_snapshot =
  sn_status :: string
  sn_uptime :: int
  sn_adapters :: "(string \<times> bool) list"
  sn_upstreams :: "(string \<times> string) list"

definition adapterNames :: "string list" where
  "adapterNames = [''llm'', ''cache'', ''analytics'', ''vectorStore'', ''embeddings'']"

definition health_status :: "(string \<times> bool) list \<Rightarrow> string" where
  "health_status adapters =
     (let llmOk = or_else (map_of adapters ''llm'') False;
          allOk = list_all snd adapters
      in if llmOk then (if allOk then ''healthy'' else ''degraded'') else ''unhealthy'')"

text \<open>The cached snapshot is a parameter and is returned updated; it lives 15 seconds.\<close>

definition collectHealthSnapshot ::
  "(string \<Rightarrow> bool) \<Rightarrow> (string \<times> bool) list \<Rightarrow> int \<Rightarrow> int \<Rightarrow> health_snapshot option \<Rightarrow>
     health_snapshot \<times> health_snapshot option" where
  "collectHealthSnapshot available upstreams startupTime now cached =
     (case cached of
        Some s \<Rightarrow> (s, cached)
      | None \<Rightarrow>
          let adapters = map (\<lambda>name. (name, available name)) adapterNames;
              snapshot = \<lparr>sn_status = health_status adapters, sn_uptime = (now - startupTime) div 1000,
                sn_adapters = adapters,
                sn_upstreams = map (\<lambda>(name, ok). (name, if ok then ''up'' else ''down'')) upstreams\<rparr>
          in (snapshot, Some snapshot))"

definition upstream_status :: "health_snapshot \<Rightarrow> string \<Rightarrow> string" where
  "upstream_status health name = or_else (map_of (sn_upstreams health) name) ''down''"

record ready_reply =
  rd_code :: nat
  rd_status :: string
  rd_reason :: string
  rd_components :: "(string \<times> bool \<times> string) list"

definition route_ready :: "health_snapshot \<Rightarrow> ready_reply" where
  "route_ready health =
     (let missing = filter (\<lambda>name. upstream_status health name \<noteq> ''up'') [''rest''];
          ready = (missing = []);
          component = (\<lambda>key name. (key, upstream_status health name = ''up'', upstream_status health name))
      in \<lparr>rd_code = (if ready then 200 else 503),
          rd_status = (if ready then ''ready'' else ''degraded''),
          rd_reason = (if ready then ''ready'' else ''upstream_unavailable:'' @ concat missing),
          rd_components = [component ''restUpstream'' ''rest'', component ''workflowUpstream'' ''workflow'',
            component ''marketplaceUpstream'' ''marketplace'']\<rparr>)"

section \<open>Lemmas\<close>

lemma firstHost_facts:
  "firstHost ns d = Some h \<Longrightarrow> socket_of d ns h \<noteq> None"
  "firstHost ns d = None \<Longrightarrow> socket_of d ns h' = None"
proof -
  have keys: "jm_keys m = k # ks \<Longrightarrow> jm_get m k \<noteq> None" for m :: "(string, sock) jsmap" and k ks
    using set_jm_keys [of m] by auto
  have empty: "jm_keys m = [] \<Longrightarrow> jm_get m h' = None" for m :: "(string, sock) jsmap"
    using set_jm_keys [of m] by auto
  show "firstHost ns d = Some h \<Longrightarrow> socket_of d ns h \<noteq> None"
    using keys by (force simp: firstHost_def socket_of_def split: option.splits list.splits)
  show "firstHost ns d = None \<Longrightarrow> socket_of d ns h' = None"
    using empty by (auto simp: firstHost_def socket_of_def split: option.splits list.splits)
qed

lemma capability_host:
  assumes "disp_reachable ok d"
  shows "firstHostWithCapability ns cap d = Some h \<Longrightarrow> socket_of d ns h \<noteq> None \<and> h \<in> set (capable d ns cap)"
    and "firstHostWithCapability ns cap d = None \<Longrightarrow> capable d ns cap = []"
proof -
  have live: "\<forall>h\<in>set (capable d ns cap). socket_of d ns h \<noteq> None"
    using disp_reachable_ok [OF assms] by (simp add: index_ok_def)
  show "firstHostWithCapability ns cap d = Some h \<Longrightarrow> socket_of d ns h \<noteq> None \<and> h \<in> set (capable d ns cap)"
    by (auto simp: firstHostWithCapability_find find_Some_iff in_set_conv_nth)
  show "firstHostWithCapability ns cap d = None \<Longrightarrow> capable d ns cap = []"
    using live by (cases "capable d ns cap") (auto simp: firstHostWithCapability_find)
qed

lemma dispatch_target_facts:
  assumes "disp_reachable ok d" "db_hostId b = None"
  shows "dispatch_target b ns a d = Some h \<Longrightarrow>
      socket_of d ns h \<noteq> None \<and> (capable d ns a \<noteq> [] \<longrightarrow> h \<in> set (capable d ns a))"
    and "dispatch_target b ns a d = None \<Longrightarrow> socket_of d ns h = None"
  using assms(2) capability_host [OF assms(1), of ns a] firstHost_facts [of ns d]
  by (auto simp: dispatch_target_def or_else_opt_def split: option.splits)

lemma internal_dispatch_call:
  assumes "s \<noteq> []" "dispatch_body_of body = \<lparr>db_namespaceId = Some ns, db_hostId = ho, db_adapter = Some a,
      db_method = Some f, db_args = args\<rparr>" "ns \<noteq> []" "a \<noteq> []" "f \<noteq> []"
  shows "internal_dispatch (Some s) (Some s) body rid tr thr d =
    (let hostId = or_else_opt ho (or_else_opt (firstHostWithCapability ns a d) (firstHost ns d))
     in if \<not> truthy hostId then (DR_no_host ns, d)
        else case dispatcher_call ns (the hostId) a f (or_else args []) rid tr thr d of
               (Inl message, d1) \<Rightarrow> (call_failed message, d1)
             | (Inr r, d1) \<Rightarrow> (DR_waiting r, d1))"
proof -
  have "body \<noteq> JUndef \<and> body \<noteq> JNull" using assms(2) by (auto simp: dispatch_body_of_def as_string_def)
  with assms show ?thesis by (simp add: internal_dispatch_def internal_allowed_def Let_def dispatch_target_def)
qed

lemma not_connected_unavailable [simp]:
  "call_failed (not_connected_message h n) = DR_unavailable (not_connected_message h n)"
proof -
  have "js_includes (not_connected_message h n) ''Host not connected''"
    using js_includes_append [of "[]" "''Host not connected''"] by (simp add: not_connected_message_def)
  then show ?thesis by (simp add: call_failed_def)
qed

section \<open>Properties\<close>



text \<open>A body for the endpoint with a host selection and possibly a host id.\<close>

definition resolve_request :: "string \<Rightarrow> string \<Rightarrow> string option \<Rightarrow> jval" where
  "resolve_request ns st ho = JObj [(''namespaceId'', JStr ns), (''target'',
     JObj ((''hostSelection'', JStr st) # (case ho of None \<Rightarrow> [] | Some h \<Rightarrow> [(''hostId'', JStr h)])))]"

text \<open>
  Resolving a host. A pinned target that names a host resolves to it only while the registry has it
  online or reconnecting; every other target resolves to the first connected execution host of the
  namespace, whatever the selection says: \<open>prefer-local\<close>, \<open>prefer-cloud\<close> and a pinned target without a
  host id are treated alike.
\<close>

theorem resolve_host_sound:
  fixes St :: "'s store_ops option" and r :: "('c, 's) host_registry" and ns st :: string
    and ho :: "string option"
  assumes "disp_reachable ok d"
  defines "body \<equiv> resolve_request ns st ho"
  shows "(st \<noteq> ''pinned'' \<or> ho = None \<longrightarrow>
      fst (resolve_host C St secret provided body d r) =
        (if \<not> internal_allowed secret provided then RR_forbidden
         else if truthy (firstHostWithCapability ns ''execution'' d)
         then RR_host (the (firstHostWithCapability ns ''execution'' d)) st ns else RR_not_found)) \<and>
    (case fst (resolve_host C St secret provided body d r) of
       RR_host h s n \<Rightarrow> s = st \<and> n = ns \<and>
         (ho = Some h \<and> st = ''pinned'' \<and> (\<exists>d'. fst (reg_get C St h ns r) = Some d' \<and>
             (hd_status d' = Online \<or> hd_status d' = Reconnecting)) \<or>
          socket_of d ns h \<noteq> None \<and> h \<in> set (capable d ns ''execution''))
     | RR_throws \<Rightarrow> False
     | _ \<Rightarrow> True)"
proof -
  note cap = capability_host(1) [OF assms(1), of ns "''execution''"]
  have read: "js_member body ''namespaceId'' = JStr ns"
    "js_member (js_member body ''target'') ''hostSelection'' = JStr st"
    "js_member (js_member body ''target'') ''hostId'' = (case ho of None \<Rightarrow> JUndef | Some h \<Rightarrow> JStr h)"
    "body \<noteq> JUndef" "body \<noteq> JNull"
    by (simp_all add: body_def resolve_request_def split: option.splits)
  show ?thesis
    using cap by (auto simp: resolve_host_def read Let_def as_string_def case_prod_unfold truthy_def
        split: option.splits if_splits)
qed

lemma resolve_host_sound_witness:
  "fst (resolve_host mem_cache (Some sqlite_ops) (Some ''k'') (Some ''k'')
     (resolve_request ''n'' ''prefer-local'' None) (gs_disp sample_gateway) fresh_registry) =
   RR_host ''h'' ''prefer-local'' ''n''"
proof -
  have "firstHostWithCapability ''n'' ''execution'' (gs_disp sample_gateway) = Some ''h''" by code_simp
  then show ?thesis
    using resolve_host_sound [OF sample_reachable, where ns = "''n''" and st = "''prefer-local''" and ho = None and
      C = mem_cache and St = "Some sqlite_ops" and secret = "Some ''k''" and provided = "Some ''k''" and r = fresh_registry]
    by (simp add: internal_allowed_def)
qed

text \<open>
  The life of a host over HTTP. A registered host is found, offline, by its namespace; after a
  delete it is not found. The delete answers 204 exactly when a store held the host: a gateway without
  a store answers 404 although it has just removed the host.
\<close>

theorem hosts_rest_lifecycle:
  fixes r :: "('c, sqlite_store) host_registry" and reg :: host_registration and uuid token :: string and now :: int
  assumes "icache C" and "St = None \<or> St = Some sqlite_ops" and "reg_inv C sqlite_ok r"
    and "parse_host_registration body = Some reg" and "ac_namespaceId ctx = Some (hr_namespaceId reg)"
  defines "r1 \<equiv> snd (route_hosts_register C St uuid token now body r)"
  defines "hid \<equiv> make_host_id uuid"
  defines "del \<equiv> route_hosts_delete C St (Some ctx) hid r1"
  shows "fst (route_hosts_register C St uuid token now body r) = HO_created hid token Offline \<and>
    (\<exists>d. fst (route_hosts_get C St (Some ctx) hid r1) = HO_host d \<and> hd_hostId d = hid \<and>
       hd_name d = hr_name reg \<and> hd_capabilities d = hr_capabilities reg \<and> hd_status d = Offline) \<and>
    fst del = (if St = None then HO_not_found else HO_no_content) \<and>
    fst (route_hosts_get C St (Some ctx) hid (snd del)) = HO_not_found"
proof -
  note E = registry_env_sqlite [OF assms(1,2)]
  let ?p = "reg_register C St uuid token now reg r" and ?n = "hr_namespaceId reg"
  note view = registry_env.register_view [OF E assms(3), of uuid token now reg]
  have r1: "r1 = snd ?p" using assms(4) by (simp add: r1_def route_hosts_register_def case_prod_unfold Let_def)
  have tok: "snd (fst ?p) = token" by (simp add: reg_register_def Let_def)
  have inv: "reg_inv C sqlite_ok r1" unfolding r1 by (rule registry_env.inv_register [OF E assms(3)])
  have cached: "getFromCache C hid ?n r1 = Some (fst (fst ?p))"
    by (simp add: r1 hid_def reg_register_def Let_def getFromCache_def icache.index_keeps [OF assms(1)]
        icache.read_over_set [OF assms(1)])
  have stored: "St \<noteq> None \<Longrightarrow> fst (sqlite_get hid ?n (gr_store r1)) \<noteq> None"
    using view(3) by (auto simp: r1 hid_def sqlite_get_result)
  note dereg = deregister_effect [OF assms(1,2) inv, of hid ?n]
  have del: "fst del = (if St = None then HO_not_found else HO_no_content)"
    using dereg stored assms(5) by (auto simp: del_def route_hosts_delete_def auth_namespace_def case_prod_unfold Let_def)
  have gone: "fst (reg_get C St hid ?n (snd del)) = None"
    using dereg assms(5) by (simp add: del_def route_hosts_delete_def auth_namespace_def case_prod_unfold Let_def)
  show ?thesis
    using cached del gone view(1) tok assms(4,5)
    by (simp add: route_hosts_register_def route_hosts_get_def auth_namespace_def case_prod_unfold Let_def reg_get_def
        hid_def split: option.splits)
qed

definition sample_registration :: jval where
  "sample_registration = JObj [(''name'', JStr ''laptop''), (''namespaceId'', JStr ''n''),
     (''capabilities'', JArr [JStr ''git'']), (''workspacePaths'', JArr [])]"

lemma hosts_rest_lifecycle_witness:
  "fst (route_hosts_delete mem_cache None (Some sample_auth) (make_host_id ''0-1'')
      (snd (route_hosts_register mem_cache None ''0-1'' ''tok'' 3 sample_registration fresh_registry))) = HO_not_found"
proof -
  let ?reg = "\<lparr>hr_name = ''laptop'', hr_namespaceId = ''n'', hr_capabilities = [Git], hr_workspacePaths = [],
      hr_hostType = None\<rparr>"
  have "parse_host_registration sample_registration = Some ?reg" by code_simp
  from hosts_rest_lifecycle [OF mem.icache_axioms _ fresh_ok(5) this, of None sample_auth]
  show ?thesis by (simp add: sample_auth_def)
qed

text \<open>
  Readiness and health. The gateway is ready (200) exactly when the snapshot has the upstream
  called rest up, and otherwise answers 503 naming it; a snapshot is healthy exactly when all five
  adapters are there and unhealthy exactly when the LLM is not; and while a snapshot is cached no probe
  has any influence, so a gateway whose upstream has just gone down still reports ready.
\<close>

theorem ready_iff_rest_up:
  "(rd_code (route_ready s) = (if map_of (sn_upstreams s) ''rest'' = Some ''up'' then 200 else 503)) \<and>
   (rd_reason (route_ready s) =
      (if map_of (sn_upstreams s) ''rest'' = Some ''up'' then ''ready'' else ''upstream_unavailable:rest'')) \<and>
   (let fresh = fst (collectHealthSnapshot available upstreams start now None) in
      (sn_status fresh = ''healthy'' \<longleftrightarrow> list_all available adapterNames) \<and>
      (sn_status fresh = ''unhealthy'' \<longleftrightarrow> \<not> available ''llm'') \<and>
      (rd_code (route_ready fresh) = 200 \<longleftrightarrow> map_of upstreams ''rest'' = Some True)) \<and>
   collectHealthSnapshot available upstreams start now (Some s) = (s, Some s)"
proof -
  have up: "map_of (map (\<lambda>(name, ok). (name, if ok then ''up'' else ''down'')) xs) k =
      map_option (\<lambda>ok. if ok then ''up'' else ''down'') (map_of xs k)" for xs :: "(string \<times> bool) list" and k
    using fun_cong [OF map_of_map [of "\<lambda>ok. if ok then ''up'' else ''down''" xs], of k] by (simp add: o_def)
  have rest: "upstream_status x ''rest'' = ''up'' \<longleftrightarrow> map_of (sn_upstreams x) ''rest'' = Some ''up''" for x
    by (simp add: upstream_status_def or_else_def split: option.splits)
  have code: "rd_code (route_ready x) = (if map_of (sn_upstreams x) ''rest'' = Some ''up'' then 200 else 503)"
    "rd_reason (route_ready x) =
      (if map_of (sn_upstreams x) ''rest'' = Some ''up'' then ''ready'' else ''upstream_unavailable:rest'')" for x
    by (simp_all add: route_ready_def Let_def rest)
  let ?fresh = "fst (collectHealthSnapshot available upstreams start now None)"
  have "map_of (sn_upstreams ?fresh) ''rest'' = Some ''up'' \<longleftrightarrow> map_of upstreams ''rest'' = Some True"
    by (auto simp: collectHealthSnapshot_def Let_def up)
  moreover have "sn_status ?fresh = ''healthy'' \<longleftrightarrow> list_all available adapterNames"
    "sn_status ?fresh = ''unhealthy'' \<longleftrightarrow> \<not> available ''llm''"
    by (simp_all add: collectHealthSnapshot_def Let_def health_status_def adapterNames_def)
  ultimately show ?thesis
    by (simp add: code Let_def) (simp add: collectHealthSnapshot_def)
qed

end
