(* ===== verification/Gateway_Transport.thy ===== *)
theory Gateway_Transport
  imports Server_Routes
begin

text \<open>
  The two clients of the internal endpoints in packages/gateway-core: \<open>GatewayDispatchTransport\<close>
  (transport/gateway-dispatch-transport.ts), which sends an execution to a runtime host and polls while
  the gateway answers 503, and \<open>GatewayHostResolver\<close> (resolver/gateway-host-resolver.ts). What the
  transport needs of the server is the locale \<open>dispatch_service\<close>, interpreted on the server's own
  \<open>internal_dispatch\<close>. \<open>fetch\<close> is read from an environment: its outcome per attempt.
\<close>

section \<open>HTTP\<close>

datatype fetch_outcome =
    Fetch_response nat string "string + jval"
      \<comment> \<open>status, text of the body (empty if reading it fails), parsed body or the error of parsing it\<close>
  | Fetch_rejects string
      \<comment> \<open>network failure or abort by the timeout\<close>

definition http_ok :: "nat \<Rightarrow> bool" where
  "http_ok status \<longleftrightarrow> 200 \<le> status \<and> status \<le> 299"

section \<open>GatewayDispatchTransport\<close>

record transport_options =
  tp_dispatchEndpoint :: string
  tp_internalSecret :: string
  tp_runtimeHostId :: string
  tp_namespaceId :: "string option"
  tp_timeoutMs :: "int option"
  tp_retryOn503 :: "(int option \<times> int option) option"
    \<comment> \<open>maxAttempts, delayMs\<close>

definition transport_maxAttempts :: "transport_options \<Rightarrow> int" where
  "transport_maxAttempts opts = or_else (Option.bind (tp_retryOn503 opts) fst) 1"

definition transport_delayMs :: "transport_options \<Rightarrow> int" where
  "transport_delayMs opts = or_else (Option.bind (tp_retryOn503 opts) snd) 1000"

text \<open>\<open>JSON.stringify\<close> leaves out a member that is undefined.\<close>

definition transport_body :: "transport_options \<Rightarrow> jval \<Rightarrow> jval" where
  "transport_body opts request =
     JObj ([(''hostId'', JStr (tp_runtimeHostId opts))] @
       (case tp_namespaceId opts of None \<Rightarrow> [] | Some ns \<Rightarrow> [(''namespaceId'', JStr ns)]) @
       [(''adapter'', JStr ''execution''), (''method'', JStr ''execute''), (''args'', JArr [request])])"

text \<open>The dash of the message is U+2014 in UTF-8.\<close>

definition dispatch_failed :: "nat \<Rightarrow> string \<Rightarrow> string" where
  "dispatch_failed status body =
     ''Gateway dispatch failed: HTTP '' @ nat_string status @
       [CHR '' '', CHR 0xE2, CHR 0x80, CHR 0x94, CHR '' ''] @ body"

definition attempts_exhausted :: string where
  "attempts_exhausted = ''Gateway dispatch failed: max retry attempts exhausted''"

datatype transport_effect = TE_fetch | TE_sleep int

text \<open>What an attempt whose outcome is not waited out gives.\<close>

definition transport_answer :: "fetch_outcome \<Rightarrow> string + jval" where
  "transport_answer out =
     (case out of
        Fetch_rejects e \<Rightarrow> Inl e
      | Fetch_response status body json \<Rightarrow>
          if \<not> http_ok status then Inl (dispatch_failed status body)
          else (case json of
                  Inl e \<Rightarrow> Inl e
                | Inr v \<Rightarrow> if v = JNull then Inl ''Cannot read properties of null (reading 'result')''
                           else Inr (js_member v ''result'')))"

text \<open>The \<open>for\<close> loop from a given attempt on.\<close>

function transport_loop ::
  "transport_options \<Rightarrow> (nat \<Rightarrow> fetch_outcome) \<Rightarrow> nat \<Rightarrow> string option \<Rightarrow>
     (string + jval) \<times> transport_effect list" where
  "transport_loop opts env attempt lastError =
     (if int attempt > transport_maxAttempts opts then (Inl (or_else lastError attempts_exhausted), [])
      else case env attempt of
        Fetch_response status body json \<Rightarrow>
          if status = 503 \<and> int attempt < transport_maxAttempts opts
          then let (r, effs) = transport_loop opts env (Suc attempt) (Some (dispatch_failed 503 body))
               in (r, TE_fetch # TE_sleep (transport_delayMs opts) # effs)
          else (transport_answer (env attempt), [TE_fetch])
      | Fetch_rejects e \<Rightarrow> (transport_answer (env attempt), [TE_fetch]))"
  by pat_completeness auto
termination
  by (relation "measure (\<lambda>(opts, env, attempt, lastError). nat (transport_maxAttempts opts + 1 - int attempt))")
    auto

declare transport_loop.simps [simp del]

definition transport_execute ::
  "transport_options \<Rightarrow> (nat \<Rightarrow> fetch_outcome) \<Rightarrow> (string + jval) \<times> transport_effect list" where
  "transport_execute opts env = transport_loop opts env 1 None"

text \<open>An attempt that is waited out.\<close>

definition transport_waits :: "transport_options \<Rightarrow> (nat \<Rightarrow> fetch_outcome) \<Rightarrow> nat \<Rightarrow> bool" where
  "transport_waits opts env k \<longleftrightarrow>
     int k < transport_maxAttempts opts \<and>
     (case env k of Fetch_response status _ _ \<Rightarrow> status = 503 | Fetch_rejects _ \<Rightarrow> False)"

definition wait_effects :: "transport_options \<Rightarrow> nat \<Rightarrow> transport_effect list" where
  "wait_effects opts n = concat (replicate n [TE_fetch, TE_sleep (transport_delayMs opts)])"

lemma transport_loop_last:
  assumes "int k \<le> transport_maxAttempts opts" "\<not> transport_waits opts env k"
  shows "transport_loop opts env k e = (transport_answer (env k), [TE_fetch])"
  using assms by (subst transport_loop.simps) (auto simp: transport_waits_def split: fetch_outcome.splits)

lemma transport_loop_wait:
  assumes "transport_waits opts env k"
  shows "\<exists>e'. transport_loop opts env k e =
    (fst (transport_loop opts env (Suc k) (Some e')),
     [TE_fetch, TE_sleep (transport_delayMs opts)] @ snd (transport_loop opts env (Suc k) (Some e')))"
proof -
  obtain status body json where "env k = Fetch_response status body json" "status = 503"
    using assms by (auto simp: transport_waits_def split: fetch_outcome.splits)
  with assms show ?thesis
    by (subst transport_loop.simps)
      (auto simp: transport_waits_def case_prod_unfold Let_def intro!: exI [of _ "dispatch_failed 503 body"])
qed

lemma transport_loop_waits:
  assumes "\<forall>j. i \<le> j \<and> j < k \<longrightarrow> transport_waits opts env j" "i \<le> k"
    and "int k \<le> transport_maxAttempts opts" "\<not> transport_waits opts env k"
  shows "transport_loop opts env i e = (transport_answer (env k), wait_effects opts (k - i) @ [TE_fetch])"
  using assms(1,2)
proof (induction "k - i" arbitrary: i e)
  case 0
  then show ?case using transport_loop_last [OF assms(3,4)] by (simp add: wait_effects_def)
next
  case (Suc m)
  then have i: "i < k" "transport_waits opts env i" by auto
  obtain e' where "transport_loop opts env i e =
    (fst (transport_loop opts env (Suc i) (Some e')),
     [TE_fetch, TE_sleep (transport_delayMs opts)] @ snd (transport_loop opts env (Suc i) (Some e')))"
    using transport_loop_wait [OF i(2)] by blast
  moreover have "transport_loop opts env (Suc i) (Some e') =
      (transport_answer (env k), wait_effects opts (k - Suc i) @ [TE_fetch])"
    using Suc.hyps(2) Suc.prems i by (intro Suc.hyps(1)) auto
  ultimately show ?case using i(1) by (simp add: wait_effects_def Suc_diff_Suc [symmetric])
qed

lemma transport_decided:
  assumes "1 \<le> transport_maxAttempts opts"
  shows "\<exists>k. 1 \<le> k \<and> int k \<le> transport_maxAttempts opts \<and> (\<forall>j. 1 \<le> j \<and> j < k \<longrightarrow> transport_waits opts env j) \<and>
    \<not> transport_waits opts env k"
proof -
  let ?P = "\<lambda>k. 1 \<le> k \<and> \<not> transport_waits opts env k"
  let ?k = "LEAST k. ?P k"
  have top: "?P (nat (transport_maxAttempts opts))" using assms by (simp add: transport_waits_def)
  then have k: "?P ?k" by (rule LeastI)
  have "?k \<le> nat (transport_maxAttempts opts)" using top by (rule Least_le)
  moreover have "transport_waits opts env j" if "1 \<le> j" "j < ?k" for j
    using not_less_Least [OF that(2)] that(1) by blast
  ultimately show ?thesis using k assms by (intro exI [of _ ?k]) auto
qed

section \<open>What the transport relies on\<close>

text \<open>
  A server answers 503 while the host is absent, and something else once it serves the request.
\<close>

locale dispatch_service =
  fixes serve :: "'d \<Rightarrow> fetch_outcome"
    and absent :: "'d \<Rightarrow> bool"
    and served :: "'d \<Rightarrow> jval option"
  assumes absent_503: "absent d \<Longrightarrow> \<exists>tx json. serve d = Fetch_response 503 tx json"
    and served_ok: "served d = Some v \<Longrightarrow>
      \<exists>tx. serve d = Fetch_response 200 tx (Inr (JObj [(''result'', v)]))"
begin

lemma waits_for_host:
  assumes "\<forall>j. 1 \<le> j \<and> j < k \<longrightarrow> absent (D j)" "served (D k) = Some v" "1 \<le> k"
    and "int k \<le> transport_maxAttempts opts"
  shows "transport_execute opts (\<lambda>i. serve (D i)) = (Inr v, wait_effects opts (k - 1) @ [TE_fetch])"
proof -
  obtain tx where k: "serve (D k) = Fetch_response 200 tx (Inr (JObj [(''result'', v)]))"
    using served_ok [OF assms(2)] by blast
  have "transport_waits opts (\<lambda>i. serve (D i)) j" if "1 \<le> j" "j < k" for j
    using absent_503 [of "D j"] assms(1,4) that by (auto simp: transport_waits_def)
  moreover have "\<not> transport_waits opts (\<lambda>i. serve (D i)) k" using k by (simp add: transport_waits_def)
  ultimately show ?thesis
    using transport_loop_waits [of 1 k opts "\<lambda>i. serve (D i)" None] assms(3,4) k
    by (simp add: transport_execute_def transport_answer_def http_ok_def)
qed

lemma gives_up:
  assumes "\<forall>j. absent (D j)" "1 \<le> transport_maxAttempts opts"
  shows "\<exists>body. transport_execute opts (\<lambda>i. serve (D i)) =
    (Inl (dispatch_failed 503 body), wait_effects opts (nat (transport_maxAttempts opts) - 1) @ [TE_fetch])"
proof -
  let ?k = "nat (transport_maxAttempts opts)"
  obtain tx json where k: "serve (D ?k) = Fetch_response 503 tx json"
    using absent_503 assms(1) by blast
  have "transport_waits opts (\<lambda>i. serve (D i)) j" if "1 \<le> j" "j < ?k" for j
    using absent_503 [of "D j"] assms(1) that by (auto simp: transport_waits_def)
  moreover have "\<not> transport_waits opts (\<lambda>i. serve (D i)) ?k" using assms(2) by (simp add: transport_waits_def)
  ultimately show ?thesis
    using transport_loop_waits [of 1 ?k opts "\<lambda>i. serve (D i)" None] assms(2) k
    by (auto simp: transport_execute_def transport_answer_def http_ok_def)
qed

end

section \<open>The gateway as that server\<close>

text \<open>The HTTP reply of \<open>/internal/dispatch\<close>; a request still waiting has none yet.\<close>

definition http_of_dispatch :: "dispatch_reply \<Rightarrow> (nat \<times> jval) option" where
  "http_of_dispatch rep =
     (let err = (\<lambda>m. JObj [(''error'', JStr m)])
      in case rep of
           DR_forbidden \<Rightarrow> Some (403, err ''Forbidden'')
         | DR_throws \<Rightarrow> Some (500, err ''Internal Server Error'')
         | DR_missing_fields \<Rightarrow> Some (400, err ''Missing required fields: namespaceId, adapter, method'')
         | DR_no_host ns \<Rightarrow> Some (503, JObj [(''error'', JStr ''No host connected''), (''namespaceId'', JStr ns)])
         | DR_waiting _ \<Rightarrow> None
         | DR_unavailable m \<Rightarrow> Some (503, err m)
         | DR_bad_gateway m \<Rightarrow> Some (502, err m)
         | DR_result v \<Rightarrow> Some (200, JObj [(''result'', v)]))"

text \<open>
  A moment at which an attempt arrives: the dispatcher then, the request id and trace the call takes,
  and how the promise of the call is settled in the end (pending: the attempt is aborted by its own
  timeout).
\<close>

record dispatch_moment =
  dm_dispatcher :: dispatcher
  dm_requestId :: string
  dm_trace :: trace_context
  dm_settled :: promise

definition moment_reply :: "string option \<Rightarrow> transport_options \<Rightarrow> jval \<Rightarrow> dispatch_moment \<Rightarrow> dispatch_reply option" where
  "moment_reply secret opts request m =
     (case fst (internal_dispatch secret (Some (tp_internalSecret opts)) (transport_body opts request)
                  (dm_requestId m) (dm_trace m) None (dm_dispatcher m)) of
        DR_waiting _ \<Rightarrow> dispatch_settled (dm_settled m)
      | rep \<Rightarrow> Some rep)"

definition moment_serve ::
  "(jval \<Rightarrow> string) \<Rightarrow> string option \<Rightarrow> transport_options \<Rightarrow> jval \<Rightarrow> dispatch_moment \<Rightarrow> fetch_outcome" where
  "moment_serve stringify secret opts request m =
     (case Option.bind (moment_reply secret opts request m) http_of_dispatch of
        None \<Rightarrow> Fetch_rejects ''This operation was aborted''
      | Some (status, body) \<Rightarrow> Fetch_response status (stringify body) (Inr body))"

definition well_addressed :: "string option \<Rightarrow> transport_options \<Rightarrow> bool" where
  "well_addressed secret opts \<longleftrightarrow>
     truthy secret \<and> secret = Some (tp_internalSecret opts) \<and> truthy (tp_namespaceId opts) \<and>
     tp_runtimeHostId opts \<noteq> []"

definition moment_absent :: "string option \<Rightarrow> transport_options \<Rightarrow> dispatch_moment \<Rightarrow> bool" where
  "moment_absent secret opts m \<longleftrightarrow> well_addressed secret opts \<and>
     socket_of (dm_dispatcher m) (the (tp_namespaceId opts)) (tp_runtimeHostId opts) = None"

definition moment_served :: "string option \<Rightarrow> transport_options \<Rightarrow> dispatch_moment \<Rightarrow> jval option" where
  "moment_served secret opts m =
     (if well_addressed secret opts \<and>
         socket_of (dm_dispatcher m) (the (tp_namespaceId opts)) (tp_runtimeHostId opts) \<noteq> None
      then (case dm_settled m of P_resolved v \<Rightarrow> Some v | _ \<Rightarrow> None) else None)"

lemma transport_body_read:
  "tp_namespaceId opts = Some ns \<Longrightarrow> dispatch_body_of (transport_body opts request) =
     \<lparr>db_namespaceId = Some ns, db_hostId = Some (tp_runtimeHostId opts), db_adapter = Some ''execution'',
      db_method = Some ''execute'', db_args = Some [request]\<rparr>"
  by (simp add: dispatch_body_of_def transport_body_def as_string_def as_array_def)

lemma moment_reply_cases:
  assumes "well_addressed secret opts"
  shows "moment_reply secret opts request m =
    (case socket_of (dm_dispatcher m) (the (tp_namespaceId opts)) (tp_runtimeHostId opts) of
       None \<Rightarrow> Some (DR_unavailable (not_connected_message (tp_runtimeHostId opts) (the (tp_namespaceId opts))))
     | Some _ \<Rightarrow> dispatch_settled (dm_settled m))"
proof -
  obtain s ns where s: "secret = Some s" "s \<noteq> []" "tp_internalSecret opts = s"
    and ns: "tp_namespaceId opts = Some ns" "ns \<noteq> []" and h: "tp_runtimeHostId opts \<noteq> []"
    using assms by (auto simp: well_addressed_def truthy_def split: option.splits)
  show ?thesis
    using s ns h internal_dispatch_call [OF s(2) transport_body_read [OF ns(1), of request] ns(2)]
    by (simp add: moment_reply_def dispatcher_call_def Let_def split: option.split)
qed

interpretation gateway: dispatch_service
  "moment_serve stringify secret opts request" "moment_absent secret opts" "moment_served secret opts"
  for stringify secret opts request
  by unfold_locales
    (auto simp: moment_serve_def moment_absent_def moment_served_def moment_reply_cases http_of_dispatch_def
      dispatch_settled_def Let_def split: option.splits promise.splits if_splits)

section \<open>GatewayHostResolver\<close>

record host_resolver =
  vr_url :: string
  vr_secret :: string
  vr_timeoutMs :: int

definition strip_one_slash :: "string \<Rightarrow> string" where
  "strip_one_slash s = (if s \<noteq> [] \<and> last s = CHR ''/'' then butlast s else s)"

definition make_resolver :: "string \<Rightarrow> string \<Rightarrow> int option \<Rightarrow> string + host_resolver" where
  "make_resolver gatewayUrl internalSecret timeoutMs =
     (if internalSecret = [] then Inl ''GatewayHostResolver: internalSecret is required''
      else Inr \<lparr>vr_url = strip_one_slash gatewayUrl @ ''/internal/resolve-host'', vr_secret = internalSecret,
                vr_timeoutMs = or_else timeoutMs 5000\<rparr>)"

definition resolver_namespace :: "jval \<Rightarrow> string" where
  "resolver_namespace target = or_else (as_string (js_member target ''namespace'')) ''default''"

definition resolver_body :: "jval \<Rightarrow> jval" where
  "resolver_body target = JObj [(''namespaceId'', JStr (resolver_namespace target)), (''target'', target)]"

text \<open>\<open>resolve\<close>: host, strategy, namespace, or \<open>null\<close>; every failure is \<open>null\<close>.\<close>

definition resolver_resolve :: "jval \<Rightarrow> fetch_outcome \<Rightarrow> (string \<times> string \<times> string) option" where
  "resolver_resolve target out =
     (case out of
        Fetch_rejects _ \<Rightarrow> None
      | Fetch_response status _ json \<Rightarrow>
          if status = 404 \<or> \<not> http_ok status then None
          else (case json of
                  Inl _ \<Rightarrow> None
                | Inr body \<Rightarrow>
                    if body = JNull \<or> \<not> truthy (as_string (js_member body ''hostId'')) then None
                    else Some (the (as_string (js_member body ''hostId'')),
                      or_else (as_string (js_member body ''strategy''))
                        (or_else (as_string (js_member target ''hostSelection'')) ''any-matching''),
                      or_else (as_string (js_member body ''namespaceId'')) (resolver_namespace target))))"

definition http_of_resolve :: "resolve_reply \<Rightarrow> nat \<times> jval" where
  "http_of_resolve rep =
     (case rep of
        RR_forbidden \<Rightarrow> (403, JObj [(''error'', JStr ''Forbidden'')])
      | RR_throws \<Rightarrow> (500, JObj [(''error'', JStr ''Internal Server Error'')])
      | RR_not_found \<Rightarrow> (404, JObj [(''error'', JStr ''No matching host found'')])
      | RR_host h s n \<Rightarrow> (200, JObj [(''hostId'', JStr h), (''strategy'', JStr s), (''namespaceId'', JStr n)]))"

section \<open>Properties\<close>

text \<open>
  C34: the polling loop terminates with its first decided attempt. For at least one attempt there is a
  first attempt \<open>k\<close> within the maximum that is not a 503 with attempts left; the result is that
  attempt's alone, after exactly \<open>k\<close> requests with \<open>k - 1\<close> waits of \<open>delayMs\<close> between them, and it is
  never the ``attempts exhausted'' error: that is thrown only, and without any request, when
  \<open>maxAttempts\<close> is below one.
\<close>

theorem transport_terminates:
  "(transport_maxAttempts opts < 1 \<longrightarrow> transport_execute opts env = (Inl attempts_exhausted, [])) \<and>
   (1 \<le> transport_maxAttempts opts \<longrightarrow>
      (\<exists>k. 1 \<le> k \<and> int k \<le> transport_maxAttempts opts \<and> list_all (transport_waits opts env) [1..<k] \<and>
         \<not> transport_waits opts env k \<and>
         transport_execute opts env = (transport_answer (env k), wait_effects opts (k - 1) @ [TE_fetch]))) \<and>
   (tp_retryOn503 opts = None \<longrightarrow> snd (transport_execute opts env) = [TE_fetch])"
proof -
  have none: "transport_execute opts env = (Inl attempts_exhausted, [])" if "transport_maxAttempts opts < 1"
    using that by (simp add: transport_execute_def transport_loop.simps)
  have some: "\<exists>k. 1 \<le> k \<and> int k \<le> transport_maxAttempts opts \<and> list_all (transport_waits opts env) [1..<k] \<and>
      \<not> transport_waits opts env k \<and>
      transport_execute opts env = (transport_answer (env k), wait_effects opts (k - 1) @ [TE_fetch])"
    if m: "1 \<le> transport_maxAttempts opts"
  proof -
    obtain k where k: "1 \<le> k" "int k \<le> transport_maxAttempts opts" "\<forall>j. 1 \<le> j \<and> j < k \<longrightarrow> transport_waits opts env j"
      "\<not> transport_waits opts env k"
      using transport_decided [OF m] by blast
    with transport_loop_waits [OF k(3) k(1,2,4)] show ?thesis
      by (intro exI [of _ k]) (auto simp: transport_execute_def list_all_iff)
  qed
  moreover have "snd (transport_execute opts env) = [TE_fetch]" if "tp_retryOn503 opts = None"
  proof -
    have one: "transport_maxAttempts opts = 1" using that by (simp add: transport_maxAttempts_def)
    then obtain k where "1 \<le> k" "int k \<le> 1" "transport_execute opts env =
        (transport_answer (env k), wait_effects opts (k - 1) @ [TE_fetch])" using some by auto
    then show ?thesis by (simp add: wait_effects_def)
  qed
  ultimately show ?thesis using none by blast
qed

definition sample_transport :: transport_options where
  "sample_transport = \<lparr>tp_dispatchEndpoint = ''u'', tp_internalSecret = ''k'', tp_runtimeHostId = ''h'',
     tp_namespaceId = Some ''n'', tp_timeoutMs = None, tp_retryOn503 = Some (Some 30, None)\<rparr>"

lemma transport_terminates_witness:
  "snd (transport_execute (sample_transport\<lparr>tp_retryOn503 := None\<rparr>) (\<lambda>_. Fetch_rejects ''down'')) = [TE_fetch]"
  using transport_terminates [of "sample_transport\<lparr>tp_retryOn503 := None\<rparr>"] by simp

text \<open>
  C22: waiting for a container to come up. Against the gateway itself, a transport with a namespace and
  the right secret whose runtime host connects only after \<open>k - 1\<close> attempts, \<open>k\<close> being within
  \<open>maxAttempts\<close>, returns the value the host's call resolves with, after exactly \<open>k\<close> requests.
\<close>

theorem transport_waits_for_host:
  assumes "well_addressed secret opts" "1 \<le> k" "int k \<le> transport_maxAttempts opts"
    and "\<forall>j. 1 \<le> j \<and> j < k \<longrightarrow>
      socket_of (dm_dispatcher (D j)) (the (tp_namespaceId opts)) (tp_runtimeHostId opts) = None"
    and "socket_of (dm_dispatcher (D k)) (the (tp_namespaceId opts)) (tp_runtimeHostId opts) \<noteq> None"
    and "dm_settled (D k) = P_resolved v"
  shows "transport_execute opts (\<lambda>i. moment_serve stringify secret opts request (D i)) =
    (Inr v, wait_effects opts (k - 1) @ [TE_fetch])"
  using assms by (intro gateway.waits_for_host) (auto simp: moment_absent_def moment_served_def)

definition sample_moment :: "dispatcher \<Rightarrow> dispatch_moment" where
  "sample_moment d = \<lparr>dm_dispatcher = d, dm_requestId = ''r'',
     dm_trace = \<lparr>tc_traceId = ''t'', tc_spanId = ''u'', tc_parentId = None\<rparr>, dm_settled = P_resolved (JNum 7)\<rparr>"

lemma transport_waits_for_host_witness:
  "fst (transport_execute sample_transport (\<lambda>i. moment_serve (\<lambda>_. ''x'') (Some ''k'') sample_transport JNull
     (sample_moment (if i < 3 then init_dispatcher else gs_disp sample_gateway)))) = Inr (JNum 7)"
proof -
  have "well_addressed (Some ''k'') sample_transport" "int 3 \<le> transport_maxAttempts sample_transport"
    "tp_namespaceId sample_transport = Some ''n''" "tp_runtimeHostId sample_transport = ''h''"
    by (simp_all add: well_addressed_def sample_transport_def transport_maxAttempts_def)
  moreover have "socket_of init_dispatcher ''n'' ''h'' = None" "socket_of (gs_disp sample_gateway) ''n'' ''h'' \<noteq> None"
    by code_simp+
  ultimately show ?thesis
    using transport_waits_for_host [of "Some ''k''" sample_transport 3
      "\<lambda>i. sample_moment (if i < 3 then init_dispatcher else gs_disp sample_gateway)" "JNum 7" "\<lambda>_. ''x''" JNull]
    by (simp add: sample_moment_def)
qed

text \<open>
  The documented default namespace does not exist. The option \<open>namespaceId\<close> is described as
  defaulting to ``default'', but without it no namespace is sent at all and the gateway refuses every
  request with 400, whichever hosts are connected, so every execution fails at its first attempt.
\<close>

theorem transport_needs_namespace:
  assumes "tp_namespaceId opts = None" "truthy secret" "secret = Some (tp_internalSecret opts)"
    and "1 \<le> transport_maxAttempts opts"
  shows "moment_reply secret opts request m = Some DR_missing_fields \<and>
    (\<exists>tx. transport_execute opts (\<lambda>i. moment_serve stringify secret opts request (D i)) =
       (Inl (dispatch_failed 400 tx), [TE_fetch]))"
proof -
  have reply: "moment_reply secret opts request x = Some DR_missing_fields" for x
    using assms(1-3) by (simp add: moment_reply_def internal_dispatch_def internal_allowed_def
        transport_body_def dispatch_body_of_def as_string_def Let_def)
  then have serve: "\<exists>tx json. moment_serve stringify secret opts request x = Fetch_response 400 tx json" for x
    by (simp add: moment_serve_def http_of_dispatch_def Let_def)
  then obtain tx json where one: "moment_serve stringify secret opts request (D 1) = Fetch_response 400 tx json"
    by blast
  then have "\<not> transport_waits opts (\<lambda>i. moment_serve stringify secret opts request (D i)) 1"
    by (simp add: transport_waits_def)
  with reply assms(4) one show ?thesis
    by (auto simp: transport_execute_def transport_loop_last transport_answer_def http_ok_def)
qed

lemma transport_needs_namespace_witness:
  "moment_reply (Some ''k'') (sample_transport\<lparr>tp_namespaceId := None\<rparr>) JNull
     (sample_moment (gs_disp sample_gateway)) = Some DR_missing_fields"
proof -
  let ?o = "sample_transport\<lparr>tp_namespaceId := None\<rparr>"
  have "tp_namespaceId ?o = None" "truthy (Some ''k'')" "Some ''k'' = Some (tp_internalSecret ?o)"
    "1 \<le> transport_maxAttempts ?o"
    by (simp_all add: sample_transport_def transport_maxAttempts_def)
  from conjunct1 [OF transport_needs_namespace [OF this]] show ?thesis .
qed

text \<open>
  C37: a handler's own error can run it again. When the runtime host answers with an error whose text
  contains ``Host not connected'', the gateway reports 503 although the handler has run, and a
  transport that polls dispatches the execution anew on every attempt it has left.
\<close>

theorem handler_error_reexecuted:
  assumes "well_addressed secret opts" "1 \<le> transport_maxAttempts opts"
    and "\<forall>j. socket_of (dm_dispatcher (D j)) (the (tp_namespaceId opts)) (tp_runtimeHostId opts) \<noteq> None"
    and "\<forall>j. dm_settled (D j) = P_rejected (a @ ''Host not connected'' @ b)"
  shows "\<exists>tx. transport_execute opts (\<lambda>i. moment_serve stringify secret opts request (D i)) =
    (Inl (dispatch_failed 503 tx), wait_effects opts (nat (transport_maxAttempts opts) - 1) @ [TE_fetch])"
proof -
  let ?env = "\<lambda>i. moment_serve stringify secret opts request (D i)"
  let ?k = "nat (transport_maxAttempts opts)"
  have serve: "\<exists>tx json. ?env i = Fetch_response 503 tx json" for i
    using assms(3,4) js_includes_append [of a "''Host not connected''" b]
    by (auto simp: moment_serve_def moment_reply_cases [OF assms(1)] dispatch_settled_def call_failed_def
        http_of_dispatch_def Let_def split: option.splits)
  have "transport_waits opts ?env j" if "1 \<le> j" "j < ?k" for j
    using serve [of j] that by (auto simp: transport_waits_def)
  moreover have "\<not> transport_waits opts ?env ?k" using assms(2) by (simp add: transport_waits_def)
  moreover obtain tx json where "?env ?k = Fetch_response 503 tx json" using serve by blast
  ultimately show ?thesis
    using transport_loop_waits [of 1 ?k opts ?env None] assms(2)
    by (auto simp: transport_execute_def transport_answer_def http_ok_def)
qed

lemma handler_error_reexecuted_witness:
  "length (snd (transport_execute sample_transport (\<lambda>i. moment_serve (\<lambda>_. ''x'') (Some ''k'') sample_transport JNull
     ((sample_moment (gs_disp sample_gateway))\<lparr>dm_settled := P_rejected ''Host not connected''\<rparr>)))) = 59"
proof -
  have opts: "well_addressed (Some ''k'') sample_transport" "transport_maxAttempts sample_transport = 30"
    "tp_namespaceId sample_transport = Some ''n''" "tp_runtimeHostId sample_transport = ''h''"
    by (simp_all add: well_addressed_def sample_transport_def transport_maxAttempts_def)
  moreover have "socket_of (gs_disp sample_gateway) ''n'' ''h'' \<noteq> None" by code_simp
  ultimately have "\<exists>tx. transport_execute sample_transport (\<lambda>i. moment_serve (\<lambda>_. ''x'') (Some ''k'') sample_transport JNull
     ((sample_moment (gs_disp sample_gateway))\<lparr>dm_settled := P_rejected ''Host not connected''\<rparr>)) =
     (Inl (dispatch_failed 503 tx), wait_effects sample_transport 29 @ [TE_fetch])"
    using handler_error_reexecuted [OF opts(1), of "\<lambda>_. (sample_moment (gs_disp sample_gateway))
        \<lparr>dm_settled := P_rejected ''Host not connected''\<rparr>" "[]" "[]" "\<lambda>_. ''x''" JNull]
    by (simp add: sample_moment_def)
  moreover have "length (wait_effects sample_transport 29) = 58"
    by (simp add: wait_effects_def length_concat sum_list_replicate)
  ultimately show ?thesis by auto
qed

text \<open>
  The resolver is the route. Whatever the target, the state of the registry and the connected
  hosts, \<open>resolve\<close> over the gateway returns exactly the host, strategy and namespace of a 200 reply and
  \<open>null\<close> for every other reply; a host it returns is never the empty string.
\<close>

theorem resolver_is_route:
  fixes C :: "'c cache_ops" and St :: "'s store_ops option" and r :: "('c, 's) host_registry" and target :: jval
    and secret provided :: "string option" and d :: dispatcher
  defines "rep \<equiv> fst (resolve_host C St secret provided (resolver_body target) d r)"
  shows "resolver_resolve target (case http_of_resolve rep of
      (status, body) \<Rightarrow> Fetch_response status tx (Inr body)) =
    (case rep of RR_host h s n \<Rightarrow> Some (h, s, n) | _ \<Rightarrow> None) \<and>
    (\<forall>h s n. rep = RR_host h s n \<longrightarrow> h \<noteq> [] \<and> n = resolver_namespace target)"
proof -
  have "h \<noteq> [] \<and> n = resolver_namespace target" if "rep = RR_host h s n" for h s n
    using that by (auto simp: rep_def resolve_host_def Let_def resolver_body_def resolver_namespace_def as_string_def
        truthy_def case_prod_unfold split: if_splits option.splits)
  then show ?thesis
    by (auto simp: resolver_resolve_def http_of_resolve_def http_ok_def as_string_def split: resolve_reply.splits)
qed

lemma resolver_is_route_witness:
  "resolver_resolve (JObj [(''namespace'', JStr ''n'')]) (case http_of_resolve (fst (resolve_host mem_cache
      (Some sqlite_ops) (Some ''k'') (Some ''k'') (resolver_body (JObj [(''namespace'', JStr ''n'')]))
      (gs_disp sample_gateway) fresh_registry)) of (status, body) \<Rightarrow> Fetch_response status [] (Inr body)) =
   Some (''h'', ''any-matching'', ''n'')"
proof -
  have "fst (resolve_host mem_cache (Some sqlite_ops) (Some ''k'') (Some ''k'')
      (resolver_body (JObj [(''namespace'', JStr ''n'')])) (gs_disp sample_gateway) fresh_registry) =
    RR_host ''h'' ''any-matching'' ''n''" by code_simp
  then show ?thesis
    using resolver_is_route [where target = "JObj [(''namespace'', JStr ''n'')]" and C = mem_cache and
      St = "Some sqlite_ops" and secret = "Some ''k''" and provided = "Some ''k''" and d = "gs_disp sample_gateway"
      and r = fresh_registry and tx = "[]"] by simp
qed

end
