(* ===== verification/Runtime_Server.thy ===== *)
theory Runtime_Server
  imports Gateway_Transport
begin

text \<open>
  packages/gateway-runtime-server/src/runtime-server.ts: the host process that runs plugin handlers.
  It registers for the capability \<open>execution\<close> and answers the gateway's calls with
  \<open>handleExecution\<close>. The client library that speaks to the gateway and \<open>runInProcess\<close>, which loads
  and runs the handler, are not in this repository; the latter is the parameter \<open>run\<close>. \<open>path.resolve\<close> of
  Node is written out for POSIX paths; \<open>cwd\<close> is the absolute working directory.
\<close>

section \<open>Paths\<close>

fun split_slash :: "string \<Rightarrow> string list" where
  "split_slash [] = [[]]"
| "split_slash (c # cs) =
     (if c = CHR ''/'' then [] # split_slash cs
      else (case split_slash cs of [] \<Rightarrow> [[c]] | s # ss \<Rightarrow> (c # s) # ss))"

definition push_segment :: "string \<Rightarrow> string list \<Rightarrow> string list" where
  "push_segment seg acc =
     (if seg = [] \<or> seg = ''.'' then acc else if seg = ''..'' then butlast acc else acc @ [seg])"

definition path_segments :: "string \<Rightarrow> string list" where
  "path_segments p = fold push_segment (split_slash p) []"

definition join_segments :: "string list \<Rightarrow> string" where
  "join_segments segs = (if segs = [] then ''/'' else concat (map (\<lambda>s. CHR ''/'' # s) segs))"

definition path_resolve :: "string \<Rightarrow> string \<Rightarrow> string \<Rightarrow> string" where
  "path_resolve cwd base rel =
     join_segments (path_segments
       (if starts_with rel ''/'' then rel
        else if starts_with base ''/'' then base @ ''/'' @ rel
        else cwd @ ''/'' @ base @ ''/'' @ rel))"

section \<open>Running a handler\<close>

record run_request =
  rn_descriptor :: jval
  rn_handlerPath :: string
  rn_input :: jval
  rn_cwd :: jval

text \<open>\<open>s.indexOf('#')\<close>\<close>

fun hash_index :: "string \<Rightarrow> int" where
  "hash_index [] = -1"
| "hash_index (c # cs) =
     (if c = CHR ''#'' then 0 else let i = hash_index cs in if i < 0 then -1 else i + 1)"

definition handler_relPath :: "string \<Rightarrow> string" where
  "handler_relPath ref = (let i = hash_index ref in if i > 0 then take (nat i) ref else ref)"

definition executeHandler ::
  "string \<Rightarrow> (run_request \<Rightarrow> string + jval) \<Rightarrow> jval \<Rightarrow> string + jval" where
  "executeHandler cwd run request =
     (case js_member request ''handlerRef'' of
        JStr ref \<Rightarrow>
          let relPath = handler_relPath ref;
              base = js_member request ''pluginRoot''
          in (case (if starts_with relPath ''/'' then Some relPath
                    else map_option (\<lambda>r. path_resolve cwd r relPath) (as_string base)) of
                None \<Rightarrow> Inl ''The \"paths[0]\" argument must be of type string''
              | Some handlerPath \<Rightarrow>
                  (case run \<lparr>rn_descriptor = js_member request ''descriptor'', rn_handlerPath = handlerPath,
                             rn_input = js_member request ''input'', rn_cwd = base\<rparr> of
                     Inl e \<Rightarrow> Inl e
                   | Inr runResult \<Rightarrow> Inr (js_member runResult ''data'')))
      | JArr _ \<Rightarrow> Inl ''relPath.startsWith is not a function''
      | _ \<Rightarrow> Inl ''request.handlerRef.indexOf is not a function'')"

definition missing_fields :: string where
  "missing_fields = ''Missing required fields: handlerRef, pluginRoot''"

definition handleExecution ::
  "string \<Rightarrow> (run_request \<Rightarrow> string + jval) \<Rightarrow> string \<Rightarrow> jval list \<Rightarrow> string + jval" where
  "handleExecution cwd run call_method args =
     (if call_method \<noteq> ''execute'' then Inl (''Unknown execution method: '' @ call_method)
      else let request = (case args of [] \<Rightarrow> JUndef | a # _ \<Rightarrow> a)
           in if \<not> js_truthy request \<or> \<not> js_truthy (js_member request ''handlerRef'') \<or>
                 \<not> js_truthy (js_member request ''pluginRoot'')
              then Inl missing_fields
              else executeHandler cwd run request)"

text \<open>The state of the server object: the host id the gateway assigned, unset before a connection.\<close>

record runtime_server =
  rs_hostId :: "string option"

definition new_runtime_server :: runtime_server where
  "new_runtime_server = \<lparr>rs_hostId = None\<rparr>"

definition onConnected :: "string \<Rightarrow> runtime_server \<Rightarrow> runtime_server" where
  "onConnected hId s = s\<lparr>rs_hostId := Some hId\<rparr>"

definition getHostId :: "runtime_server \<Rightarrow> string option" where
  "getHostId s = rs_hostId s"

section \<open>Lemmas\<close>

definition plain_segment :: "string \<Rightarrow> bool" where
  "plain_segment s \<longleftrightarrow> s \<noteq> [] \<and> s \<noteq> ''.'' \<and> s \<noteq> ''..'' \<and> CHR ''/'' \<notin> set s"

lemma split_slash_segments: "\<forall>s\<in>set (split_slash p). CHR ''/'' \<notin> set s"
  by (induction p) (auto split: list.splits)

lemma push_segments_plain:
  assumes "\<forall>s\<in>set segs. CHR ''/'' \<notin> set s" "list_all plain_segment acc"
  shows "list_all plain_segment (fold push_segment segs acc)"
  using assms
proof (induction segs arbitrary: acc)
  case (Cons s segs)
  have "list_all plain_segment (push_segment s acc)"
    using Cons.prems by (auto simp: push_segment_def plain_segment_def list_all_iff dest: in_set_butlastD)
  with Cons show ?case by simp
qed simp

lemma path_segments_plain: "list_all plain_segment (path_segments p)"
  unfolding path_segments_def by (rule push_segments_plain) (simp_all add: split_slash_segments)

lemma join_absolute: "\<exists>rest. join_segments segs = CHR ''/'' # rest"
  by (cases segs) (simp_all add: join_segments_def)

section \<open>Properties\<close>



text \<open>
  The public execute route never runs anything on the runtime server. The call
  \<open>POST /api/v1/execute\<close> sends carries no plugin root, so the runtime server of this repository
  refuses every such call; once the host reports that error, the call is rejected with its text, the
  retry loop takes it for a handler error and the stream ends with \<open>EXECUTION_FAILED\<close> and exit
  code 1, whatever plugin and handler were asked for.
\<close>

theorem execute_route_never_runs:
  fixes req :: execute_request and eid rid callId :: string and env :: "jval retry_env" and code :: jval
  assumes "jm_get (d_promises d) callId = Some P_pending" "jm_get (d_pending d) callId = Some pc" "callId \<noteq> []"
    and "en_check env 1 = None" "en_race env 1 = Race_throws (Th_error missing_fields)"
  defines "report \<equiv> \<lparr>im_type = ''error'', im_requestId = Some callId, im_data = JUndef,
      im_error = JObj [(''code'', code), (''message'', JStr missing_fields)]\<rparr>"
  shows "handleExecution cwd run ''execute'' [execute_payload req eid rid] = Inl missing_fields \<and>
    jm_get (d_promises (handleInbound report d)) callId = Some (P_rejected missing_fields) \<and>
    execution_stream rid eid dur (executeWithRetry None env rid eid) =
      [E_error rid eid ''EXECUTION_FAILED'' missing_fields False, E_done rid eid 1 dur None]"
proof -
  have "handleExecution cwd run ''execute'' [execute_payload req eid rid] = Inl missing_fields"
    by (simp add: handleExecution_def execute_payload_def)
  moreover have "jm_get (d_promises (handleInbound report d)) callId = Some (P_rejected missing_fields)"
    using assms(1-3) by (simp add: report_def handleInbound_def error_text_def js_nullish_def settle_promise Let_def)
  moreover have "executeWithRetry None env rid eid = (R_throws (Th_error missing_fields), [Eff_dispatch 1])"
    using assms(4,5)
    by (simp add: executeWithRetry_def retry_loop.simps [of _ env] merge_config_def RETRY_DEFAULTS_def maxAttempts_of_def
        classifyError_def error_message_def Let_def)
  ultimately show ?thesis
    by (simp add: execution_stream_def final_events_def written_def List.map_filter_def)
qed

lemma execute_route_never_runs_witness:
  "jm_get (d_promises (handleInbound \<lparr>im_type = ''error'', im_requestId = Some ''r'', im_data = JUndef,
      im_error = JObj [(''code'', JNull), (''message'', JStr missing_fields)]\<rparr>
      (snd (dispatcher_call ''n'' ''h'' ''execution'' ''execute'' [] ''r''
        \<lparr>tc_traceId = ''t'', tc_spanId = ''u'', tc_parentId = None\<rparr> None (gs_disp sample_gateway))))) ''r'' =
   Some (P_rejected missing_fields)"
proof -
  have "socket_of (gs_disp sample_gateway) ''n'' ''h'' \<noteq> None" by code_simp
  note opened = call_opens [OF this, of "''execution''" "''execute''" "[]" "''r''"
      "\<lparr>tc_traceId = ''t'', tc_spanId = ''u'', tc_parentId = None\<rparr>"]
  have "''r'' \<noteq> []" "en_check \<lparr>en_check = \<lambda>_. None, en_race = \<lambda>_. Race_throws (Th_error missing_fields) :: jval race,
      en_delay = \<lambda>_. None\<rparr> 1 = None" "en_race \<lparr>en_check = \<lambda>_. None, en_race = \<lambda>_. Race_throws (Th_error missing_fields)
      :: jval race, en_delay = \<lambda>_. None\<rparr> 1 = Race_throws (Th_error missing_fields)" by simp_all
  from execute_route_never_runs [OF opened(2,1) this] show ?thesis by blast
qed

end
