(* ===== verification/Platform_Routes.thy ===== *)
theory Platform_Routes
  imports Message_Schemas Retry_Executor
begin

text \<open>
  The routes that call into the platform's adapters: \<open>POST /platform/v1/:adapter/:method\<close>
  (apps/gateway-app/src/platform/routes.ts) and \<open>POST /telemetry/v1/ingest\<close>
  (apps/gateway-app/src/telemetry/routes.ts), with their schemas. The platform library is not in this
  repository: which adapters and methods exist, what a method call does and what \<open>track\<close> does are
  parameters over a platform state \<open>'p\<close>. Durations are arguments.
\<close>

section \<open>The allowlist\<close>

definition ALLOWED_METHODS :: "(string \<times> string list) list" where
  "ALLOWED_METHODS =
     [(''llm'', [''complete'', ''stream'', ''chatWithTools'']),
      (''cache'', [''get'', ''set'', ''delete'', ''clear'']),
      (''vectorStore'', [''search'', ''upsert'', ''delete'', ''count'']),
      (''analytics'', [''track'', ''identify'', ''flush'', ''getEvents'', ''getStats'', ''getDailyStats'']),
      (''embeddings'', [''embed'']),
      (''storage'', [''read'', ''write'', ''delete'', ''list'', ''exists'']),
      (''eventBus'', [''publish'', ''subscribe'']),
      (''sqlDatabase'', [''query'', ''execute'']),
      (''documentDatabase'', [''find'', ''findOne'', ''insert'', ''update'', ''delete''])]"

text \<open>
  \<open>ALLOWED_METHODS[adapterName]\<close> reads an own entry, or else a member every object inherits; those are
  truthy and have no method \<open>has\<close>.
\<close>

definition PROTOTYPE_MEMBERS :: "string list" where
  "PROTOTYPE_MEMBERS =
     [''constructor'', ''hasOwnProperty'', ''isPrototypeOf'', ''propertyIsEnumerable'', ''toLocaleString'',
      ''toString'', ''valueOf'', ''__proto__'', ''__defineGetter__'', ''__defineSetter__'',
      ''__lookupGetter__'', ''__lookupSetter__'']"

datatype allowed_entry = Allowed "string list" | Inherited | Absent

definition allowed_methods :: "string \<Rightarrow> allowed_entry" where
  "allowed_methods name =
     (case map_of ALLOWED_METHODS name of
        Some ms \<Rightarrow> Allowed ms
      | None \<Rightarrow> if name \<in> set PROTOTYPE_MEMBERS then Inherited else Absent)"

section \<open>POST /platform/v1/:adapter/:method\<close>

text \<open>\<open>PlatformCallRequestSchema\<close>: \<open>args\<close> defaults to the empty list.\<close>

definition parse_platform_call :: "jval \<Rightarrow> jval list option" where
  "parse_platform_call body =
     (case as_object body of
        None \<Rightarrow> None
      | Some b \<Rightarrow>
          (case js_member b ''args'' of JUndef \<Rightarrow> Some [] | JArr vs \<Rightarrow> Some vs | _ \<Rightarrow> None))"

text \<open>
  What an adapter method gives once awaited: a value, an async iterable with its chunks (and the error
  it ends with, if it does), or an error.
\<close>

datatype platform_outcome =
    PO_value jval
  | PO_stream "jval list" "thrown option"
  | PO_throws thrown

record 'p platform_ops =
  pl_has_adapter :: "string \<Rightarrow> bool"
  pl_has_method :: "string \<Rightarrow> string \<Rightarrow> bool"
  pl_invoke :: "string \<Rightarrow> string \<Rightarrow> jval list \<Rightarrow> 'p \<Rightarrow> platform_outcome \<times> 'p"

datatype platform_reply =
    PR_unauthorized
  | PR_crash
      \<comment> \<open>the handler throws, Fastify answers 500\<close>
  | PR_error nat string string int
      \<comment> \<open>status, message, code, durationMs\<close>
  | PR_ok jval int
  | PR_stream "string list" bool
      \<comment> \<open>the data lines written, and whether the stream was ended with its DONE line\<close>

definition quoted :: "string \<Rightarrow> string" where
  "quoted s = CHR 0x22 # s @ [CHR 0x22]"

definition chunk_line :: "(jval \<Rightarrow> string) \<Rightarrow> jval \<Rightarrow> string" where
  "chunk_line stringify chunk = (case chunk of JStr s \<Rightarrow> s | _ \<Rightarrow> stringify chunk)"

text \<open>The \<open>catch\<close> block; converting a thrown value to a string may itself throw.\<close>

definition adapter_failed :: "thrown \<Rightarrow> int \<Rightarrow> platform_reply" where
  "adapter_failed err durationMs =
     (case error_message err of
        None \<Rightarrow> PR_crash
      | Some message \<Rightarrow> PR_error 502 message ''ADAPTER_ERROR'' durationMs)"

text \<open>
  A stream that fails midway is not ended by the handler; the 502 it then tries to send comes after the
  headers and is left to Fastify.
\<close>

definition platform_result :: "(jval \<Rightarrow> string) \<Rightarrow> int \<Rightarrow> platform_outcome \<Rightarrow> platform_reply" where
  "platform_result stringify durationMs outcome =
     (case outcome of
        PO_value v \<Rightarrow> PR_ok v durationMs
      | PO_stream chunks None \<Rightarrow> PR_stream (map (chunk_line stringify) chunks @ [''[DONE]'']) True
      | PO_stream chunks (Some _) \<Rightarrow> PR_stream (map (chunk_line stringify) chunks) False
      | PO_throws err \<Rightarrow> adapter_failed err durationMs)"

definition platform_route ::
  "'p platform_ops \<Rightarrow> (jval \<Rightarrow> string) \<Rightarrow> auth_context option \<Rightarrow> string \<Rightarrow> string \<Rightarrow> jval \<Rightarrow> int \<Rightarrow> 'p \<Rightarrow>
     platform_reply \<times> 'p" where
  "platform_route P stringify auth adapterName methodName body durationMs p =
     (if auth = None then (PR_unauthorized, p)
      else case allowed_methods adapterName of
        Absent \<Rightarrow> (PR_error 404 (''Unknown adapter: '' @ quoted adapterName) ''ADAPTER_NOT_FOUND'' 0, p)
      | Inherited \<Rightarrow> (PR_crash, p)
      | Allowed methods \<Rightarrow>
          if methodName \<notin> set methods
          then (PR_error 403 (''Method '' @ quoted methodName @ '' not allowed on adapter '' @ quoted adapterName)
                  ''METHOD_NOT_ALLOWED'' 0, p)
          else if \<not> pl_has_adapter P adapterName
          then (PR_error 503 (''Adapter '' @ quoted adapterName @ '' not configured'') ''ADAPTER_UNAVAILABLE'' 0, p)
          else if \<not> pl_has_method P adapterName methodName
          then (PR_error 501 (''Method '' @ quoted methodName @ '' not implemented on adapter '' @ quoted adapterName)
                  ''METHOD_NOT_IMPLEMENTED'' 0, p)
          else (case parse_platform_call body of
                  None \<Rightarrow> (PR_error 400 ''Invalid request body'' ''VALIDATION_ERROR'' 0, p)
                | Some args \<Rightarrow>
                    let (outcome, p1) = pl_invoke P adapterName methodName args p
                    in (platform_result stringify durationMs outcome, p1)))"

section \<open>POST /telemetry/v1/ingest\<close>

record telemetry_event =
  te_source :: string
  te_type :: string
  te_timestamp :: "string option"
  te_payload :: "(string \<times> jval) list"
  te_tags :: "(string \<times> string) list"

definition bounded_string :: "nat \<Rightarrow> jval \<Rightarrow> string option" where
  "bounded_string maxLen v =
     Option.bind (as_string v) (\<lambda>s. if 1 \<le> length s \<and> length s \<le> maxLen then Some s else None)"

text \<open>An absent payload or tag record spreads like an empty one. \<open>is_datetime\<close> is zod's ISO 8601 test.\<close>

definition parse_telemetry_event :: "(string \<Rightarrow> bool) \<Rightarrow> jval \<Rightarrow> telemetry_event option" where
  "parse_telemetry_event is_datetime v =
     (case (bounded_string 128 (js_member v ''source''), bounded_string 256 (js_member v ''type''),
            schema_optional (\<lambda>x. Option.bind (as_string x) (\<lambda>s. if is_datetime s then Some s else None))
              (js_member v ''timestamp''),
            schema_optional (schema_record Some) (js_member v ''payload''),
            schema_optional (schema_record as_string) (js_member v ''tags'')) of
        (Some src, Some ty, Some ts, Some payload, Some tags) \<Rightarrow>
          Some \<lparr>te_source = src, te_type = ty, te_timestamp = ts, te_payload = or_else payload [],
                te_tags = or_else tags []\<rparr>
      | _ \<Rightarrow> None)"

definition parse_telemetry_request :: "(string \<Rightarrow> bool) \<Rightarrow> jval \<Rightarrow> telemetry_event list option" where
  "parse_telemetry_request is_datetime body =
     Option.bind (schema_array (parse_telemetry_event is_datetime) (js_member body ''events''))
       (\<lambda>es. if 1 \<le> length es \<and> length es \<le> 500 then Some es else None)"

text \<open>\<open>{ ...o, ...kvs }\<close>: a later member replaces an earlier one of the same name.\<close>

definition js_spread :: "(string \<times> jval) list \<Rightarrow> (string \<times> jval) list \<Rightarrow> (string \<times> jval) list" where
  "js_spread base kvs = fold (\<lambda>(k, v) acc. jm_set acc k v) kvs base"

definition track_properties :: "auth_context \<Rightarrow> string \<Rightarrow> telemetry_event \<Rightarrow> jval" where
  "track_properties ctx now_iso e =
     JObj (js_spread
       (js_spread
         [(''_source'', JStr (te_source e)),
          (''_tenantId'', case ac_namespaceId ctx of None \<Rightarrow> JUndef | Some ns \<Rightarrow> JStr ns),
          (''_ts'', JStr (or_else (te_timestamp e) now_iso))]
         (map (\<lambda>(k, s). (k, JStr s)) (te_tags e)))
       (te_payload e))"

record ingest_counts =
  ig_accepted :: nat
  ig_rejected :: nat
  ig_errors :: "(nat \<times> string) list"

text \<open>
  The loop over the events from index \<open>i\<close> on. \<open>track\<close> gives the error it throws, if any; \<open>None\<close> as
  the result when printing a thrown value throws.
\<close>

fun ingest_loop ::
  "(string \<Rightarrow> jval \<Rightarrow> 'p \<Rightarrow> thrown option \<times> 'p) \<Rightarrow> auth_context \<Rightarrow> string \<Rightarrow> nat \<Rightarrow> telemetry_event list \<Rightarrow>
     ingest_counts \<Rightarrow> 'p \<Rightarrow> ingest_counts option \<times> 'p" where
  "ingest_loop track ctx now_iso i [] counts p = (Some counts, p)"
| "ingest_loop track ctx now_iso i (e # es) counts p =
     (case track (te_type e) (track_properties ctx now_iso e) p of
        (None, p1) \<Rightarrow> ingest_loop track ctx now_iso (Suc i) es (counts\<lparr>ig_accepted := Suc (ig_accepted counts)\<rparr>) p1
      | (Some err, p1) \<Rightarrow>
          (case error_message err of
             None \<Rightarrow> (None, p1)
           | Some message \<Rightarrow>
               ingest_loop track ctx now_iso (Suc i) es
                 (counts\<lparr>ig_rejected := Suc (ig_rejected counts),
                         ig_errors := ig_errors counts @ [(i, message)]\<rparr>) p1))"

datatype telemetry_reply =
    TR_unauthorized
  | TR_bad_request
  | TR_unavailable
  | TR_crash
  | TR_counts nat ingest_counts
      \<comment> \<open>status and body\<close>

definition telemetry_route ::
  "(string \<Rightarrow> bool) \<Rightarrow> (string \<Rightarrow> jval \<Rightarrow> 'p \<Rightarrow> thrown option \<times> 'p) option \<Rightarrow> auth_context option \<Rightarrow> string \<Rightarrow> jval \<Rightarrow>
     'p \<Rightarrow> telemetry_reply \<times> 'p" where
  "telemetry_route is_datetime analytics auth now_iso body p =
     (case auth of
        None \<Rightarrow> (TR_unauthorized, p)
      | Some ctx \<Rightarrow>
          (case parse_telemetry_request is_datetime body of
             None \<Rightarrow> (TR_bad_request, p)
           | Some events \<Rightarrow>
               (case analytics of
                  None \<Rightarrow> (TR_unavailable, p)
                | Some track \<Rightarrow>
                    (case ingest_loop track ctx now_iso 0 events \<lparr>ig_accepted = 0, ig_rejected = 0, ig_errors = []\<rparr> p of
                       (None, p1) \<Rightarrow> (TR_crash, p1)
                     | (Some counts, p1) \<Rightarrow> (TR_counts (if ig_accepted counts > 0 then 200 else 422) counts, p1)))))"

section \<open>Lemmas\<close>

lemma map_of_spread: "map_of (js_spread base kvs) k = (case map_of (rev kvs) k of Some v \<Rightarrow> Some v | None \<Rightarrow> map_of base k)"
proof (induction kvs arbitrary: base)
  case (Cons kv kvs)
  then show ?case
    by (cases kv) (auto simp: js_spread_def jm_set_def update_conv' map_add_def split: option.splits)
qed (simp add: js_spread_def)

text \<open>The fate of each event: its index, type, properties and the error it was rejected with.\<close>

fun track_all ::
  "(string \<Rightarrow> jval \<Rightarrow> 'p \<Rightarrow> thrown option \<times> 'p) \<Rightarrow> auth_context \<Rightarrow> string \<Rightarrow> telemetry_event list \<Rightarrow> 'p \<Rightarrow>
     thrown option list \<times> 'p" where
  "track_all track ctx now_iso [] p = ([], p)"
| "track_all track ctx now_iso (e # es) p =
     (let (r, p1) = track (te_type e) (track_properties ctx now_iso e) p;
          (rs, p2) = track_all track ctx now_iso es p1
      in (r # rs, p2))"

definition rejections :: "nat \<Rightarrow> thrown option list \<Rightarrow> (nat \<times> string) list" where
  "rejections i rs = List.map_filter (\<lambda>(j, r). Option.bind r (\<lambda>e. map_option (Pair j) (error_message e))) (enumerate i rs)"

lemma rejections_Cons:
  "rejections i (r # rs) =
     (case r of None \<Rightarrow> [] | Some e \<Rightarrow> (case error_message e of None \<Rightarrow> [] | Some m \<Rightarrow> [(i, m)])) @ rejections (Suc i) rs"
  by (auto simp: rejections_def List.map_filter_def split: option.splits)

lemma length_track_all: "length (fst (track_all track ctx now_iso es p)) = length es"
  by (induction es arbitrary: p) (auto simp: case_prod_unfold Let_def)

lemma ingest_loop_all:
  assumes "\<forall>e. Some e \<in> set (fst (track_all track ctx now_iso es p)) \<longrightarrow> error_message e \<noteq> None"
  shows "ingest_loop track ctx now_iso i es counts p =
    (let rs = fst (track_all track ctx now_iso es p)
     in (Some (counts\<lparr>ig_accepted := ig_accepted counts + length (filter (\<lambda>r. r = None) rs),
           ig_rejected := ig_rejected counts + length (filter (\<lambda>r. r \<noteq> None) rs),
           ig_errors := ig_errors counts @ rejections i rs\<rparr>),
         snd (track_all track ctx now_iso es p)))"
  using assms
proof (induction es arbitrary: i counts p)
  case Nil
  then show ?case by (simp add: rejections_def List.map_filter_def)
next
  case (Cons e es)
  obtain r p1 where t: "track (te_type e) (track_properties ctx now_iso e) p = (r, p1)" by fastforce
  with Cons.prems have ok: "\<forall>x. Some x \<in> set (fst (track_all track ctx now_iso es p1)) \<longrightarrow> error_message x \<noteq> None"
    and r: "\<forall>x. r = Some x \<longrightarrow> error_message x \<noteq> None"
    by (auto simp: case_prod_unfold Let_def)
  show ?case
    using t r Cons.IH [OF ok]
    by (cases r) (auto simp: case_prod_unfold Let_def rejections_Cons split: option.splits)
qed

section \<open>Properties\<close>

text \<open>
  C28: only allowlisted methods are ever invoked. Either the platform state is untouched and the request
  is refused, or an authenticated caller named a method of the adapter's own list, the platform has
  both, the body's arguments (or none) are passed as they are, and the reply is that call's outcome.
  An unknown adapter gets 404, but a name every object inherits, such as \<open>constructor\<close>, makes
  the handler throw.
\<close>

theorem platform_allowlist:
  "(case platform_route P stringify auth a f body dur p of (rep, p') \<Rightarrow>
      (\<exists>args ms. auth \<noteq> None \<and> map_of ALLOWED_METHODS a = Some ms \<and> f \<in> set ms \<and>
         pl_has_adapter P a \<and> pl_has_method P a f \<and> parse_platform_call body = Some args \<and>
         rep = platform_result stringify dur (fst (pl_invoke P a f args p)) \<and> p' = snd (pl_invoke P a f args p)) \<or>
      p' = p \<and> (rep = PR_unauthorized \<or> rep = PR_crash \<or>
         (\<exists>st m c. rep = PR_error st m c 0 \<and> st \<in> {400, 403, 404, 501, 503}))) \<and>
   (auth \<noteq> None \<and> map_of ALLOWED_METHODS a = None \<longrightarrow>
      fst (platform_route P stringify auth a f body dur p) =
        (if a \<in> set PROTOTYPE_MEMBERS then PR_crash
         else PR_error 404 (''Unknown adapter: '' @ quoted a) ''ADAPTER_NOT_FOUND'' 0))"
proof (cases "map_of ALLOWED_METHODS a")
  case None
  then show ?thesis by (simp add: platform_route_def allowed_methods_def)
next
  case (Some ms)
  then have am: "allowed_methods a = Allowed ms" by (simp add: allowed_methods_def)
  consider "auth = None" | "auth \<noteq> None" "f \<notin> set ms" | "auth \<noteq> None" "f \<in> set ms" by blast
  then show ?thesis
  proof cases
    case 3
    then show ?thesis
      by (cases "pl_has_adapter P a"; cases "pl_has_method P a f"; cases "parse_platform_call body")
        (simp_all add: platform_route_def am Some case_prod_unfold Let_def)
  qed (simp_all add: platform_route_def am Some)
qed

definition sample_platform :: "nat platform_ops" where
  "sample_platform = \<lparr>pl_has_adapter = (\<lambda>_. True), pl_has_method = (\<lambda>_ _. True),
     pl_invoke = (\<lambda>_ _ args p. (PO_value (JArr args), Suc p))\<rparr>"

lemma platform_allowlist_witness:
  "fst (platform_route sample_platform (\<lambda>_. []) (Some \<lparr>ac_type = None, ac_userId = None, ac_namespaceId = None,
      ac_tier = None, ac_permissions = []\<rparr>) ''constructor'' ''x'' JNull 1 0) = PR_crash"
proof -
  have "map_of ALLOWED_METHODS ''constructor'' = None" "''constructor'' \<in> set PROTOTYPE_MEMBERS" by code_simp+
  then show ?thesis
    using platform_allowlist [where P = sample_platform and stringify = "\<lambda>_. []"
        and auth = "Some \<lparr>ac_type = None, ac_userId = None, ac_namespaceId = None, ac_tier = None, ac_permissions = []\<rparr>"
        and a = "''constructor''" and f = "''x''" and body = JNull and dur = 1 and p = 0] by simp
qed

text \<open>
  C29: an ingest accounts for every event. When the errors the analytics adapter throws can be printed,
  every event of the batch is tracked once and in order, accepted and rejected add up to the batch, the
  errors list exactly the indexes that were rejected with their messages, and the status is 422 only
  when none was accepted.
\<close>

theorem telemetry_accounts_for_all:
  assumes "parse_telemetry_request is_datetime body = Some events"
    and "\<forall>e. Some e \<in> set (fst (track_all track ctx now_iso events p)) \<longrightarrow> error_message e \<noteq> None"
  shows "\<exists>st counts. telemetry_route is_datetime (Some track) (Some ctx) now_iso body p =
      (TR_counts st counts, snd (track_all track ctx now_iso events p)) \<and>
    ig_accepted counts + ig_rejected counts = length events \<and>
    ig_errors counts = rejections 0 (fst (track_all track ctx now_iso events p)) \<and>
    length (ig_errors counts) = ig_rejected counts \<and>
    (st = 422 \<longleftrightarrow> ig_accepted counts = 0) \<and> (st = 200 \<longleftrightarrow> ig_accepted counts \<noteq> 0)"
proof -
  let ?rs = "fst (track_all track ctx now_iso events p)"
  have "length (filter (\<lambda>r. r = None) ?rs) + length (filter (\<lambda>r. r \<noteq> None) ?rs) = length events"
    using sum_length_filter_compl [of "\<lambda>r. r = None" ?rs] length_track_all [of track ctx now_iso events p] by simp
  moreover have "length (rejections i rs) = length (filter (\<lambda>r. r \<noteq> None) rs)"
    if "\<forall>e. Some e \<in> set rs \<longrightarrow> error_message e \<noteq> None" for i rs
    using that
  proof (induction rs arbitrary: i)
    case Nil
    then show ?case by (simp add: rejections_def List.map_filter_def)
  next
    case (Cons r rs)
    then show ?case by (cases r) (auto simp: rejections_Cons split: option.splits)
  qed
  ultimately show ?thesis
    using assms by (simp add: telemetry_route_def ingest_loop_all Let_def)
qed

definition sample_track :: "string \<Rightarrow> jval \<Rightarrow> nat \<Rightarrow> thrown option \<times> nat" where
  "sample_track ty props n = (if ty = ''bad'' then Some (Th_error ''refused'') else None, Suc n)"

definition sample_ctx :: auth_context where
  "sample_ctx = \<lparr>ac_type = Some ''cli'', ac_userId = None, ac_namespaceId = Some ''ns-1'', ac_tier = None,
     ac_permissions = []\<rparr>"

definition sample_events :: "telemetry_event list" where
  "sample_events = map (\<lambda>ty. \<lparr>te_source = ''s'', te_type = ty, te_timestamp = None, te_payload = [], te_tags = []\<rparr>)
     [''good'', ''bad'', ''good'']"

definition sample_batch :: jval where
  "sample_batch = JObj [(''events'', JArr (map (\<lambda>ty. JObj [(''source'', JStr ''s''), (''type'', JStr ty)])
     [''good'', ''bad'', ''good'']))]"

lemma telemetry_accounts_for_all_witness:
  "\<exists>st counts. telemetry_route (\<lambda>_. True) (Some sample_track) (Some sample_ctx) ''now'' sample_batch 0 =
      (TR_counts st counts, snd (track_all sample_track sample_ctx ''now'' sample_events 0)) \<and>
    ig_accepted counts + ig_rejected counts = length sample_events \<and>
    ig_errors counts = rejections 0 (fst (track_all sample_track sample_ctx ''now'' sample_events 0)) \<and>
    length (ig_errors counts) = ig_rejected counts \<and>
    (st = 422 \<longleftrightarrow> ig_accepted counts = 0) \<and> (st = 200 \<longleftrightarrow> ig_accepted counts \<noteq> 0)"
proof (rule telemetry_accounts_for_all)
  show "parse_telemetry_request (\<lambda>_. True) sample_batch = Some sample_events" by code_simp
  have "fst (track_all sample_track sample_ctx ''now'' sample_events 0) = [None, Some (Th_error ''refused''), None]"
    by code_simp
  then show "\<forall>e. Some e \<in> set (fst (track_all sample_track sample_ctx ''now'' sample_events 0)) \<longrightarrow> error_message e \<noteq> None"
    by (simp add: error_message_def)
qed

text \<open>
  The tenant of an event is whatever its sender says. Tags and payload are spread after the
  attribution members, so a payload (or, below it, a tag) called \<open>_tenantId\<close> replaces the namespace of
  the caller's token; without such members the namespace of the token is recorded.
\<close>

theorem telemetry_tenant_spoofable:
  assumes "distinct (map fst (te_payload e))" "distinct (map fst (te_tags e))" "ac_namespaceId ctx = Some ns"
  shows "js_member (track_properties ctx now_iso e) ''_tenantId'' =
    (case map_of (te_payload e) ''_tenantId'' of
       Some v \<Rightarrow> v
     | None \<Rightarrow> (case map_of (te_tags e) ''_tenantId'' of Some t \<Rightarrow> JStr t | None \<Rightarrow> JStr ns))"
proof -
  have rev: "map_of (rev kvs) k = map_of kvs k" if "distinct (map fst kvs)" for kvs :: "(string \<times> jval) list" and k
    using that map_of_inject_set [of "rev kvs" kvs] by (simp add: rev_map [symmetric])
  have tags: "map_of (map (\<lambda>(k, s). (k, JStr s)) (te_tags e)) k = map_option JStr (map_of (te_tags e) k)" for k
    using fun_cong [OF map_of_map [of JStr "te_tags e"], of k] by (simp add: o_def)
  have "map fst (map (\<lambda>(k, s). (k, JStr s)) (te_tags e)) = map fst (te_tags e)" by auto
  with assms(2) have "distinct (map fst (map (\<lambda>(k, s). (k, JStr s)) (te_tags e)))" by metis
  from rev [OF this] rev [OF assms(1)] assms(3) show ?thesis
    by (simp add: track_properties_def map_of_spread tags split: option.split)
qed

lemma telemetry_tenant_spoofable_witness:
  "js_member (track_properties sample_ctx ''now''
      \<lparr>te_source = ''s'', te_type = ''t'', te_timestamp = None, te_payload = [(''_tenantId'', JStr ''victim'')],
       te_tags = []\<rparr>) ''_tenantId'' = JStr ''victim''"
  using telemetry_tenant_spoofable [where e = "\<lparr>te_source = ''s'', te_type = ''t'', te_timestamp = None,
      te_payload = [(''_tenantId'', JStr ''victim'')], te_tags = []\<rparr>" and ctx = sample_ctx and ns = "''ns-1''"
      and now_iso = "''now''"]
  by (simp add: sample_ctx_def)

end
