(* ===== verification/LLM_Routes.thy ===== *)
theory LLM_Routes
  imports Message_Schemas Retry_Executor
begin

text \<open>
  The OpenAI-compatible endpoint \<open>POST /llm/v1/chat/completions\<close> (apps/gateway-app/src/llm/routes.ts) with
  its schemas (packages/gateway-contracts/src/llm-gateway.ts): tier resolution, the completion with and
  without tools, and the event stream. The platform's language models are parameters over a platform state
  \<open>'p\<close>, and so are JSON parsing and printing, the request id and the clock.
\<close>

section \<open>Schemas\<close>

definition enum_value :: "string list \<Rightarrow> jval \<Rightarrow> string option" where
  "enum_value names v = Option.bind (as_string v) (\<lambda>s. if s \<in> set names then Some s else None)"

definition llm_tiers :: "string list" where
  "llm_tiers = [''small'', ''medium'', ''large'']"

definition chat_roles :: "string list" where
  "chat_roles = [''system'', ''user'', ''assistant'', ''tool'']"

record tool_call_ref =
  tr_id :: string
  tr_name :: string
  tr_arguments :: string

record chat_message =
  cm_role :: string
  cm_content :: string
  cm_tool_call_id :: "string option"
  cm_tool_calls :: "tool_call_ref list option"

record chat_tool =
  ct_name :: string
  ct_description :: "string option"
  ct_parameters :: "(string \<times> jval) list option"

datatype stop_spec = Stop_one string | Stop_many "string list"

datatype tool_choice = Choice string | Choice_function string

record chat_request =
  cq_model :: string
  cq_messages :: "chat_message list"
  cq_temperature :: "int option"
  cq_max_tokens :: "int option"
  cq_stop :: "stop_spec option"
  cq_stream :: bool
  cq_tools :: "chat_tool list option"
  cq_tool_choice :: "tool_choice option"

definition is_function :: "jval \<Rightarrow> bool" where
  "is_function v \<longleftrightarrow> js_member v ''type'' = JStr ''function''"

definition parse_tool_call :: "jval \<Rightarrow> tool_call_ref option" where
  "parse_tool_call v =
     (case (as_string (js_member v ''id''), as_string (js_member (js_member v ''function'') ''name''),
            as_string (js_member (js_member v ''function'') ''arguments'')) of
        (Some i, Some n, Some a) \<Rightarrow>
          if is_function v then Some \<lparr>tr_id = i, tr_name = n, tr_arguments = a\<rparr> else None
      | _ \<Rightarrow> None)"

definition parse_chat_message :: "jval \<Rightarrow> chat_message option" where
  "parse_chat_message v =
     (case (enum_value chat_roles (js_member v ''role''), as_string (js_member v ''content''),
            schema_optional as_string (js_member v ''tool_call_id''),
            schema_optional (schema_array parse_tool_call) (js_member v ''tool_calls'')) of
        (Some r, Some c, Some i, Some tcs) \<Rightarrow>
          Some \<lparr>cm_role = r, cm_content = c, cm_tool_call_id = i, cm_tool_calls = tcs\<rparr>
      | _ \<Rightarrow> None)"

definition parse_chat_tool :: "jval \<Rightarrow> chat_tool option" where
  "parse_chat_tool v =
     (let f = js_member v ''function''
      in case (as_string (js_member f ''name''), schema_optional as_string (js_member f ''description''),
            schema_optional (schema_record Some) (js_member f ''parameters'')) of
        (Some n, Some d, Some ps) \<Rightarrow>
          if is_function v then Some \<lparr>ct_name = n, ct_description = d, ct_parameters = ps\<rparr> else None
      | _ \<Rightarrow> None)"

definition parse_stop :: "jval \<Rightarrow> stop_spec option" where
  "parse_stop v = (case v of JStr s \<Rightarrow> Some (Stop_one s) | _ \<Rightarrow> map_option Stop_many (schema_array as_string v))"

definition parse_tool_choice :: "jval \<Rightarrow> tool_choice option" where
  "parse_tool_choice v =
     (case enum_value [''auto'', ''required'', ''none''] v of
        Some s \<Rightarrow> Some (Choice s)
      | None \<Rightarrow>
          if is_function v then map_option Choice_function (as_string (js_member (js_member v ''function'') ''name''))
          else None)"

definition parse_temperature :: "jval \<Rightarrow> int option" where
  "parse_temperature v = Option.bind (as_number v) (\<lambda>n. if 0 \<le> n \<and> n \<le> 2 then Some n else None)"

definition parse_chat_request :: "jval \<Rightarrow> chat_request option" where
  "parse_chat_request v =
     (case (enum_value llm_tiers (js_member v ''model''), schema_array parse_chat_message (js_member v ''messages''),
            schema_optional parse_temperature (js_member v ''temperature''),
            schema_optional positive_number (js_member v ''max_tokens''),
            schema_optional parse_stop (js_member v ''stop''), schema_optional as_bool (js_member v ''stream''),
            schema_optional (schema_array parse_chat_tool) (js_member v ''tools''),
            schema_optional parse_tool_choice (js_member v ''tool_choice'')) of
        (Some m, Some ms, Some t, Some mx, Some st, Some str, Some tools, Some tc) \<Rightarrow>
          if ms = [] then None
          else Some \<lparr>cq_model = m, cq_messages = ms, cq_temperature = t, cq_max_tokens = mx, cq_stop = st,
                     cq_stream = or_else str False, cq_tools = tools, cq_tool_choice = tc\<rparr>
      | _ \<Rightarrow> None)"

section \<open>The platform's models\<close>

record llm_message =
  lm_role :: string
  lm_content :: string
  lm_toolCallId :: "string option"
  lm_toolCalls :: "(string \<times> string \<times> jval) list option"

record llm_tool =
  lt_name :: string
  lt_description :: string
  lt_inputSchema :: "(string \<times> jval) list"

record complete_options =
  op_systemPrompt :: "string option"
  op_temperature :: "int option"
  op_maxTokens :: "int option"
  op_stop :: "string list option"

record tool_options =
  ot_temperature :: "int option"
  ot_maxTokens :: "int option"
  ot_stop :: "string list option"
  ot_tools :: "llm_tool list"
  ot_toolChoice :: "tool_choice option"

record llm_result =
  lr_content :: string
  lr_promptTokens :: nat
  lr_completionTokens :: nat

record tool_result = llm_result +
  lr_toolCalls :: "(string \<times> string \<times> jval) list option"
  lr_stopReason :: string

text \<open>A stream is the texts it yields and the error it ends with, if it does.\<close>

record 'p llm_ops =
  ll_complete :: "string \<Rightarrow> complete_options \<Rightarrow> 'p \<Rightarrow> (thrown + llm_result) \<times> 'p"
  ll_chatWithTools :: "(llm_message list \<Rightarrow> tool_options \<Rightarrow> 'p \<Rightarrow> (thrown + tool_result) \<times> 'p) option"
  ll_stream :: "string \<Rightarrow> complete_options \<Rightarrow> 'p \<Rightarrow> (string list \<times> thrown option) \<times> 'p"

datatype 'p platform_llm =
    LLM_none
  | LLM_single "'p llm_ops"
  | LLM_router "string \<Rightarrow> 'p \<Rightarrow> (thrown + 'p llm_ops) \<times> 'p"

definition resolveLLMForTier :: "'p platform_llm \<Rightarrow> string \<Rightarrow> 'p \<Rightarrow> (thrown + 'p llm_ops option) \<times> 'p" where
  "resolveLLMForTier llm tier p =
     (case llm of
        LLM_none \<Rightarrow> (Inr None, p)
      | LLM_single ops \<Rightarrow> (Inr (Some ops), p)
      | LLM_router resolveAdapter \<Rightarrow>
          (case resolveAdapter tier p of
             (Inl err, p1) \<Rightarrow> (Inl err, p1)
           | (Inr ops, p1) \<Rightarrow> (Inr (Some ops), p1)))"

section \<open>Helpers\<close>

definition safeJsonParse :: "(string \<Rightarrow> jval option) \<Rightarrow> string \<Rightarrow> jval" where
  "safeJsonParse json_parse str = or_else (json_parse str) (JStr str)"

definition toILLMMessage :: "(string \<Rightarrow> jval option) \<Rightarrow> chat_message \<Rightarrow> llm_message" where
  "toILLMMessage json_parse m =
     \<lparr>lm_role = cm_role m, lm_content = cm_content m,
      lm_toolCallId = (if truthy (cm_tool_call_id m) then cm_tool_call_id m else None),
      lm_toolCalls = map_option (map (\<lambda>tc. (tr_id tc, tr_name tc, safeJsonParse json_parse (tr_arguments tc))))
        (cm_tool_calls m)\<rparr>"

definition toILLMMessages :: "(string \<Rightarrow> jval option) \<Rightarrow> chat_request \<Rightarrow> llm_message list" where
  "toILLMMessages json_parse req = map (toILLMMessage json_parse) (cq_messages req)"

definition toILLMTools :: "chat_tool list \<Rightarrow> llm_tool list" where
  "toILLMTools tools =
     map (\<lambda>t. \<lparr>lt_name = ct_name t, lt_description = or_else (ct_description t) '''',
               lt_inputSchema = or_else (ct_parameters t) []\<rparr>) tools"

definition normalizeStop :: "stop_spec option \<Rightarrow> string list option" where
  "normalizeStop stop =
     (case stop of
        None \<Rightarrow> None
      | Some (Stop_one s) \<Rightarrow> if s = [] then None else Some [s]
      | Some (Stop_many ss) \<Rightarrow> Some ss)"

text \<open>\<open>.join('\n\n')\<close>\<close>

fun join_paragraphs :: "string list \<Rightarrow> string" where
  "join_paragraphs [] = []"
| "join_paragraphs [s] = s"
| "join_paragraphs (s # ss) = s @ [CHR 0x0A, CHR 0x0A] @ join_paragraphs ss"

definition system_prompt :: "(string \<times> string) list \<Rightarrow> string option" where
  "system_prompt ms = map_option snd (List.find (\<lambda>(r, c). r = ''system'') ms)"

definition user_prompt :: "(string \<times> string) list \<Rightarrow> string" where
  "user_prompt ms = join_paragraphs (map snd (filter (\<lambda>(r, c). r \<noteq> ''system'') ms))"

definition role_contents :: "chat_request \<Rightarrow> (string \<times> string) list" where
  "role_contents req = map (\<lambda>m. (cm_role m, cm_content m)) (cq_messages req)"

definition prompt_options :: "chat_request \<Rightarrow> complete_options" where
  "prompt_options req =
     \<lparr>op_systemPrompt = system_prompt (role_contents req), op_temperature = cq_temperature req,
      op_maxTokens = cq_max_tokens req, op_stop = normalizeStop (cq_stop req)\<rparr>"

section \<open>Completion\<close>

record chat_completion =
  cc_id :: string
  cc_created :: int
  cc_model :: string
  cc_content :: "string option"
  cc_tool_calls :: "tool_call_ref list"
      \<comment> \<open>left out of the message when empty\<close>
  cc_finish_reason :: string
  cc_prompt_tokens :: nat
  cc_completion_tokens :: nat
  cc_total_tokens :: nat

definition finish_reason :: "string \<Rightarrow> string" where
  "finish_reason stopReason =
     (if stopReason = ''tool_use'' then ''tool_calls''
      else if stopReason = ''max_tokens'' then ''length'' else ''stop'')"

definition tool_call_out :: "(jval \<Rightarrow> string) \<Rightarrow> string \<times> string \<times> jval \<Rightarrow> tool_call_ref" where
  "tool_call_out stringify tc =
     (case tc of (i, n, inp) \<Rightarrow>
        \<lparr>tr_id = i, tr_name = n, tr_arguments = (case inp of JStr s \<Rightarrow> s | _ \<Rightarrow> stringify inp)\<rparr>)"

definition wants_tools :: "chat_request \<Rightarrow> bool" where
  "wants_tools req \<longleftrightarrow> (case cq_tools req of Some tools \<Rightarrow> tools \<noteq> [] | None \<Rightarrow> False)"

definition tool_call_options :: "chat_request \<Rightarrow> tool_options" where
  "tool_call_options req =
     \<lparr>ot_temperature = cq_temperature req, ot_maxTokens = cq_max_tokens req, ot_stop = normalizeStop (cq_stop req),
      ot_tools = toILLMTools (or_else (cq_tools req) []), ot_toolChoice = cq_tool_choice req\<rparr>"

definition handleCompletionRequest ::
  "(string \<Rightarrow> jval option) \<Rightarrow> (jval \<Rightarrow> string) \<Rightarrow> 'p llm_ops \<Rightarrow> chat_request \<Rightarrow> string \<Rightarrow> int \<Rightarrow> 'p \<Rightarrow>
     (thrown + chat_completion) \<times> 'p" where
  "handleCompletionRequest json_parse stringify llm req requestId startTime p =
     (case (if wants_tools req then ll_chatWithTools llm else None) of
        Some chatWithTools \<Rightarrow>
          (case chatWithTools (toILLMMessages json_parse req) (tool_call_options req) p of
             (Inl err, p1) \<Rightarrow> (Inl err, p1)
           | (Inr result, p1) \<Rightarrow>
               (Inr \<lparr>cc_id = requestId, cc_created = startTime div 1000, cc_model = cq_model req,
                     cc_content = (if lr_content result = [] then None else Some (lr_content result)),
                     cc_tool_calls = map (tool_call_out stringify) (or_else (lr_toolCalls result) []),
                     cc_finish_reason = finish_reason (lr_stopReason result),
                     cc_prompt_tokens = lr_promptTokens result, cc_completion_tokens = lr_completionTokens result,
                     cc_total_tokens = lr_promptTokens result + lr_completionTokens result\<rparr>, p1))
      | None \<Rightarrow>
          (case ll_complete llm (user_prompt (role_contents req)) (prompt_options req) p of
             (Inl err, p1) \<Rightarrow> (Inl err, p1)
           | (Inr result, p1) \<Rightarrow>
               (Inr \<lparr>cc_id = requestId, cc_created = startTime div 1000, cc_model = cq_model req,
                     cc_content = Some (lr_content result), cc_tool_calls = [], cc_finish_reason = ''stop'',
                     cc_prompt_tokens = lr_promptTokens result, cc_completion_tokens = lr_completionTokens result,
                     cc_total_tokens = lr_promptTokens result + lr_completionTokens result\<rparr>, p1)))"

section \<open>Stream\<close>

datatype chunk_delta = Delta_role | Delta_content string | Delta_finish

record chat_chunk =
  ck_id :: string
  ck_created :: int
  ck_model :: string
  ck_delta :: chunk_delta

datatype stream_line = SL_chunk chat_chunk | SL_done | SL_error string

definition stream_tail :: "(chunk_delta \<Rightarrow> stream_line) \<Rightarrow> thrown option \<Rightarrow> stream_line list \<times> bool" where
  "stream_tail chunk failed =
     (case failed of
        None \<Rightarrow> ([chunk Delta_finish, SL_done], True)
      | Some err \<Rightarrow> (case error_message err of None \<Rightarrow> ([], False) | Some message \<Rightarrow> ([SL_error message], True)))"

text \<open>The lines written and whether the response was ended.\<close>

definition handleStreamingRequest ::
  "'p llm_ops \<Rightarrow> chat_request \<Rightarrow> string \<Rightarrow> int \<Rightarrow> 'p \<Rightarrow> (stream_line list \<times> bool) \<times> 'p" where
  "handleStreamingRequest llm req requestId now p =
     (let chunk = (\<lambda>d. SL_chunk \<lparr>ck_id = requestId, ck_created = now div 1000, ck_model = cq_model req, ck_delta = d\<rparr>);
          ((texts, failed), p1) = ll_stream llm (user_prompt (role_contents req)) (prompt_options req) p;
          (tail, ended) = stream_tail chunk failed
      in ((chunk Delta_role # map (\<lambda>t. chunk (Delta_content t)) texts @ tail, ended), p1))"

section \<open>The route\<close>

datatype llm_reply =
    LR_unauthorized
  | LR_bad_request
  | LR_crash
      \<comment> \<open>the handler throws, Fastify answers 500 in its own format\<close>
  | LR_unavailable string
  | LR_internal_error
  | LR_completion chat_completion
  | LR_stream "stream_line list" bool

definition llm_route ::
  "(string \<Rightarrow> jval option) \<Rightarrow> (jval \<Rightarrow> string) \<Rightarrow> 'p platform_llm \<Rightarrow> auth_context option \<Rightarrow> jval \<Rightarrow> string \<Rightarrow> int \<Rightarrow> 'p \<Rightarrow>
     llm_reply \<times> 'p" where
  "llm_route json_parse stringify platform_llm auth body requestId now p =
     (if auth = None then (LR_unauthorized, p)
      else case parse_chat_request body of
        None \<Rightarrow> (LR_bad_request, p)
      | Some req \<Rightarrow>
          (case resolveLLMForTier platform_llm (cq_model req) p of
             (Inl err, p1) \<Rightarrow> (LR_crash, p1)
           | (Inr None, p1) \<Rightarrow> (LR_unavailable (cq_model req), p1)
           | (Inr (Some llm), p1) \<Rightarrow>
               if cq_stream req
               then (let ((written, ended), p2) = handleStreamingRequest llm req requestId now p1
                     in (LR_stream written ended, p2))
               else (case handleCompletionRequest json_parse stringify llm req requestId now p1 of
                       (Inr c, p2) \<Rightarrow> (LR_completion c, p2)
                     | (Inl err, p2) \<Rightarrow>
                         (if error_message err = None then LR_crash else LR_internal_error, p2))))"

section \<open>Lemmas\<close>

lemma enum_value_Some: "enum_value names v = Some s \<longleftrightarrow> v = JStr s \<and> s \<in> set names"
  by (cases v) (auto simp: enum_value_def as_string_def)

lemma as_string_Some: "as_string v = Some s \<longleftrightarrow> v = JStr s"
  by (cases v) (auto simp: as_string_def)

lemma schema_optional_Some:
  "schema_optional f v = Some x \<longleftrightarrow> (v = JUndef \<and> x = None) \<or> (v \<noteq> JUndef \<and> (\<exists>y. f v = Some y \<and> x = Some y))"
  by (auto simp: schema_optional_def)

lemma parse_chat_message_Some:
  "parse_chat_message v = Some m \<Longrightarrow>
     cm_role m \<in> set chat_roles \<and> js_member v ''role'' = JStr (cm_role m) \<and> js_member v ''content'' = JStr (cm_content m)"
  by (auto simp: parse_chat_message_def enum_value_Some as_string_Some split: option.splits)

text \<open>The texts a client reads off the stream.\<close>

fun line_texts :: "stream_line list \<Rightarrow> string list" where
  "line_texts [] = []"
| "line_texts (SL_chunk c # ls) = (case ck_delta c of Delta_content t \<Rightarrow> t # line_texts ls | _ \<Rightarrow> line_texts ls)"
| "line_texts (l # ls) = line_texts ls"

lemma line_texts_append [simp]: "line_texts (ls @ ms) = line_texts ls @ line_texts ms"
  by (induction ls rule: line_texts.induct) (auto split: chunk_delta.splits)

lemma line_texts_contents [simp]:
  "line_texts (map (\<lambda>t. SL_chunk \<lparr>ck_id = i, ck_created = n, ck_model = m, ck_delta = Delta_content t\<rparr>) ts) = ts"
  by (induction ts) auto

definition is_terminal :: "stream_line \<Rightarrow> bool" where
  "is_terminal l \<longleftrightarrow> (case l of SL_chunk _ \<Rightarrow> False | _ \<Rightarrow> True)"

lemma list_eq_self: "map f xs = xs \<longleftrightarrow> (\<forall>x\<in>set xs. f x = x)"
  by (induction xs) auto

section \<open>Properties\<close>

text \<open>
  A request that passes the schema is well typed. Its model is a tier, it has messages, each with one
  of the four roles and with the role and content of the body's message at its place; the temperature
  lies between 0 and 2 and the token limit is positive.
\<close>

theorem chat_request_typed:
  assumes "parse_chat_request body = Some req"
  shows "cq_model req \<in> set llm_tiers \<and> cq_messages req \<noteq> [] \<and>
    (\<forall>m\<in>set (cq_messages req). cm_role m \<in> set chat_roles) \<and>
    (\<exists>vs. js_member body ''messages'' = JArr vs \<and>
       map (\<lambda>v. (js_member v ''role'', js_member v ''content'')) vs =
       map (\<lambda>m. (JStr (cm_role m), JStr (cm_content m))) (cq_messages req)) \<and>
    (\<forall>t. cq_temperature req = Some t \<longrightarrow> 0 \<le> t \<and> t \<le> 2) \<and> (\<forall>n. cq_max_tokens req = Some n \<longrightarrow> 0 < n)"
proof -
  obtain m ms t mx st str tools tc where
    p: "enum_value llm_tiers (js_member body ''model'') = Some m"
      "schema_array parse_chat_message (js_member body ''messages'') = Some ms"
      "schema_optional parse_temperature (js_member body ''temperature'') = Some t"
      "schema_optional positive_number (js_member body ''max_tokens'') = Some mx"
    and r: "ms \<noteq> []" "req = \<lparr>cq_model = m, cq_messages = ms, cq_temperature = t, cq_max_tokens = mx, cq_stop = st,
      cq_stream = str, cq_tools = tools, cq_tool_choice = tc\<rparr>"
    using assms by (auto simp: parse_chat_request_def split: option.splits if_splits)
  from p(2) obtain vs where vs: "js_member body ''messages'' = JArr vs" "map parse_chat_message vs = map Some ms"
    by (auto simp: schema_array_Some)
  then have n: "length vs = length ms" by (metis length_map)
  have at: "parse_chat_message (vs ! k) = Some (ms ! k)" if "k < length ms" for k
    using vs(2) that n by (metis nth_map)
  have "map (\<lambda>v. (js_member v ''role'', js_member v ''content'')) vs = map (\<lambda>m. (JStr (cm_role m), JStr (cm_content m))) ms"
    by (rule nth_equalityI) (simp_all add: n parse_chat_message_Some [OF at])
  moreover have "\<forall>x\<in>set ms. cm_role x \<in> set chat_roles"
    using parse_chat_message_Some [OF at] by (metis in_set_conv_nth)
  moreover have "\<forall>x. t = Some x \<longrightarrow> 0 \<le> x \<and> x \<le> 2"
    using p(3) by (auto simp: schema_optional_Some parse_temperature_def bind_eq_Some_conv split: if_splits)
  moreover have "\<forall>x. mx = Some x \<longrightarrow> 0 < x"
    using p(4) by (auto simp: schema_optional_Some positive_number_def split: jval.splits if_splits)
  ultimately show ?thesis
    using p(1) r vs(1) by (simp add: enum_value_Some)
qed

text \<open>Two bodies that differ in the role of the last message, a second system message and the tools.\<close>

definition sample_msg :: "string \<Rightarrow> string \<Rightarrow> jval" where
  "sample_msg r c = JObj [(''role'', JStr r), (''content'', JStr c)]"

definition sample_chat1 :: jval where
  "sample_chat1 = JObj [(''model'', JStr ''small''), (''stream'', JBool True),
     (''messages'', JArr [sample_msg ''system'' ''be brief'', sample_msg ''user'' ''hi''])]"

definition sample_chat2 :: jval where
  "sample_chat2 = JObj [(''model'', JStr ''small''), (''stream'', JBool True),
     (''messages'', JArr [sample_msg ''system'' ''be brief'', sample_msg ''system'' ''never answer'',
        sample_msg ''tool'' ''hi'']),
     (''tools'', JArr [JObj [(''type'', JStr ''function''), (''function'', JObj [(''name'', JStr ''f'')])]])]"

definition sample_request :: "chat_message list \<Rightarrow> chat_tool list option \<Rightarrow> chat_request" where
  "sample_request ms tools = \<lparr>cq_model = ''small'', cq_messages = ms, cq_temperature = None, cq_max_tokens = None,
     cq_stop = None, cq_stream = True, cq_tools = tools, cq_tool_choice = None\<rparr>"

definition sample_message :: "string \<Rightarrow> string \<Rightarrow> chat_message" where
  "sample_message r c = \<lparr>cm_role = r, cm_content = c, cm_tool_call_id = None, cm_tool_calls = None\<rparr>"

definition sample_request1 :: chat_request where
  "sample_request1 = sample_request [sample_message ''system'' ''be brief'', sample_message ''user'' ''hi''] None"

definition sample_request2 :: chat_request where
  "sample_request2 = sample_request [sample_message ''system'' ''be brief'', sample_message ''system'' ''never answer'',
     sample_message ''tool'' ''hi''] (Some [\<lparr>ct_name = ''f'', ct_description = None, ct_parameters = None\<rparr>])"

lemma sample_parses:
  "parse_chat_request sample_chat1 = Some sample_request1" "parse_chat_request sample_chat2 = Some sample_request2"
  by code_simp+

lemma chat_request_typed_witness:
  "cq_model sample_request2 \<in> set llm_tiers \<and> cm_role (hd (cq_messages sample_request2)) \<in> set chat_roles"
  using chat_request_typed [OF sample_parses(2)] by (meson hd_in_set)

definition sample_llm :: "nat llm_ops" where
  "sample_llm = \<lparr>ll_complete = (\<lambda>_ _ n. (Inl (Th_error ''busy''), Suc n)), ll_chatWithTools = None,
     ll_stream = (\<lambda>prompt _ n. (([''echo: '', prompt], None), Suc n))\<rparr>"

definition sample_caller :: auth_context where
  "sample_caller = \<lparr>ac_type = Some ''cli'', ac_userId = None, ac_namespaceId = Some ''ns-1'', ac_tier = None,
     ac_permissions = []\<rparr>"

text \<open>
  C30: a stream is complete and well formed. When the model's error, if any, can be printed, the response
  is always ended; it starts with the role chunk, carries the model's texts once each and in order, has
  exactly one terminal line, its last, which is DONE exactly when the model did not fail; and every chunk
  has the request's id and names the tier, never a concrete model.
\<close>

theorem chat_stream_shape:
  assumes "parse_chat_request body = Some req" "cq_stream req" "auth \<noteq> None"
    and "resolveLLMForTier platform_llm (cq_model req) p = (Inr (Some llm), p1)"
    and "ll_stream llm (user_prompt (role_contents req)) (prompt_options req) p1 = ((texts, failed), p2)"
    and "\<forall>err. failed = Some err \<longrightarrow> error_message err \<noteq> None"
  shows "\<exists>written. llm_route json_parse stringify platform_llm auth body requestId now p = (LR_stream written True, p2) \<and>
    line_texts written = texts \<and> \<not> (\<exists>l\<in>set (butlast written). is_terminal l) \<and> is_terminal (last written) \<and>
    (last written = SL_done \<longleftrightarrow> failed = None) \<and>
    (\<exists>c. hd written = SL_chunk c \<and> ck_delta c = Delta_role) \<and>
    (\<forall>c. SL_chunk c \<in> set written \<longrightarrow> ck_id c = requestId \<and> ck_model c = cq_model req)"
proof (cases failed)
  case None
  with assms show ?thesis
    by (auto simp: llm_route_def handleStreamingRequest_def stream_tail_def is_terminal_def butlast_append)
next
  case (Some err)
  with assms(6) obtain message where "error_message err = Some message" by blast
  with Some assms show ?thesis
    by (auto simp: llm_route_def handleStreamingRequest_def stream_tail_def is_terminal_def butlast_append)
qed

lemma chat_stream_shape_witness:
  "\<exists>written. llm_route (\<lambda>_. None) (\<lambda>_. []) (LLM_single sample_llm) (Some sample_caller) sample_chat1 ''id'' 5000 0 =
      (LR_stream written True, 1) \<and> line_texts written = [''echo: '', ''hi''] \<and> last written = SL_done"
proof -
  have "ll_stream sample_llm (user_prompt (role_contents sample_request1)) (prompt_options sample_request1) 0 =
      (([''echo: '', ''hi''], None), 1)"
    by code_simp
  then show ?thesis
    using chat_stream_shape [OF sample_parses(1), where auth = "Some sample_caller" and platform_llm = "LLM_single sample_llm"
        and llm = sample_llm and p = 0 and ?p1.0 = 0 and ?p2.0 = 1 and texts = "[''echo: '', ''hi'']" and failed = None
        and requestId = "''id''" and now = 5000 and json_parse = "\<lambda>_. None" and stringify = "\<lambda>_. []"]
    by (auto simp: resolveLLMForTier_def sample_request1_def sample_request_def)
qed

text \<open>
  What the model does not see. A request without tools, and any streaming request, reaches the model
  as one prompt: two requests with the same first system message and the same contents of the other
  messages get the same answer, whatever the roles of those messages, further system messages, tool
  call references, and, when streaming, tools and tool choice.
\<close>

theorem llm_sees_only_prompts:
  fixes platform_llm :: "'p platform_llm" and p :: 'p
  assumes "parse_chat_request body1 = Some r1" "parse_chat_request body2 = Some r2"
    and "cq_model r1 = cq_model r2" "prompt_options r1 = prompt_options r2"
    and "map snd (filter (\<lambda>(r, c). r \<noteq> ''system'') (role_contents r1)) =
      map snd (filter (\<lambda>(r, c). r \<noteq> ''system'') (role_contents r2))"
    and "cq_stream r1 = cq_stream r2" "cq_stream r1 \<or> \<not> wants_tools r1 \<and> \<not> wants_tools r2"
  shows "llm_route json_parse stringify platform_llm auth body1 requestId now p =
    llm_route json_parse stringify platform_llm auth body2 requestId now p"
proof -
  have "user_prompt (role_contents r1) = user_prompt (role_contents r2)"
    using assms(5) by (simp add: user_prompt_def)
  note same = assms(3,4) this
  have "handleStreamingRequest llm r1 requestId now q = handleStreamingRequest llm r2 requestId now q" for llm and q :: 'p
    unfolding handleStreamingRequest_def same by (rule refl)
  moreover have "handleCompletionRequest json_parse stringify llm r1 requestId now q =
      handleCompletionRequest json_parse stringify llm r2 requestId now q" if "\<not> cq_stream r1" for llm and q :: 'p
    using assms(7) that unfolding handleCompletionRequest_def same by simp
  moreover obtain x p1 where "resolveLLMForTier platform_llm (cq_model r2) p = (x, p1)" by fastforce
  ultimately show ?thesis
    using assms(1,2,3,6) by (cases "cq_stream r1"; cases x) (simp_all add: llm_route_def split: option.split)
qed

lemma llm_sees_only_prompts_witness:
  "llm_route (\<lambda>_. None) (\<lambda>_. []) (LLM_single sample_llm) (Some sample_caller) sample_chat1 ''id'' 5000 0 =
   llm_route (\<lambda>_. None) (\<lambda>_. []) (LLM_single sample_llm) (Some sample_caller) sample_chat2 ''id'' 5000 0"
proof (rule llm_sees_only_prompts [OF sample_parses])
  show "cq_model sample_request1 = cq_model sample_request2" by code_simp
  show "prompt_options sample_request1 = prompt_options sample_request2" by code_simp
  show "map snd (filter (\<lambda>(r, c). r \<noteq> ''system'') (role_contents sample_request1)) =
      map snd (filter (\<lambda>(r, c). r \<noteq> ''system'') (role_contents sample_request2))" by code_simp
  show "cq_stream sample_request1 = cq_stream sample_request2" by code_simp
  show "cq_stream sample_request1 \<or> \<not> wants_tools sample_request1 \<and> \<not> wants_tools sample_request2" by code_simp
qed

text \<open>
  Tool calls survive the round trip through the client. A client that sends the tool calls of a reply
  back as part of the conversation makes the model see its own inputs again exactly when no input was a
  string that parses as some other JSON value, such as a number.
\<close>

theorem tool_call_roundtrip:
  assumes "\<forall>(i, n, v)\<in>set calls. (\<forall>s. v \<noteq> JStr s) \<longrightarrow> json_parse (stringify v) = Some v"
  shows "lm_toolCalls (toILLMMessage json_parse \<lparr>cm_role = ''assistant'', cm_content = c, cm_tool_call_id = None,
      cm_tool_calls = Some (map (tool_call_out stringify) calls)\<rparr>) = Some calls \<longleftrightarrow>
    (\<forall>(i, n, v)\<in>set calls. \<forall>s. v = JStr s \<longrightarrow> json_parse s \<in> {None, Some (JStr s)})"
proof -
  have one: "(i, n, safeJsonParse json_parse (tr_arguments (tool_call_out stringify (i, n, v)))) = (i, n, v) \<longleftrightarrow>
      (\<forall>s. v = JStr s \<longrightarrow> json_parse s \<in> {None, Some (JStr s)})" if "(i, n, v) \<in> set calls" for i n v
  proof (cases "\<exists>s. v = JStr s")
    case True
    then obtain s where v: "v = JStr s" by blast
    show ?thesis by (cases "json_parse s") (auto simp: v safeJsonParse_def tool_call_out_def)
  next
    case False
    with assms that have "json_parse (stringify v) = Some v" by auto
    with False show ?thesis by (cases v) (auto simp: safeJsonParse_def tool_call_out_def)
  qed
  have pair: "tr_id (tool_call_out stringify x) = fst x" "tr_name (tool_call_out stringify x) = fst (snd x)" for x
    by (cases x, simp add: tool_call_out_def)+
  have "lm_toolCalls (toILLMMessage json_parse \<lparr>cm_role = ''assistant'', cm_content = c, cm_tool_call_id = None,
      cm_tool_calls = Some (map (tool_call_out stringify) calls)\<rparr>) = Some calls \<longleftrightarrow>
    (\<forall>x\<in>set calls. (fst x, fst (snd x), safeJsonParse json_parse (tr_arguments (tool_call_out stringify x))) = x)"
    by (simp add: toILLMMessage_def pair o_def map_idI list_eq_self)
  then show ?thesis using one by fastforce
qed

text \<open>A string input that is a numeral comes back as the number.\<close>

definition sample_json_parse :: "string \<Rightarrow> jval option" where
  "sample_json_parse s = (if s = ''42'' then Some (JNum 42) else None)"

lemma tool_call_roundtrip_witness:
  "lm_toolCalls (toILLMMessage sample_json_parse \<lparr>cm_role = ''assistant'', cm_content = '''', cm_tool_call_id = None,
      cm_tool_calls = Some (map (tool_call_out (\<lambda>_. ''42'')) [(''c1'', ''f'', JNum 42)])\<rparr>) = Some [(''c1'', ''f'', JNum 42)] \<and>
   lm_toolCalls (toILLMMessage sample_json_parse \<lparr>cm_role = ''assistant'', cm_content = '''', cm_tool_call_id = None,
      cm_tool_calls = Some (map (tool_call_out (\<lambda>_. ''42'')) [(''c1'', ''f'', JStr ''42'')])\<rparr>) \<noteq> Some [(''c1'', ''f'', JStr ''42'')]"
  using tool_call_roundtrip [of "[(''c1'', ''f'', JNum 42)]" sample_json_parse "\<lambda>_. ''42''" "''''"]
    tool_call_roundtrip [of "[(''c1'', ''f'', JStr ''42'')]" sample_json_parse "\<lambda>_. ''42''" "''''"]
  by (simp add: sample_json_parse_def)

end
