(* ===== verification/Observability.thy ===== *)
theory Observability
  imports Server_Routes "HOL-Library.Product_Lexorder"
begin

text \<open>
  The metrics collector (apps/gateway-app/src/observability/collector.ts): the request hooks, the route
  statistics, the health document with its top operations and the Prometheus text. The operation
  tracker of the shared library is not in this repository: its top operations and metric lines are
  arguments, as are clock readings and process usage. Durations are non-negative rationals where the
  code has doubles.
\<close>

section \<open>Route names and metric lines\<close>

definition hex_dash :: "char \<Rightarrow> bool" where
  "hex_dash c \<longleftrightarrow> c \<in> set ''0123456789abcdefABCDEF-''"

text \<open>\<open>.replace(/\/[0-9a-fA-F-]{6,}/g, '/:id')\<close>\<close>

function replace_ids :: "string \<Rightarrow> string" where
  "replace_ids [] = []"
| "replace_ids (c # cs) =
     (if c = CHR ''/'' \<and> 6 \<le> length (takeWhile hex_dash cs)
      then ''/:id'' @ replace_ids (dropWhile hex_dash cs)
      else c # replace_ids cs)"
  by pat_completeness auto
termination by (relation "measure length") (auto simp: le_imp_less_Suc length_dropWhile_le)

definition normalizeRoute :: "string option \<Rightarrow> string" where
  "normalizeRoute route =
     (if \<not> truthy route then ''unknown'' else replace_ids (takeWhile (\<lambda>c. c \<noteq> CHR ''?'') (the route)))"

fun escape_quotes :: "string \<Rightarrow> string" where
  "escape_quotes [] = []"
| "escape_quotes (c # cs) = (if c = CHR 0x22 then [CHR 0x5C, CHR 0x22] else [c]) @ escape_quotes cs"

fun join_with :: "string \<Rightarrow> string list \<Rightarrow> string" where
  "join_with sep [] = []"
| "join_with sep [s] = s"
| "join_with sep (s # ss) = s @ sep @ join_with sep ss"

text \<open>The value is given as it prints.\<close>

definition metricLine :: "string \<Rightarrow> string \<Rightarrow> (string \<times> string) list \<Rightarrow> string" where
  "metricLine name value labels =
     (if labels = [] then name @ '' '' @ value
      else name @ ''{'' @
        join_with '','' (map (\<lambda>(k, v). k @ ''='' @ [CHR 0x22] @ escape_quotes v @ [CHR 0x22]) labels) @ ''} '' @ value)"

text \<open>\<open>Number(x.toFixed(2))\<close> of a non-negative number, in hundredths, and how it prints.\<close>

definition hundredths :: "rat \<Rightarrow> nat" where
  "hundredths x = nat \<lfloor>x * 100 + 1 / 2\<rfloor>"

definition toFixed2 :: "rat \<Rightarrow> rat" where
  "toFixed2 x = of_nat (hundredths x) / 100"

definition fixed_string :: "rat \<Rightarrow> string" where
  "fixed_string x =
     (let k = hundredths x;
          f = k mod 100
      in nat_string (k div 100) @
         (if f = 0 then ''''
          else if f mod 10 = 0 then ''.'' @ nat_string (f div 10)
          else ''.'' @ (if f < 10 then ''0'' else '''') @ nat_string f))"

section \<open>State and hooks\<close>

record route_stats =
  rs_count :: nat
  rs_totalDurationMs :: rat
  rs_maxDurationMs :: rat
  rs_errorCount :: nat

record runtime_snapshot =
  sn_cpuPercent :: rat
  sn_rssBytes :: nat
  sn_heapUsedBytes :: nat
  sn_eventLoopLagMs :: rat

record collector =
  co_instanceId :: string
  co_dependencies :: "string list"
  co_startedAt :: int
  co_routeStats :: "(string, route_stats) jsmap"
  co_lastCpuUsage :: "nat \<times> nat"
  co_lastCpuTime :: int
  co_interval :: bool
  co_activeOperations :: nat
  co_requestsTotal :: nat
  co_errorsTotal :: nat
  co_lastSnapshot :: runtime_snapshot

text \<open>Every dependency is an optional upstream; only its service id varies.\<close>

definition new_collector :: "string \<Rightarrow> string list \<Rightarrow> int \<Rightarrow> nat \<times> nat \<Rightarrow> nat \<Rightarrow> nat \<Rightarrow> collector" where
  "new_collector instanceId upstreams now usage rss heap =
     \<lparr>co_instanceId = instanceId, co_dependencies = upstreams, co_startedAt = now, co_routeStats = [],
      co_lastCpuUsage = usage, co_lastCpuTime = now, co_interval = False, co_activeOperations = 0,
      co_requestsTotal = 0, co_errorsTotal = 0,
      co_lastSnapshot = \<lparr>sn_cpuPercent = 0, sn_rssBytes = rss, sn_heapUsedBytes = heap, sn_eventLoopLagMs = 0\<rparr>\<rparr>"

text \<open>
  \<open>captureRuntimeSnapshot\<close>: two readings of the process's CPU time (user, system, in microseconds), the
  clock, the memory and the mean event loop delay in nanoseconds, \<open>None\<close> when it is not a number.
\<close>

record usage_reading =
  ur_cpu1 :: "nat \<times> nat"
  ur_cpu2 :: "nat \<times> nat"
  ur_now :: int
  ur_rss :: nat
  ur_heapUsed :: nat
  ur_mean :: "rat option"

definition captureRuntimeSnapshot :: "usage_reading \<Rightarrow> collector \<Rightarrow> collector" where
  "captureRuntimeSnapshot u co =
     (let user = fst (ur_cpu1 u) - fst (co_lastCpuUsage co);
          sys = snd (ur_cpu1 u) - snd (co_lastCpuUsage co);
          deltaTime = max (ur_now u - co_lastCpuTime co) 1;
          cpuTimeMs = of_nat (user + sys) / 1000
      in co\<lparr>co_lastCpuUsage := ur_cpu2 u, co_lastCpuTime := ur_now u,
            co_lastSnapshot :=
              \<lparr>sn_cpuPercent = toFixed2 (min (cpuTimeMs / of_int deltaTime * 100) 100),
               sn_rssBytes = ur_rss u, sn_heapUsedBytes = ur_heapUsed u,
               sn_eventLoopLagMs = (case ur_mean u of None \<Rightarrow> 0 | Some m \<Rightarrow> toFixed2 (m / 1000000))\<rparr>\<rparr>)"

definition collector_register :: "usage_reading \<Rightarrow> collector \<Rightarrow> collector" where
  "collector_register u co = captureRuntimeSnapshot u (co\<lparr>co_interval := True\<rparr>)"

definition on_close :: "collector \<Rightarrow> collector" where
  "on_close co = co\<lparr>co_interval := False\<rparr>"

text \<open>The \<open>onRequest\<close> hook also stamps the request with its start time.\<close>

definition on_request :: "collector \<Rightarrow> collector" where
  "on_request co = co\<lparr>co_activeOperations := Suc (co_activeOperations co)\<rparr>"

record http_exchange =
  hx_method :: string
  hx_routeUrl :: "string option"
  hx_url :: string
  hx_started :: "rat option"
  hx_finished :: rat
  hx_statusCode :: nat

definition ascii_upper :: "char \<Rightarrow> char" where
  "ascii_upper c = (if 97 \<le> (of_char c :: nat) \<and> (of_char c :: nat) \<le> 122 then char_of ((of_char c :: nat) - 32) else c)"

definition exchange_route :: "http_exchange \<Rightarrow> string" where
  "exchange_route x =
     map ascii_upper (hx_method x) @ '' '' @ normalizeRoute (Some (or_else (hx_routeUrl x) (hx_url x)))"

definition exchange_duration :: "http_exchange \<Rightarrow> rat" where
  "exchange_duration x = max (hx_finished x - or_else (hx_started x) (hx_finished x)) 0"

definition on_response :: "http_exchange \<Rightarrow> collector \<Rightarrow> collector" where
  "on_response x co =
     (let durationMs = exchange_duration x;
          route = exchange_route x;
          stats = or_else (jm_get (co_routeStats co) route)
            \<lparr>rs_count = 0, rs_totalDurationMs = 0, rs_maxDurationMs = 0, rs_errorCount = 0\<rparr>;
          err = (if 400 \<le> hx_statusCode x then 1 else 0)
      in co\<lparr>co_routeStats := jm_set (co_routeStats co) route
              \<lparr>rs_count = rs_count stats + 1,
               rs_totalDurationMs = rs_totalDurationMs stats + durationMs,
               rs_maxDurationMs = max (rs_maxDurationMs stats) durationMs,
               rs_errorCount = rs_errorCount stats + err\<rparr>,
            co_errorsTotal := co_errorsTotal co + err,
            co_requestsTotal := co_requestsTotal co + 1,
            co_activeOperations := co_activeOperations co - 1\<rparr>)"

section \<open>Health document\<close>

record top_operation =
  to_operation :: string
  to_count :: "nat option"
  to_avgDurationMs :: "rat option"
  to_maxDurationMs :: "rat option"
  to_errorCount :: "nat option"

text \<open>The comparator \<open>b.count - a.count || b.max - a.max\<close> in a stable sort.\<close>

definition rank_key :: "top_operation \<Rightarrow> int \<times> rat" where
  "rank_key x = (- int (or_else (to_count x) 0), - or_else (to_maxDurationMs x) 0)"

definition merge_item :: "top_operation \<Rightarrow> (string, top_operation) jsmap \<Rightarrow> (string, top_operation) jsmap" where
  "merge_item item merged =
     (case jm_get merged (to_operation item) of
        None \<Rightarrow> jm_set merged (to_operation item) item
      | Some existing \<Rightarrow>
          let count = or_else (to_count existing) 0 + or_else (to_count item) 0;
              totalDurationMs =
                or_else (to_avgDurationMs existing) 0 * of_nat (or_else (to_count existing) 0) +
                or_else (to_avgDurationMs item) 0 * of_nat (or_else (to_count item) 0)
          in jm_set merged (to_operation item)
               \<lparr>to_operation = to_operation item, to_count = Some count,
                to_avgDurationMs = Some (if count > 0 then totalDurationMs / of_nat count else 0),
                to_maxDurationMs = Some (max (or_else (to_maxDurationMs existing) 0) (or_else (to_maxDurationMs item) 0)),
                to_errorCount = Some (or_else (to_errorCount existing) 0 + or_else (to_errorCount item) 0)\<rparr>)"

definition is_domain :: "top_operation \<Rightarrow> bool" where
  "is_domain x \<longleftrightarrow> \<not> starts_with (to_operation x) ''http.''"

definition ranked_operations :: "top_operation list \<Rightarrow> top_operation list" where
  "ranked_operations items = sort_key rank_key (jm_values (fold merge_item items []))"

definition mergeTopOperations :: "top_operation list \<Rightarrow> top_operation list \<Rightarrow> nat \<Rightarrow> top_operation list" where
  "mergeTopOperations httpOperations domainOperations limit =
     (let ranked = ranked_operations (httpOperations @ domainOperations);
          sliced = take limit ranked
      in if domainOperations = [] \<or> (\<exists>x\<in>set sliced. is_domain x) then sliced
         else case List.find is_domain ranked of
           None \<Rightarrow> sliced
         | Some firstDomainOperation \<Rightarrow> take (limit - 1) sliced @ [firstDomainOperation])"

definition route_operation :: "string \<times> route_stats \<Rightarrow> top_operation" where
  "route_operation e =
     (case e of (operation, stats) \<Rightarrow>
        \<lparr>to_operation = ''http.'' @ operation, to_count = Some (rs_count stats),
         to_avgDurationMs = Some (if rs_count stats > 0 then rs_totalDurationMs stats / of_nat (rs_count stats) else 0),
         to_maxDurationMs = Some (rs_maxDurationMs stats), to_errorCount = Some (rs_errorCount stats)\<rparr>)"

definition http_operations :: "(string, route_stats) jsmap \<Rightarrow> top_operation list" where
  "http_operations stats =
     map route_operation
       (take 5 (sort_key (\<lambda>e. (- int (rs_count (snd e)), - rs_maxDurationMs (snd e))) stats))"

record health_check =
  hc_id :: string
  hc_ok :: bool
      \<comment> \<open>ok, else warn\<close>
  hc_latencyMs :: "int option"
  hc_message :: string

definition adapter_check :: "string \<times> bool \<times> int option \<Rightarrow> health_check" where
  "adapter_check e =
     (case e of (i, available, latency) \<Rightarrow>
        \<lparr>hc_id = ''adapter:'' @ i, hc_ok = available, hc_latencyMs = latency,
         hc_message = (if available then ''Adapter available'' else ''Adapter unavailable'')\<rparr>)"

definition upstream_check :: "string \<times> string \<times> int option \<Rightarrow> health_check" where
  "upstream_check e =
     (case e of (i, status, latency) \<Rightarrow>
        \<lparr>hc_id = ''upstream:'' @ i, hc_ok = (status = ''up''), hc_latencyMs = latency,
         hc_message = (if status = ''up'' then ''Upstream healthy'' else ''Upstream unavailable'')\<rparr>)"

record service_health =
  sh_status :: string
  sh_uptimeSec :: int
  sh_checks :: "health_check list"
  sh_snapshot :: runtime_snapshot
  sh_activeOperations :: nat
  sh_topOperations :: "top_operation list"
  sh_state :: string
  sh_requestsTotal :: nat
  sh_errorsTotal :: nat

definition buildHealth ::
  "string \<Rightarrow> (string \<times> bool \<times> int option) list \<Rightarrow> (string \<times> string \<times> int option) list \<Rightarrow> top_operation list \<Rightarrow> int \<Rightarrow>
     collector \<Rightarrow> service_health" where
  "buildHealth status adapterChecks upstreamChecks domainOperations now co =
     \<lparr>sh_status = status, sh_uptimeSec = (now - co_startedAt co) div 1000,
      sh_checks = map adapter_check adapterChecks @ map upstream_check upstreamChecks,
      sh_snapshot = co_lastSnapshot co, sh_activeOperations = co_activeOperations co,
      sh_topOperations = mergeTopOperations (http_operations (co_routeStats co)) domainOperations 5,
      sh_state = (if status = ''healthy'' then ''active''
        else if status = ''degraded'' then ''partial_observability'' else ''insufficient_data''),
      sh_requestsTotal = co_requestsTotal co, sh_errorsTotal = co_errorsTotal co\<rparr>"

section \<open>Prometheus text\<close>

definition help_type :: "string \<Rightarrow> string \<Rightarrow> string \<Rightarrow> string list" where
  "help_type name description kind = [''# HELP '' @ name @ '' '' @ description, ''# TYPE '' @ name @ '' '' @ kind]"

definition gauge :: "string \<Rightarrow> string \<Rightarrow> string \<Rightarrow> string list" where
  "gauge name description value = help_type name description ''gauge'' @ [metricLine name value []]"

definition metric_header :: "string \<Rightarrow> collector \<Rightarrow> string list" where
  "metric_header healthStatus co =
     gauge ''process_cpu_percent'' ''Current process CPU usage percentage'' (fixed_string (sn_cpuPercent (co_lastSnapshot co))) @
     gauge ''process_rss_bytes'' ''Current process resident set size in bytes'' (nat_string (sn_rssBytes (co_lastSnapshot co))) @
     gauge ''process_heap_used_bytes'' ''Current process heap used in bytes'' (nat_string (sn_heapUsedBytes (co_lastSnapshot co))) @
     gauge ''process_event_loop_lag_ms'' ''Current event loop lag in milliseconds''
       (fixed_string (sn_eventLoopLagMs (co_lastSnapshot co))) @
     gauge ''service_health_status'' ''Service health status (2=healthy, 1=degraded, 0=unhealthy)''
       (nat_string (if healthStatus = ''healthy'' then 2 else if healthStatus = ''degraded'' then 1 else 0)) @
     gauge ''service_restarts_total'' ''Service restart counter within current process lifetime'' ''0'' @
     gauge ''service_active_operations'' ''Current number of active operations'' (nat_string (co_activeOperations co)) @
     help_type ''http_requests_total'' ''Total number of HTTP requests'' ''counter'' @
     help_type ''http_errors_total'' ''Total number of HTTP errors (4xx, 5xx)'' ''counter'' @
     help_type ''http_request_duration_ms'' ''Total duration of HTTP requests grouped by route'' ''summary'' @
     help_type ''service_operation_total'' ''Total number of service operations'' ''counter'' @
     help_type ''service_operation_duration_ms'' ''Total duration of service operations grouped by route'' ''summary''"

definition route_lines :: "string \<times> route_stats \<Rightarrow> string list" where
  "route_lines e =
     (case e of (route, stats) \<Rightarrow>
        let status = (if rs_errorCount stats > 0 then ''error'' else ''ok'');
            operation = [(''operation'', ''http.'' @ route), (''status'', status)];
            duration = fixed_string (rs_totalDurationMs stats)
        in [metricLine ''http_requests_total'' (nat_string (rs_count stats)) [(''route'', route)],
            metricLine ''http_errors_total'' (nat_string (rs_errorCount stats)) [(''route'', route)],
            metricLine ''http_request_duration_ms'' duration [(''route'', route)],
            metricLine ''service_operation_total'' (nat_string (rs_count stats)) operation,
            metricLine ''service_operation_duration_ms'' duration operation])"

text \<open>The lines; the text ends each with a newline.\<close>

definition renderPrometheusMetrics :: "usage_reading \<Rightarrow> string \<Rightarrow> string list \<Rightarrow> collector \<Rightarrow> string list \<times> collector" where
  "renderPrometheusMetrics u healthStatus operationLines co =
     (let co1 = captureRuntimeSnapshot u co
      in (metric_header healthStatus co1 @ concat (map route_lines (co_routeStats co1)) @ operationLines, co1))"

section \<open>The history behind the statistics\<close>

datatype http_event = Received | Responded http_exchange

fun http_step :: "http_event \<Rightarrow> collector \<Rightarrow> collector" where
  "http_step Received co = on_request co"
| "http_step (Responded x) co = on_response x co"

definition run_events :: "http_event list \<Rightarrow> collector \<Rightarrow> collector" where
  "run_events es co = fold http_step es co"

fun responses :: "http_event list \<Rightarrow> http_exchange list" where
  "responses [] = []"
| "responses (Received # es) = responses es"
| "responses (Responded x # es) = x # responses es"

definition is_error :: "http_exchange \<Rightarrow> bool" where
  "is_error x \<longleftrightarrow> 400 \<le> hx_statusCode x"

text \<open>What the statistics of one route should say of the responses it has sent.\<close>

definition stats_of :: "http_exchange list \<Rightarrow> route_stats" where
  "stats_of xs =
     \<lparr>rs_count = length xs, rs_totalDurationMs = sum_list (map exchange_duration xs),
      rs_maxDurationMs = fold max (map exchange_duration xs) 0,
      rs_errorCount = length (filter is_error xs)\<rparr>"

definition route_history :: "string \<Rightarrow> http_exchange list \<Rightarrow> http_exchange list" where
  "route_history r xs = filter (\<lambda>x. exchange_route x = r) xs"

section \<open>Lemmas: statistics\<close>

lemma on_response_get:
  "jm_get (co_routeStats (on_response x co)) r =
     (if r = exchange_route x
      then Some (let s = or_else (jm_get (co_routeStats co) r)
             \<lparr>rs_count = 0, rs_totalDurationMs = 0, rs_maxDurationMs = 0, rs_errorCount = 0\<rparr>
        in \<lparr>rs_count = rs_count s + 1, rs_totalDurationMs = rs_totalDurationMs s + exchange_duration x,
            rs_maxDurationMs = max (rs_maxDurationMs s) (exchange_duration x),
            rs_errorCount = rs_errorCount s + (if is_error x then 1 else 0)\<rparr>)
      else jm_get (co_routeStats co) r)"
  by (simp add: on_response_def is_error_def Let_def)

lemma stats_of_snoc:
  "stats_of (xs @ [x]) =
     \<lparr>rs_count = rs_count (stats_of xs) + 1, rs_totalDurationMs = rs_totalDurationMs (stats_of xs) + exchange_duration x,
      rs_maxDurationMs = max (rs_maxDurationMs (stats_of xs)) (exchange_duration x),
      rs_errorCount = rs_errorCount (stats_of xs) + (if is_error x then 1 else 0)\<rparr>"
  by (simp add: stats_of_def max.commute)

lemma responses_append [simp]: "responses (es @ fs) = responses es @ responses fs"
  by (induction es rule: responses.induct) auto

lemma route_history_snoc [simp]:
  "route_history r (xs @ [x]) = route_history r xs @ (if exchange_route x = r then [x] else [])"
  by (simp add: route_history_def)

lemma route_history_empty: "route_history r xs = [] \<longleftrightarrow> r \<notin> exchange_route ` set xs"
  by (auto simp: route_history_def filter_empty_conv)

lemma run_events_snoc [simp]: "run_events (es @ [e]) co = http_step e (run_events es co)"
  by (simp add: run_events_def)

lemma run_events_stats:
  assumes "co_routeStats co = []"
  shows "jm_get (co_routeStats (run_events es co)) r =
    (if route_history r (responses es) = [] then None else Some (stats_of (route_history r (responses es))))"
proof (induction es rule: rev_induct)
  case Nil
  then show ?case by (simp add: run_events_def assms route_history_def)
next
  case (snoc e es)
  show ?case
  proof (cases e)
    case Received
    then show ?thesis by (simp add: snoc on_request_def)
  next
    case (Responded x)
    have S: "or_else (jm_get (co_routeStats (run_events es co)) r)
        \<lparr>rs_count = 0, rs_totalDurationMs = 0, rs_maxDurationMs = 0, rs_errorCount = 0\<rparr> =
        stats_of (route_history r (responses es))"
      by (simp add: snoc) (simp add: stats_of_def)
    show ?thesis
    proof (cases "r = exchange_route x")
      case True
      then show ?thesis by (simp add: Responded on_response_get Let_def S [unfolded True] stats_of_snoc)
    next
      case False
      then show ?thesis by (simp add: Responded on_response_get snoc)
    qed
  qed
qed

lemma run_events_wf: "jm_wf (co_routeStats co) \<Longrightarrow> jm_wf (co_routeStats (run_events es co))"
proof (induction es rule: rev_induct)
  case (snoc e es)
  then show ?case by (cases e) (simp_all add: on_request_def on_response_def Let_def)
qed (simp add: run_events_def)

lemma run_events_totals:
  "co_requestsTotal (run_events es co) = co_requestsTotal co + length (responses es)"
  "co_errorsTotal (run_events es co) = co_errorsTotal co + length (filter is_error (responses es))"
proof (induction es rule: rev_induct)
  case (snoc e es)
  {
    case 1
    with snoc show ?case by (cases e) (simp_all add: on_request_def on_response_def Let_def)
  next
    case 2
    with snoc show ?case by (cases e) (simp_all add: on_request_def on_response_def Let_def is_error_def)
  }
qed (simp_all add: run_events_def)

text \<open>Every response is of a request that was received before.\<close>

definition well_bracketed :: "http_event list \<Rightarrow> bool" where
  "well_bracketed es \<longleftrightarrow>
     (\<forall>n. length (responses (take n es)) \<le> length (filter (\<lambda>e. e = Received) (take n es)))"

lemma run_events_active:
  assumes "well_bracketed es" "co_activeOperations co = 0"
  shows "co_activeOperations (run_events es co) + length (responses es) = length (filter (\<lambda>e. e = Received) es)"
  using assms(1)
proof (induction es rule: rev_induct)
  case Nil
  then show ?case by (simp add: run_events_def assms)
next
  case (snoc e es)
  have "well_bracketed es"
    unfolding well_bracketed_def
  proof
    fix n
    have "take (min n (length es)) (es @ [e]) = take n es" by (simp add: min_def)
    with snoc.prems show "length (responses (take n es)) \<le> length (filter (\<lambda>e. e = Received) (take n es))"
      unfolding well_bracketed_def by metis
  qed
  note IH = snoc.IH [OF this]
  have "length (responses (es @ [e])) \<le> length (filter (\<lambda>e. e = Received) (es @ [e]))"
    using snoc.prems unfolding well_bracketed_def by (metis order_refl take_all)
  with IH show ?case by (cases e) (auto simp: on_request_def on_response_def Let_def)
qed

lemma sum_route_histories:
  "finite R \<Longrightarrow> exchange_route ` set xs \<subseteq> R \<Longrightarrow> (\<Sum>r\<in>R. length (filter P (route_history r xs))) = length (filter P xs)"
proof (induction xs)
  case (Cons x xs)
  have "(\<Sum>r\<in>R. length (filter P (route_history r (x # xs)))) =
      (\<Sum>r\<in>R. (if r = exchange_route x \<and> P x then 1 else 0) + length (filter P (route_history r xs)))"
    by (rule sum.cong) (auto simp: route_history_def)
  also have "\<dots> = (if P x then 1 else 0) + length (filter P xs)"
    using Cons by (auto simp: sum.distrib sum.delta' conj_commute)
  finally show ?case by simp
qed (simp add: route_history_def)

section \<open>Lemmas: merging\<close>

abbreviation count_of :: "top_operation \<Rightarrow> nat" where
  "count_of x \<equiv> or_else (to_count x) 0"

abbreviation errors_of :: "top_operation \<Rightarrow> nat" where
  "errors_of x \<equiv> or_else (to_errorCount x) 0"

definition got :: "(top_operation \<Rightarrow> nat) \<Rightarrow> (string, top_operation) jsmap \<Rightarrow> string \<Rightarrow> nat" where
  "got f m k = (case jm_get m k of None \<Rightarrow> 0 | Some e \<Rightarrow> f e)"

lemma got_set: "got f (jm_set m k v) k' = (if k' = k then f v else got f m k')"
  by (simp add: got_def)

definition total_of :: "(top_operation \<Rightarrow> nat) \<Rightarrow> top_operation list \<Rightarrow> string \<Rightarrow> nat" where
  "total_of f items k = sum_list (map f (filter (\<lambda>i. to_operation i = k) items))"

lemma total_of_snoc: "total_of f (items @ [i]) k = total_of f items k + (if k = to_operation i then f i else 0)"
  by (simp add: total_of_def)

lemma merge_item_set:
  obtains v where "merge_item i m = jm_set m (to_operation i) v" "to_operation v = to_operation i"
    "count_of v = got count_of m (to_operation i) + count_of i"
    "errors_of v = got errors_of m (to_operation i) + errors_of i"
  by (cases "jm_get m (to_operation i)") (auto simp: merge_item_def got_def Let_def)

definition merged_ok :: "top_operation list \<Rightarrow> (string, top_operation) jsmap \<Rightarrow> bool" where
  "merged_ok items m \<longleftrightarrow> jm_wf m \<and> (\<forall>k e. jm_get m k = Some e \<longrightarrow> to_operation e = k) \<and>
     set (jm_keys m) = to_operation ` set items \<and>
     (\<forall>k. got count_of m k = total_of count_of items k) \<and> (\<forall>k. got errors_of m k = total_of errors_of items k)"

lemma merged_ok_step:
  assumes "merged_ok items m"
  shows "merged_ok (items @ [i]) (merge_item i m)"
proof -
  obtain v where v: "merge_item i m = jm_set m (to_operation i) v" "to_operation v = to_operation i"
    "count_of v = got count_of m (to_operation i) + count_of i"
    "errors_of v = got errors_of m (to_operation i) + errors_of i"
    by (rule merge_item_set)
  show ?thesis
    unfolding merged_ok_def v(1)
    using assms v(2-4) by (auto simp: merged_ok_def got_set total_of_snoc)
qed

lemma merged_ok_all: "merged_ok items (fold merge_item items [])"
proof (induction items rule: rev_induct)
  case Nil
  show ?case by (simp add: merged_ok_def jm_keys_def got_def total_of_def)
next
  case (snoc i items)
  then show ?case by (simp add: merged_ok_step)
qed

lemma merged_values:
  assumes "merged_ok items m"
  shows "distinct (map to_operation (jm_values m))" "to_operation ` set (jm_values m) = to_operation ` set items"
    "e \<in> set (jm_values m) \<Longrightarrow> count_of e = total_of count_of items (to_operation e) \<and>
       errors_of e = total_of errors_of items (to_operation e)"
proof -
  have pair: "jm_get m k = Some e \<and> to_operation e = k" if "(k, e) \<in> set m" for k e
    using assms that by (simp add: merged_ok_def jm_get_mem)
  then have names: "map to_operation (jm_values m) = jm_keys m"
    by (simp add: jm_values_def jm_keys_def)
  with assms show "distinct (map to_operation (jm_values m))"
    by (simp add: merged_ok_def jm_wf_def jm_keys_def)
  show "to_operation ` set (jm_values m) = to_operation ` set items"
    using assms names by (metis list.set_map merged_ok_def)
  assume "e \<in> set (jm_values m)"
  then have "(to_operation e, e) \<in> set m" using pair by (auto simp: jm_values_def)
  with pair have "jm_get m (to_operation e) = Some e" by blast
  then have "got f m (to_operation e) = f e" for f by (simp add: got_def)
  then show "count_of e = total_of count_of items (to_operation e) \<and>
       errors_of e = total_of errors_of items (to_operation e)"
    using assms unfolding merged_ok_def by metis
qed

lemma ranked_operations_facts:
  "distinct (map to_operation (ranked_operations items))"
  "to_operation ` set (ranked_operations items) = to_operation ` set items"
  "e \<in> set (ranked_operations items) \<Longrightarrow> count_of e = total_of count_of items (to_operation e) \<and>
     errors_of e = total_of errors_of items (to_operation e)"
  "sorted (map rank_key (ranked_operations items))"
proof -
  note M = merged_values [OF merged_ok_all [of items]]
  show "distinct (map to_operation (ranked_operations items))"
    using M(1) by (simp add: ranked_operations_def distinct_map)
  show "to_operation ` set (ranked_operations items) = to_operation ` set items"
    using M(2) by (simp add: ranked_operations_def)
  show "e \<in> set (ranked_operations items) \<Longrightarrow> count_of e = total_of count_of items (to_operation e) \<and>
     errors_of e = total_of errors_of items (to_operation e)"
    using M(3) by (simp add: ranked_operations_def)
  show "sorted (map rank_key (ranked_operations items))"
    by (simp add: ranked_operations_def)
qed

text \<open>The result is a prefix of the ranking, or all but its last place with a domain operation from below it.\<close>

lemma mergeTopOperations_cases:
  fixes hs ds :: "top_operation list" and limit :: nat
  assumes "0 < limit"
  defines "R \<equiv> ranked_operations (hs @ ds)"
  obtains "mergeTopOperations hs ds limit = take limit R" "ds = [] \<or> (\<exists>x\<in>set (take limit R). is_domain x) \<or> (\<forall>x\<in>set R. \<not> is_domain x)"
  | d where "mergeTopOperations hs ds limit = take (limit - 1) R @ [d]" "is_domain d" "d \<in> set R"
      "d \<notin> set (take limit R)"
proof (cases "ds = [] \<or> (\<exists>x\<in>set (take limit R). is_domain x) \<or> (\<forall>x\<in>set R. \<not> is_domain x)")
  case True
  moreover have "List.find is_domain R = None" if "\<forall>x\<in>set R. \<not> is_domain x"
    using that by (simp add: find_None_iff)
  ultimately have "mergeTopOperations hs ds limit = take limit R"
    by (auto simp: mergeTopOperations_def R_def [symmetric] Let_def)
  with True that(1) show ?thesis by blast
next
  case False
  then obtain d where d: "List.find is_domain R = Some d"
    by (metis find_None_iff not_None_eq)
  then have "is_domain d" "d \<in> set R" by (auto simp: find_Some_iff)
  with False d that(2) show ?thesis
    by (auto simp: mergeTopOperations_def R_def [symmetric] Let_def min_def)
qed

lemma sum_values:
  "jm_wf m \<Longrightarrow> sum_list (map f (jm_values m)) = (\<Sum>k\<in>set (jm_keys m). f (the (jm_get m k)))"
proof -
  assume wf: "jm_wf m"
  have "sum_list (map f (jm_values m)) = sum_list (map (\<lambda>k. f (the (jm_get m k))) (jm_keys m))"
    using wf by (auto simp: jm_values_def jm_keys_def jm_get_mem intro!: arg_cong [where f = sum_list])
  with wf show ?thesis
    using sum_list_distinct_conv_sum_set [of "jm_keys m" "\<lambda>k. f (the (jm_get m k))"]
    by (simp add: jm_wf_def jm_keys_def [symmetric])
qed

lemma distinct_take_map: "distinct (map f xs) \<Longrightarrow> distinct (map f (take n xs))"
  by (metis distinct_take take_map)

lemma mergeTop5:
  fixes hs ds :: "top_operation list"
  defines "res \<equiv> mergeTopOperations hs ds 5" and "R \<equiv> ranked_operations (hs @ ds)"
  shows "set res \<subseteq> set R" "length res \<le> 5" "take 4 res = take 4 R" "distinct (map to_operation res)"
    "(\<exists>x\<in>set ds. is_domain x) \<longrightarrow> (\<exists>x\<in>set res. is_domain x)"
proof -
  have names: "\<exists>y\<in>set R. is_domain y" if x: "x \<in> set ds" "is_domain x" for x
  proof -
    have "to_operation x \<in> to_operation ` set R"
      using x(1) ranked_operations_facts(2) [of "hs @ ds"] by (simp add: R_def)
    with x(2) show ?thesis by (auto simp: is_domain_def)
  qed
  have dist: "distinct (map to_operation R)" unfolding R_def by (rule ranked_operations_facts)
  have "set res \<subseteq> set R \<and> length res \<le> 5 \<and> take 4 res = take 4 R \<and> distinct (map to_operation res) \<and>
      ((\<exists>x\<in>set ds. is_domain x) \<longrightarrow> (\<exists>x\<in>set res. is_domain x))"
  proof (rule mergeTopOperations_cases [of 5 hs ds], goal_cases)
    case 1
    show ?case by simp
  next
    case 2
    then show ?case
      using names dist by (auto simp: res_def R_def [symmetric] distinct_take_map dest: in_set_takeD)
  next
    case (3 d)
    have "set (take 4 R) \<subseteq> set (take 5 R)" by (rule set_take_subset_set_take) simp
    with 3 have "d \<notin> set (take 4 R)" by (auto simp: R_def)
    moreover have "inj_on to_operation (set R)" using dist by (simp add: distinct_map)
    ultimately have "to_operation d \<notin> to_operation ` set (take 4 R)"
      using 3 by (auto simp: R_def [symmetric] inj_on_def dest: in_set_takeD)
    moreover have "length R > 4"
    proof (rule ccontr)
      assume "\<not> length R > 4"
      with 3 show False by (simp add: R_def [symmetric])
    qed
    ultimately show ?case
      using 3 dist by (auto simp: res_def R_def [symmetric] distinct_take_map dest: in_set_takeD)
  qed
  then show "set res \<subseteq> set R" "length res \<le> 5" "take 4 res = take 4 R" "distinct (map to_operation res)"
    "(\<exists>x\<in>set ds. is_domain x) \<longrightarrow> (\<exists>x\<in>set res. is_domain x)" by blast+
qed

section \<open>Properties\<close>


definition sample_exchange :: http_exchange where
  "sample_exchange = \<lparr>hx_method = ''get'', hx_routeUrl = None, hx_url = ''/feedback?x=1'', hx_started = Some 1,
     hx_finished = 3, hx_statusCode = 404\<rparr>"


text \<open>
  Merging the top operations. The document lists at most five operations, each once, with the counts
  and errors of all entries of its name added up; the first four lead the ranking, and when a domain
  operation was recorded one is always listed, in the fifth place if it would not have been otherwise.
\<close>

theorem top_operations_merge:
  fixes hs ds :: "top_operation list"
  defines "res \<equiv> mergeTopOperations hs ds 5" and "items \<equiv> hs @ ds"
  shows "length res \<le> 5 \<and> distinct (map to_operation res) \<and>
    (\<forall>e\<in>set res. to_operation e \<in> to_operation ` set items \<and>
       count_of e = total_of count_of items (to_operation e) \<and>
       errors_of e = total_of errors_of items (to_operation e)) \<and>
    ((\<exists>x\<in>set ds. is_domain x) \<longrightarrow> (\<exists>x\<in>set res. is_domain x)) \<and>
    (\<forall>x\<in>set items. to_operation x \<notin> to_operation ` set res \<longrightarrow>
       (\<forall>e\<in>set (take 4 res). total_of count_of items (to_operation x) \<le> count_of e))"
proof -
  let ?R = "ranked_operations items"
  note F = ranked_operations_facts [where items = items]
  have sub: "set res \<subseteq> set ?R" "length res \<le> 5" "take 4 res = take 4 ?R" "distinct (map to_operation res)"
    "(\<exists>x\<in>set ds. is_domain x) \<longrightarrow> (\<exists>x\<in>set res. is_domain x)"
    unfolding res_def using mergeTop5 [where hs = hs and ds = ds] by (simp_all add: items_def)
  have "total_of count_of items (to_operation x) \<le> count_of e"
    if x: "x \<in> set items" "to_operation x \<notin> to_operation ` set res" and e: "e \<in> set (take 4 res)" for x e
  proof -
    obtain y where y: "y \<in> set ?R" "to_operation y = to_operation x"
      using F(2) x(1) by (metis image_iff)
    with x(2) have "y \<notin> set (take 4 ?R)"
      by (metis image_eqI in_set_takeD sub(3))
    with y(1) have "y \<in> set (drop 4 ?R)"
      by (metis Un_iff append_take_drop_id set_append)
    moreover have "sorted (map rank_key (take 4 ?R) @ map rank_key (drop 4 ?R))"
      using F(4) by (simp add: map_append [symmetric] del: map_append)
    ultimately have "rank_key e \<le> rank_key y"
      using e sub(3) by (simp add: sorted_append)
    then have "count_of y \<le> count_of e" by (auto simp: rank_key_def)
    with F(3) [OF y(1)] y(2) show ?thesis by simp
  qed
  with sub F(2) F(3) show ?thesis by blast
qed

definition sample_http_operations :: "top_operation list" where
  "sample_http_operations = map (\<lambda>n. \<lparr>to_operation = ''http.'' @ n, to_count = Some 9, to_avgDurationMs = None,
     to_maxDurationMs = None, to_errorCount = None\<rparr>) [''a'', ''b'', ''c'', ''d'', ''e'', ''f'']"

lemma top_operations_merge_witness:
  "\<exists>x\<in>set (mergeTopOperations sample_http_operations
      [\<lparr>to_operation = ''gateway.adapter.llm'', to_count = Some 1, to_avgDurationMs = None, to_maxDurationMs = None,
        to_errorCount = None\<rparr>] 5). is_domain x"
  using top_operations_merge [of sample_http_operations "[\<lparr>to_operation = ''gateway.adapter.llm'', to_count = Some 1,
      to_avgDurationMs = None, to_maxDurationMs = None, to_errorCount = None\<rparr>]"]
  by (simp add: is_domain_def)

end
