(* ===== verification/Gateway_Bootstrap.thy ===== *)
theory Gateway_Bootstrap
  imports Host_Ws Auth_Properties
begin

text \<open>
  How a gateway process comes up: its configuration (packages/gateway-contracts/src/config.ts,
  apps/gateway-app/src/config.ts), the start-up sequence up to the server (bootstrap.ts), the upstream
  proxies it registers (server.ts), the dispatch of WebSocket upgrades (ws/gateway-ws.ts) and the merged
  API document (docs/routes.ts). Finding and reading the configuration file, the platform's cache, the
  URL parser and the merging of documents are parameters.
\<close>

section \<open>Configuration\<close>

record upstream_config =
  uc_url :: string
  uc_prefix :: string
  uc_rewritePrefix :: "string option"
  uc_websocket :: "bool option"
  uc_excludePaths :: "string list option"
  uc_description :: "string option"

record gateway_config =
  gc_port :: int
  gc_upstreams :: "(string \<times> upstream_config) list"
  gc_staticTokens :: "(string \<times> string \<times> string) list"
      \<comment> \<open>token, host, namespace\<close>

definition parse_upstream :: "(string \<Rightarrow> bool) \<Rightarrow> jval \<Rightarrow> upstream_config option" where
  "parse_upstream is_url v =
     (case (as_string (js_member v ''url''), as_string (js_member v ''prefix''),
            schema_optional as_string (js_member v ''rewritePrefix''), schema_optional as_bool (js_member v ''websocket''),
            schema_optional (schema_array as_string) (js_member v ''excludePaths''),
            schema_optional as_string (js_member v ''description'')) of
        (Some url, Some prefix, Some rewr, Some ws, Some excl, Some descr) \<Rightarrow>
          if is_url url \<and> starts_with prefix ''/''
          then Some \<lparr>uc_url = url, uc_prefix = prefix, uc_rewritePrefix = rewr, uc_websocket = ws,
                     uc_excludePaths = excl, uc_description = descr\<rparr>
          else None
      | _ \<Rightarrow> None)"

definition parse_static_token :: "jval \<Rightarrow> (string \<times> string) option" where
  "parse_static_token v =
     (case (as_string (js_member v ''hostId''), as_string (js_member v ''namespaceId'')) of
        (Some h, Some n) \<Rightarrow> Some (h, n)
      | _ \<Rightarrow> None)"

text \<open>\<open>p.default(d)\<close>\<close>

definition schema_default :: "'a \<Rightarrow> (jval \<Rightarrow> 'a option) \<Rightarrow> jval \<Rightarrow> 'a option" where
  "schema_default d p v = (if v = JUndef then Some d else p v)"

definition parse_gateway_config :: "(string \<Rightarrow> bool) \<Rightarrow> jval \<Rightarrow> gateway_config option" where
  "parse_gateway_config is_url v =
     Option.bind (as_object v) (\<lambda>ob.
       (case (schema_default 4000 as_number (js_member ob ''port''),
              schema_default [] (schema_record (parse_upstream is_url)) (js_member ob ''upstreams''),
              schema_default [] (schema_record parse_static_token) (js_member ob ''staticTokens'')) of
          (Some port, Some ups, Some toks) \<Rightarrow> Some \<lparr>gc_port = port, gc_upstreams = ups, gc_staticTokens = toks\<rparr>
        | _ \<Rightarrow> None))"

text \<open>
  The nearest configuration file, \<open>None\<close> when there is none; its content, \<open>None\<close> when it could not be
  read or parsed. The result is \<open>None\<close> when the schema rejects the gateway section.
\<close>

definition loadGatewayConfig :: "(string \<Rightarrow> bool) \<Rightarrow> jval option option \<Rightarrow> gateway_config option" where
  "loadGatewayConfig is_url configFile =
     (case configFile of
        None \<Rightarrow> parse_gateway_config is_url (JObj [])
      | Some None \<Rightarrow> parse_gateway_config is_url (JObj [])
      | Some (Some data) \<Rightarrow>
          if \<not> js_truthy (js_member data ''gateway'') then parse_gateway_config is_url (JObj [])
          else parse_gateway_config is_url (js_member data ''gateway''))"

section \<open>Start-up\<close>

definition seed_static_tokens :: "'c cache_ops \<Rightarrow> (string \<times> string \<times> string) list \<Rightarrow> 'c \<Rightarrow> 'c" where
  "seed_static_tokens C staticTokens c =
     fold (\<lambda>(token, hostId, namespaceId) c. cset C c (tokenKey token) (V_token hostId namespaceId) None) staticTokens c"

definition dev_secret :: string where
  "dev_secret = ''dev-insecure-secret-change-me''"

definition jwt_secret :: "string option \<Rightarrow> string" where
  "jwt_secret GATEWAY_JWT_SECRET = or_else GATEWAY_JWT_SECRET dev_secret"

text \<open>
  Steps 4 to 7: the registry over the platform's cache and the store, if there is a database; the
  persisted hosts; the static tokens; the secret. The result is the number of restored hosts, the
  secret and the state the server starts with.
\<close>

definition bootstrap ::
  "'c cache_ops \<Rightarrow> 's store_ops option \<Rightarrow> gateway_config \<Rightarrow> string option \<Rightarrow> int \<Rightarrow> 'c \<Rightarrow> 's \<Rightarrow>
     (nat \<times> string) \<times> ('c, 's) host_registry" where
  "bootstrap C St config GATEWAY_JWT_SECRET now c s =
     (let registry = \<lparr>gr_cache = c, gr_store = s, gr_timers = [], gr_armed = [], gr_nextTimer = 0\<rparr>;
          (restoredCount, r1) = restore C St now registry
      in ((restoredCount, jwt_secret GATEWAY_JWT_SECRET),
          r1\<lparr>gr_cache := seed_static_tokens C (gc_staticTokens config) (gr_cache r1)\<rparr>))"

record proxy_options =
  px_upstream :: string
  px_prefix :: string
  px_rewritePrefix :: string
  px_websocket :: bool

definition proxy_of :: "upstream_config \<Rightarrow> proxy_options" where
  "proxy_of upstream =
     \<lparr>px_upstream = uc_url upstream, px_prefix = uc_prefix upstream,
      px_rewritePrefix = or_else (uc_rewritePrefix upstream) (uc_prefix upstream),
      px_websocket = or_else (uc_websocket upstream) False\<rparr>"

definition upstream_proxies :: "gateway_config \<Rightarrow> proxy_options list" where
  "upstream_proxies config = map (proxy_of \<circ> snd) (gc_upstreams config)"

section \<open>WebSocket upgrades\<close>

datatype upgrade_action =
    UA_hosts
  | UA_clients
  | UA_delegate nat
      \<comment> \<open>to each of so many captured listeners\<close>
  | UA_throws
      \<comment> \<open>the request's target is no URL: the listener throws\<close>

definition GATEWAY_WS_PATHS :: "string list" where
  "GATEWAY_WS_PATHS = [''/hosts/connect'', ''/clients/connect'']"

definition on_upgrade :: "(string \<Rightarrow> string option) \<Rightarrow> nat \<Rightarrow> string option \<Rightarrow> upgrade_action" where
  "on_upgrade url_pathname existingListeners url =
     (case url_pathname (or_else url ''/'') of
        None \<Rightarrow> UA_throws
      | Some pathname \<Rightarrow>
          if pathname \<in> set GATEWAY_WS_PATHS
          then (if pathname = ''/hosts/connect'' then UA_hosts else UA_clients)
          else UA_delegate existingListeners)"

section \<open>Merged API document\<close>

text \<open>
  \<open>cached\<close> is what the cache holds, \<open>None\<close> also when there is no cache or reading it throws; \<open>results\<close> are
  the upstream specifications that arrived. The second component is what is written to the cache.
\<close>

definition openapi_merged :: "(jval list \<Rightarrow> jval) \<Rightarrow> jval option \<Rightarrow> jval option list \<Rightarrow> jval \<times> jval option" where
  "openapi_merged mergeOpenAPISpecs cached results =
     (case cached of
        Some hit \<Rightarrow> if js_truthy hit then (hit, None)
          else (let merged = mergeOpenAPISpecs (List.map_filter id results) in (merged, Some merged))
      | None \<Rightarrow> (let merged = mergeOpenAPISpecs (List.map_filter id results) in (merged, Some merged)))"

section \<open>Lemmas\<close>

context icache
begin

lemma seed_token:
  "distinct (map fst ts) \<Longrightarrow> c_token C (seed_static_tokens C ts c) (tokenKey t) =
     (case map_of ts t of Some hn \<Rightarrow> Some hn | None \<Rightarrow> c_token C c (tokenKey t))"
  by (induction ts arbitrary: c)
    (auto simp: seed_static_tokens_def cache_simps map_of_eq_None_iff rev_image_eqI split: option.splits)

lemma seed_other: "key_family k \<noteq> 2 \<Longrightarrow> cget C (seed_static_tokens C ts c) k = cget C c k"
  by (induction ts arbitrary: c) (auto simp: seed_static_tokens_def cache_simps)

end

text \<open>A token that is not empty and has no white space.\<close>

definition plain_token :: "string \<Rightarrow> bool" where
  "plain_token t \<longleftrightarrow> t \<noteq> [] \<and> list_all (\<lambda>c. \<not> js_space c) t"

lemma bearer_plain:
  assumes "plain_token t"
  shows "extractBearerToken (Some (''Bearer '' @ t)) = Some t"
proof -
  obtain x xs where t: "t = x # xs" "\<not> js_space x" using assms by (cases t) (auto simp: plain_token_def)
  have "\<not> list_ex line_end t"
    using assms by (auto simp: plain_token_def list_ex_iff list_all_iff js_space_def line_end_def)
  moreover have "map ascii_lower ''Bearer'' = ''bearer''" "list_all js_space '' ''" by code_simp+
  ultimately show ?thesis
    using bearer_header [of _ _ "''Bearer''" "'' ''" x xs] t by simp
qed

section \<open>Properties\<close>

text \<open>
  C32: a static token of the configuration works once the process is up. Unless the token happens to
  verify as a JWT, it resolves to the host and namespace of its entry as a machine, the header
  \<open>Bearer <token>\<close> takes a host WebSocket to the hello of that host, and seeding leaves the hosts as
  \<open>restore\<close> left them. The secret is the environment's or else the built-in one.
\<close>

theorem bootstrap_static_tokens:
  fixes C :: "'c cache_ops" and St :: "'s store_ops option" and config :: gateway_config
    and env :: "string option" and now :: int and c :: 'c and s :: 's
  defines "up \<equiv> bootstrap C St config env now c s"
  assumes "icache C" "distinct (map fst (gc_staticTokens config))" "(t, h, n) \<in> set (gc_staticTokens config)"
    and "auth_verify J (snd (fst up)) ms t = None" "plain_token t"
  shows "auth_resolveToken C J (snd (fst up)) ms t (gr_cache (snd up)) =
      Some \<lparr>ac_type = Some ''machine'', ac_userId = Some h, ac_namespaceId = Some n, ac_tier = Some ''free'',
        ac_permissions = [''host:connect'']\<rparr> \<and>
    host_handshake C J (snd (fst up)) ms (Some (''Bearer '' @ t)) (gr_cache (snd up)) (Hello_message raw) =
      host_hello h n raw \<and>
    (\<forall>h' n'. getFromCache C h' n' (snd up) = getFromCache C h' n' (snd (restore C St now
       \<lparr>gr_cache = c, gr_store = s, gr_timers = [], gr_armed = [], gr_nextTimer = 0\<rparr>))) \<and>
    snd (fst up) = (case env of None \<Rightarrow> ''dev-insecure-secret-change-me'' | Some k \<Rightarrow> k)"
proof -
  let ?r = "snd (restore C St now \<lparr>gr_cache = c, gr_store = s, gr_timers = [], gr_armed = [], gr_nextTimer = 0\<rparr>)"
  have cache: "gr_cache (snd up) = seed_static_tokens C (gc_staticTokens config) (gr_cache ?r)"
    by (simp add: up_def bootstrap_def case_prod_unfold Let_def)
  have "c_token C (gr_cache (snd up)) (tokenKey t) = Some (h, n)"
    using assms(3,4) by (simp add: cache icache.seed_token [OF assms(2)])
  then have res: "auth_resolveToken C J (snd (fst up)) ms t (gr_cache (snd up)) =
      Some \<lparr>ac_type = Some ''machine'', ac_userId = Some h, ac_namespaceId = Some n, ac_tier = Some ''free'',
        ac_permissions = [''host:connect'']\<rparr>"
    using assms(5) by (simp add: auth_resolveToken_def)
  moreover have "host_handshake C J (snd (fst up)) ms (Some (''Bearer '' @ t)) (gr_cache (snd up)) (Hello_message raw) =
      host_hello h n raw"
    by (simp add: host_handshake_def bearer_plain [OF assms(6), simplified] res)
  moreover have "getFromCache C h' n' (snd up) = getFromCache C h' n' ?r" for h' n'
    by (simp add: getFromCache_def cache c_host_def icache.seed_other [OF assms(2)])
  moreover have "snd (fst up) = (case env of None \<Rightarrow> ''dev-insecure-secret-change-me'' | Some k \<Rightarrow> k)"
    by (simp add: up_def bootstrap_def case_prod_unfold Let_def jwt_secret_def dev_secret_def or_else_def)
  ultimately show ?thesis by blast
qed

lemma bootstrap_static_tokens_witness:
  "auth_resolveToken mem_cache plain_jose dev_secret 0 ''dev-token'' (gr_cache (snd (bootstrap mem_cache
      (None :: unit store_ops option) \<lparr>gc_port = 4000, gc_upstreams = [],
        gc_staticTokens = [(''dev-token'', ''host_dev'', ''default'')]\<rparr> None 0 [] ()))) =
    Some \<lparr>ac_type = Some ''machine'', ac_userId = Some ''host_dev'', ac_namespaceId = Some ''default'',
      ac_tier = Some ''free'', ac_permissions = [''host:connect'']\<rparr>"
proof -
  let ?config = "\<lparr>gc_port = 4000, gc_upstreams = [], gc_staticTokens = [(''dev-token'', ''host_dev'', ''default'')]\<rparr>"
  have secret: "snd (fst (bootstrap mem_cache (None :: unit store_ops option) ?config None 0 [] ())) = dev_secret"
    by (simp add: bootstrap_def case_prod_unfold Let_def jwt_secret_def)
  have "auth_verify plain_jose dev_secret 0 ''dev-token'' = None" "plain_token ''dev-token''" by code_simp+
  then show ?thesis
    using bootstrap_static_tokens [OF mem.icache_axioms, where config = ?config and t = "''dev-token''" and
        h = "''host_dev''" and n = "''default''" and J = plain_jose and ms = 0 and env = None and now = 0 and c = "[]"
        and s = "()" and St = None]
    by (simp add: secret)
qed

end
