(* ===== verification/End_To_End.thy ===== *)
theory End_To_End
  imports Host_Ws
begin

text \<open>
  One execution through all the parts it touches: the execute route, the dispatcher, the WebSocket
  messages of the hosts, the retry executor, the event stream, the observers and the execution registry.
\<close>

text \<open>Messages of any hosts, each with the session it arrives on and the time.\<close>

definition run_messages ::
  "'c cache_ops \<Rightarrow> (host_session \<times> int \<times> jval option) list \<Rightarrow> ('c, 's) host_world \<Rightarrow> ('c, 's) host_world" where
  "run_messages C ms w = fold (\<lambda>(sess, now, raw) w. snd (snd (host_message C sess now raw w))) ms w"

definition inbounds :: "(host_session \<times> int \<times> jval option) list \<Rightarrow> inbound_msg list" where
  "inbounds ms = List.map_filter (\<lambda>(sess, now, raw). Option.bind raw (\<lambda>msg.
     (case js_member msg ''type'' of
        JStr ty \<Rightarrow> if ty = ''chunk'' \<or> ty = ''result'' \<or> ty = ''error'' then Some (inbound_of ty msg) else None
      | _ \<Rightarrow> None))) ms"

text \<open>What the abort race sees of the dispatch when no abort comes first.\<close>

definition race_of :: "promise option \<Rightarrow> jval race" where
  "race_of p =
     (case p of
        Some (P_resolved v) \<Rightarrow> Race_value v
      | Some (P_rejected e) \<Rightarrow> Race_throws (Th_error e)
      | _ \<Rightarrow> Race_never)"

lemma inbounds_append [simp]: "inbounds (ms @ ns) = inbounds ms @ inbounds ns"
  by (simp add: inbounds_def List.map_filter_def)

lemma run_messages_state:
  "world_disp (run_messages C ms w) = fold handleInbound (inbounds ms) (world_disp w)"
  "world_exec (run_messages C ms w) = world_exec w"
  "gs_subs (hw_gateway (run_messages C ms w)) = gs_subs (hw_gateway w)"
proof -
  have one: "world_disp (snd (snd (host_message C sess now raw w))) = fold handleInbound (inbounds [(sess, now, raw)]) (world_disp w)"
    "world_exec (snd (snd (host_message C sess now raw w))) = world_exec w"
    "gs_subs (hw_gateway (snd (snd (host_message C sess now raw w)))) = gs_subs (hw_gateway w)"
    for sess now raw and w :: "('a, 'b) host_world"
    by (auto simp: host_message_def inbounds_def List.map_filter_def upd_disp_def world_disp_def world_exec_def
        split: option.splits jval.splits)
  have cons: "inbounds (m # ms) = inbounds [m] @ inbounds ms" for m ms
    using inbounds_append [of "[m]" ms] by simp
  have "world_disp (run_messages C ms w) = fold handleInbound (inbounds ms) (world_disp w) \<and>
      world_exec (run_messages C ms w) = world_exec w \<and>
      gs_subs (hw_gateway (run_messages C ms w)) = gs_subs (hw_gateway w)"
  proof (induction ms arbitrary: w)
    case Nil
    show ?case by (simp add: run_messages_def inbounds_def List.map_filter_def)
  next
    case (Cons m ms)
    obtain sess now raw where m: "m = (sess, now, raw)" by (cases m) auto
    have "run_messages C (m # ms) w = run_messages C ms (snd (snd (host_message C sess now raw w)))"
      by (simp add: run_messages_def m)
    then show ?case
      using Cons.IH [of "snd (snd (host_message C sess now raw w))"] one [of sess now raw w]
      by (simp add: cons [of m ms] m [symmetric])
  qed
  then show "world_disp (run_messages C ms w) = fold handleInbound (inbounds ms) (world_disp w)"
    "world_exec (run_messages C ms w) = world_exec w"
    "gs_subs (hw_gateway (run_messages C ms w)) = gs_subs (hw_gateway w)" by blast+
qed

text \<open>A call that was opened and then answered settles with the data of its own chunks.\<close>

lemma answered_call:
  assumes "socket_of d ns h \<noteq> None" "r \<noteq> []" "\<forall>m \<in> set ms. answers r m \<longrightarrow> \<not> terminal m"
    and "answers r res" "im_type res = ''result''"
  shows "jm_get (d_promises (handleInbound res (fold handleInbound ms
      (snd (dispatcher_call ns h a m args r tr None d))))) r = Some (P_resolved (collect_chunks (chunk_data r ms)))"
proof -
  note opened = call_opens [OF assms(1), of a m args r tr]
  from inbound_stream [OF assms(2) opened(1) assms(3)] opened(2) assms(2,4,5) show ?thesis
    by (simp add: handleInbound_def answers_def settle_promise Let_def)
qed

lemma one_attempt:
  "en_check env 1 = None \<Longrightarrow> en_race env 1 = Race_value v \<Longrightarrow>
     executeWithRetry config env rid eid = (R_value v, [Eff_dispatch 1])"
  using maxAttempts_pos [of "merge_config config"] by (simp add: executeWithRetry_def retry_loop.simps)

text \<open>What starting an execution leaves for the dispatch.\<close>

lemma started:
  assumes "disp_reachable ok (gs_disp g)" "exec_ok (gs_exec g)"
    and "fst (execute_start (Some ctx) body eid rid now g) = XR_streaming signal hid"
  obtains ns sk where "ac_namespaceId ctx = Some ns" "socket_of (gs_disp g) ns hid = Some sk"
    "hid \<in> set (capable (gs_disp g) ns ''execution'')"
    "gs_disp (snd (execute_start (Some ctx) body eid rid now g)) = gs_disp g"
    "gs_subs (snd (execute_start (Some ctx) body eid rid now g)) = gs_subs g"
    "abort_reason (gs_exec (snd (execute_start (Some ctx) body eid rid now g))) signal = None"
    "exec_get eid (gs_exec (snd (execute_start (Some ctx) body eid rid now g))) \<noteq> None"
proof -
  from assms(3) obtain req ns where req: "parse_execute_request body = Some req" "ac_namespaceId ctx = Some ns"
    and first: "firstHostWithCapability ns ''execution'' (gs_disp g) = Some hid" "hid \<noteq> []"
    by (auto simp: execute_start_def bind_eq_Some_conv case_prod_unfold Let_def split: option.splits if_splits)
  have "hid \<in> set (capable (gs_disp g) ns ''execution'') \<and> socket_of (gs_disp g) ns hid \<noteq> None"
    using first disp_reachable_ok [OF assms(1)]
    by (auto simp: firstHostWithCapability_find index_ok_def find_Some_iff in_set_conv_nth)
  then obtain sk where "socket_of (gs_disp g) ns hid = Some sk" "hid \<in> set (capable (gs_disp g) ns ''execution'')"
    by auto
  moreover have "signal = xr_next (gs_exec g)"
    using assms(3) req first by (simp add: execute_start_def exec_register_def Let_def)
  ultimately show ?thesis
    using req first exec_ok_unaborted [OF assms(2)]
    by (intro that [of ns sk])
      (simp_all add: execute_start_def case_prod_unfold Let_def register_reason [OF assms(2)] exec_get_def register_get)
qed

section \<open>Properties\<close>

text \<open>
  C1: an execution from end to end. When a client starts an execution and the route finds a host, the
  host's socket gets exactly the call with the request as its payload; whatever other messages the hosts
  send in between, once the result for that call arrives the stream is the single done event with exit
  code 0 and the data of that call's own chunks, every open observer is sent that same event, and the
  execution, registered until then, is gone.
\<close>

theorem execute_end_to_end:
  fixes C :: "'c cache_ops" and w :: "('c, 's) host_world" and ms :: "(host_session \<times> int \<times> jval option) list"
    and res :: "host_session \<times> int \<times> jval option" and callId eid rid hid :: string and tr :: trace_context
    and ctx :: auth_context and body :: jval and now dur :: int and signal :: nat and req :: execute_request
  defines "start \<equiv> execute_start (Some ctx) body eid rid now (hw_gateway w)"
  defines "w2 \<equiv> upd_disp (\<lambda>d. snd (execute_dispatch (the (ac_namespaceId ctx)) hid req eid rid callId tr None d))
      (w\<lparr>hw_gateway := snd start\<rparr>)"
  defines "w3 \<equiv> run_messages C (ms @ [res]) w2"
  defines "run \<equiv> executeWithRetry None \<lparr>en_check = \<lambda>_. abort_reason (world_exec w2) signal,
      en_race = \<lambda>_. race_of (jm_get (d_promises (world_disp w3)) callId), en_delay = \<lambda>_. None\<rparr> rid eid"
  defines "done_event \<equiv> E_done rid eid 0 dur (Some (collect_chunks (chunk_data callId (inbounds ms))))"
  assumes "disp_reachable ok (world_disp w)" "exec_ok (world_exec w)"
    and "fst start = XR_streaming signal hid" "parse_execute_request body = Some req" "callId \<noteq> []"
    and "\<forall>m\<in>set (inbounds ms). answers callId m \<longrightarrow> \<not> terminal m"
    and "inbounds [res] = [r]" "answers callId r" "im_type r = ''result''"
  shows "(\<exists>ns sk. ac_namespaceId ctx = Some ns \<and> socket_of (world_disp w) ns hid = Some sk \<and>
       hid \<in> set (capable (world_disp w) ns ''execution'') \<and>
       d_sent (world_disp w2) = d_sent (world_disp w) @
         [(sk, O_call callId ''execution'' ''execute'' [execute_payload req eid rid] tr)]) \<and>
    execution_stream rid eid dur run = [done_event] \<and>
    snd (fst (execute_finish is_open rid eid dur (fst run) (hw_gateway w3))) =
      broadcast is_open eid done_event (gs_subs (hw_gateway w)) \<and>
    exec_get eid (world_exec w3) \<noteq> None \<and>
    exec_get eid (gs_exec (snd (execute_finish is_open rid eid dur (fst run) (hw_gateway w3)))) = None"
proof -
  obtain ns sk where s: "ac_namespaceId ctx = Some ns" "socket_of (world_disp w) ns hid = Some sk"
    "hid \<in> set (capable (world_disp w) ns ''execution'')" "gs_disp (snd start) = world_disp w"
    "gs_subs (snd start) = gs_subs (hw_gateway w)" "abort_reason (gs_exec (snd start)) signal = None"
    "exec_get eid (gs_exec (snd start)) \<noteq> None"
    using assms(6-8) unfolding start_def world_disp_def world_exec_def by (rule started)
  let ?call = "dispatcher_call ns hid ''execution'' ''execute'' [execute_payload req eid rid] callId tr None (world_disp w)"
  have w2: "world_disp w2 = snd ?call" "world_exec w2 = gs_exec (snd start)"
    "gs_subs (hw_gateway w2) = gs_subs (hw_gateway w)"
    using s(1,4,5) by (simp_all add: w2_def upd_disp_def world_disp_def world_exec_def execute_dispatch_def)
  have w3: "world_disp w3 = handleInbound r (fold handleInbound (inbounds ms) (snd ?call))"
    "world_exec w3 = gs_exec (snd start)" "gs_subs (hw_gateway w3) = gs_subs (hw_gateway w)"
    using assms(12) by (simp_all add: w3_def run_messages_state w2)
  have "jm_get (d_promises (world_disp w3)) callId =
      Some (P_resolved (collect_chunks (chunk_data callId (inbounds ms))))"
    unfolding w3(1) using s(2) assms(10,11,13,14) by (intro answered_call) simp_all
  then have run: "run = (R_value (collect_chunks (chunk_data callId (inbounds ms))), [Eff_dispatch 1])"
    unfolding run_def using s(6) by (intro one_attempt) (simp_all add: w2 race_of_def)
  have "d_sent (world_disp w2) = d_sent (world_disp w) @
      [(sk, O_call callId ''execution'' ''execute'' [execute_payload req eid rid] tr)]"
    using s(2) by (simp add: w2 dispatcher_call_def Let_def)
  moreover have "execution_stream rid eid dur run = [done_event]"
    by (simp add: run execution_stream_def written_def final_events_def done_event_def List.map_filter_def)
  moreover have "snd (fst (execute_finish is_open rid eid dur (fst run) (hw_gateway w3))) =
      broadcast is_open eid done_event (gs_subs (hw_gateway w))"
    by (simp add: execute_finish_def run final_events_def write_all_def writeEvent_def done_event_def w3)
  moreover have "exec_get eid (gs_exec (snd (execute_finish is_open rid eid dur (fst run) (hw_gateway w3)))) = None"
    by (simp add: execute_finish_def run exec_get_def exec_remove_def)
  ultimately show ?thesis
    using s by (simp add: w3(2))
qed

definition connected_world :: "((string, cval) jsmap, sqlite_store) host_world" where
  "connected_world = sample_world\<lparr>hw_gateway := sample_gateway\<rparr>"

definition sample_execute :: execute_request where
  "sample_execute = \<lparr>er_pluginId = ''p'', er_handlerRef = ''f'', er_exportName = None, er_input = JUndef, er_timeoutMs = None\<rparr>"

definition wire :: "string \<Rightarrow> string \<Rightarrow> int \<Rightarrow> host_session \<times> int \<times> jval option" where
  "wire ty r v = (sample_session ''c'' 7, 0, Some (JObj [(''type'', JStr ty), (''requestId'', JStr r), (''data'', JNum v)]))"

text \<open>The host answers 42 while another call's chunk and a heartbeat pass by.\<close>

lemma execute_end_to_end_witness:
  "let start = execute_start (Some sample_auth) sample_body ''e'' ''r'' 0 (hw_gateway connected_world);
       w2 = upd_disp (\<lambda>d. snd (execute_dispatch ''n'' ''h'' sample_execute ''e'' ''r'' ''call''
              \<lparr>tc_traceId = ''t'', tc_spanId = ''s'', tc_parentId = None\<rparr> None d))
              (connected_world\<lparr>hw_gateway := snd start\<rparr>);
       w3 = run_messages mem_cache ([wire ''heartbeat'' ''x'' 0, wire ''chunk'' ''other'' 1, wire ''chunk'' ''call'' 42] @
              [wire ''result'' ''call'' 0]) w2
   in execution_stream ''r'' ''e'' 5 (executeWithRetry None \<lparr>en_check = \<lambda>_. abort_reason (world_exec w2) 0,
        en_race = \<lambda>_. race_of (jm_get (d_promises (world_disp w3)) ''call''), en_delay = \<lambda>_. None\<rparr> ''r'' ''e'') =
      [E_done ''r'' ''e'' 0 5 (Some (JNum 42))]"
proof -
  let ?ms = "[wire ''heartbeat'' ''x'' 0, wire ''chunk'' ''other'' 1, wire ''chunk'' ''call'' 42]"
  let ?res = "wire ''result'' ''call'' 0"
  have w: "world_disp connected_world = gs_disp sample_gateway" "world_exec connected_world = gs_exec sample_gateway"
    "hw_gateway connected_world = sample_gateway"
    by (simp_all add: connected_world_def world_disp_def world_exec_def)
  have start: "fst (execute_start (Some sample_auth) sample_body ''e'' ''r'' 0 sample_gateway) = XR_streaming 0 ''h''"
    by code_simp
  have req: "parse_execute_request sample_body = Some sample_execute" by code_simp
  have ns: "the (ac_namespaceId sample_auth) = ''n''" by (simp add: sample_auth_def)
  have ms: "inbounds ?ms = [\<lparr>im_type = ''chunk'', im_requestId = Some ''other'', im_data = JNum 1, im_error = JUndef\<rparr>,
      \<lparr>im_type = ''chunk'', im_requestId = Some ''call'', im_data = JNum 42, im_error = JUndef\<rparr>]"
    by (simp add: inbounds_def wire_def inbound_of_def as_string_def List.map_filter_def)
  have res: "inbounds [?res] = [\<lparr>im_type = ''result'', im_requestId = Some ''call'', im_data = JNum 0, im_error = JUndef\<rparr>]"
    by (simp add: inbounds_def wire_def inbound_of_def as_string_def List.map_filter_def)
  have data: "collect_chunks (chunk_data ''call'' (inbounds ?ms)) = JNum 42"
    by (simp add: ms chunk_data_def answers_def collect_chunks_def)
  have "\<forall>m\<in>set (inbounds ?ms). answers ''call'' m \<longrightarrow> \<not> terminal m"
    by (simp add: ms answers_def terminal_def)
  from execute_end_to_end [where w = connected_world and ctx = sample_auth and body = sample_body and eid = "''e''"
      and rid = "''r''" and now = 0 and hid = "''h''" and signal = 0 and req = sample_execute and callId = "''call''"
      and tr = "\<lparr>tc_traceId = ''t'', tc_spanId = ''s'', tc_parentId = None\<rparr>" and ms = ?ms and res = ?res and
      C = mem_cache and dur = 5, unfolded w ns data, OF sample_reachable sample_exec_ok start req _ this res]
  show ?thesis by (simp add: w answers_def Let_def)
qed

end
