(* ===== verification/Service_Endpoints.thy ===== *)
theory Service_Endpoints
  imports Platform_Routes Observability Server_Routes Runtime_Server
begin

text \<open>
  The remaining surfaces of the two services: the metrics and observability routes of server.ts over the
  health snapshot and the collector, the adapters the platform API resolves (platform/routes.ts), and how
  the runtime server is started (packages/gateway-runtime-server: cli.ts, the constructor and the stand-in
  platform of runtime-server.ts).
\<close>

section \<open>Metrics and observability (server.ts, collector.ts)\<close>

text \<open>
  The latencies of the snapshot are left out of \<open>health_snapshot\<close>; what it holds of them are parameters
  here. \<open>operations\<close> is what the operation tracker of shared-http gives.
\<close>

definition route_metrics ::
  "usage_reading \<Rightarrow> health_snapshot \<Rightarrow> string list \<Rightarrow> collector \<Rightarrow> (string \<times> string list) \<times> collector" where
  "route_metrics u health operationLines co =
     (let (body, co') = renderPrometheusMetrics u (sn_status health) operationLines co
      in ((''text/plain; version=0.0.4; charset=utf-8'', body), co'))"

definition adapter_checks_of :: "(string \<Rightarrow> int option) \<Rightarrow> health_snapshot \<Rightarrow> (string \<times> bool \<times> int option) list" where
  "adapter_checks_of latency health = map (\<lambda>(i, available). (i, available, latency i)) (sn_adapters health)"

definition upstream_checks_of :: "(string \<Rightarrow> int option) \<Rightarrow> health_snapshot \<Rightarrow> (string \<times> string \<times> int option) list" where
  "upstream_checks_of latency health = map (\<lambda>(i, status). (i, status, latency i)) (sn_upstreams health)"

definition route_observability_health ::
  "(string \<Rightarrow> int option) \<Rightarrow> (string \<Rightarrow> int option) \<Rightarrow> health_snapshot \<Rightarrow> top_operation list \<Rightarrow> int \<Rightarrow> collector \<Rightarrow>
     service_health" where
  "route_observability_health adapterMs upstreamMs health operations now co =
     buildHealth (sn_status health) (adapter_checks_of adapterMs health) (upstream_checks_of upstreamMs health)
       operations now co"

text \<open>
  \<open>buildDescribe\<close>: the arguments of \<open>createServiceObservabilityDescribe\<close>. The schema, the version of the
  contract and the canonical metrics come from core-contracts.
\<close>

record observability_contract =
  oc_schema :: string
  oc_contractVersion :: string
  oc_metrics :: "string list"

record service_describe =
  ds_contract :: observability_contract
  ds_serviceId :: string
  ds_instanceId :: string
  ds_serviceType :: string
  ds_version :: string
  ds_environment :: string
  ds_startedAt :: int
  ds_dependencies :: "(string \<times> bool \<times> string) list"
  ds_metricsEndpoint :: string
  ds_healthEndpoint :: string
  ds_logsSource :: string
  ds_capabilities :: "string list"
  ds_metricFamilies :: "string list"

definition dependency_of :: "string \<Rightarrow> string \<times> bool \<times> string" where
  "dependency_of serviceId = (serviceId, False, ''Gateway upstream'')"

definition buildDescribe :: "observability_contract \<Rightarrow> string option \<Rightarrow> collector \<Rightarrow> service_describe" where
  "buildDescribe contract NODE_ENV co =
     \<lparr>ds_contract = contract, ds_serviceId = ''gateway'', ds_instanceId = co_instanceId co, ds_serviceType = ''gateway'',
      ds_version = ''1.0.0'', ds_environment = or_else NODE_ENV ''development'', ds_startedAt = co_startedAt co,
      ds_dependencies = map dependency_of (co_dependencies co), ds_metricsEndpoint = ''/metrics'',
      ds_healthEndpoint = ''/observability/health'', ds_logsSource = ''gateway'',
      ds_capabilities = [''httpMetrics'', ''eventLoopMetrics'', ''operationMetrics'', ''logCorrelation''],
      ds_metricFamilies = oc_metrics contract\<rparr>"

section \<open>Adapters of the platform API (platform/routes.ts)\<close>

text \<open>
  \<open>resolveAdapter\<close>: the property of the platform a name stands for; a name every object has a member of
  gives that member, which is called, and any other name nothing.
\<close>

datatype adapter_lookup = AL_property string | AL_inherited | AL_none

definition adapterMap :: "string list" where
  "adapterMap = [''llm'', ''cache'', ''analytics'', ''vectorStore'', ''embeddings'', ''storage'', ''eventBus'',
     ''sqlDatabase'', ''documentDatabase'']"

definition resolveAdapter :: "string \<Rightarrow> adapter_lookup" where
  "resolveAdapter name =
     (if name \<in> set adapterMap then AL_property name
      else if name \<in> set PROTOTYPE_MEMBERS then AL_inherited else AL_none)"

text \<open>The two tables of the module agree: what the allowlist knows is what can be resolved.\<close>

lemma allowlist_resolves:
  "resolveAdapter name = (case allowed_methods name of
     Allowed _ \<Rightarrow> AL_property name | Inherited \<Rightarrow> AL_inherited | Absent \<Rightarrow> AL_none)"
proof -
  have "fst ` set ALLOWED_METHODS = set adapterMap" by (auto simp: ALLOWED_METHODS_def adapterMap_def)
  then have "map_of ALLOWED_METHODS name = None \<longleftrightarrow> name \<notin> set adapterMap" by (simp add: map_of_eq_None_iff)
  then show ?thesis by (auto simp: resolveAdapter_def allowed_methods_def split: option.split)
qed

section \<open>Starting the runtime server\<close>

text \<open>The options of the client the constructor makes; \<open>getAccessToken\<close> is the token it returns.\<close>

record runtime_options =
  ro_gatewayUrl :: string
  ro_agentVersion :: string
  ro_accessToken :: string
  ro_capabilities :: "string list"

definition new_runtime_client :: "string \<Rightarrow> string \<Rightarrow> string option \<Rightarrow> runtime_options" where
  "new_runtime_client gatewayUrl accessToken agentVersion =
     \<lparr>ro_gatewayUrl = gatewayUrl, ro_agentVersion = or_else agentVersion ''0.1.0'', ro_accessToken = accessToken,
      ro_capabilities = [''execution'']\<rparr>"

text \<open>cli.ts: a message on stderr and exit code 1, or the client that is started.\<close>

definition runtime_cli :: "string option \<Rightarrow> string option \<Rightarrow> string option \<Rightarrow> string + runtime_options" where
  "runtime_cli GATEWAY_WS_URL RUNTIME_HOST_ID GATEWAY_TOKEN =
     (if \<not> truthy GATEWAY_WS_URL then Inl ''[runtime-server] FATAL: GATEWAY_WS_URL is required''
      else if \<not> truthy RUNTIME_HOST_ID then Inl ''[runtime-server] FATAL: RUNTIME_HOST_ID is required''
      else if \<not> truthy GATEWAY_TOKEN then Inl ''[runtime-server] FATAL: GATEWAY_TOKEN is required''
      else Inr (new_runtime_client (the GATEWAY_WS_URL) (the GATEWAY_TOKEN) (Some ''0.1.0'')))"

text \<open>The host id the environment must name goes nowhere: the host is whoever the token belongs to.\<close>

lemma runtime_cli_ignores_host:
  assumes "truthy h" "truthy h'"
  shows "runtime_cli url h token = runtime_cli url h' token"
  using assms by (simp add: runtime_cli_def)

text \<open>
  \<open>createNoopPlatform\<close>, what a handler gets of it: a cache that forgets and a shell that always throws.
  The runtime server uses it when it was given no platform.
\<close>

definition noop_cache :: "unit cache_ops" where
  "noop_cache = \<lparr>cget = \<lambda>_ _. None, cset = \<lambda>c _ _ _. c, cdelete = \<lambda>c _. c\<rparr>"

definition noop_shell_exec :: "string \<Rightarrow> string + jval" where
  "noop_shell_exec command = Inl ''shell.exec not available in runtime-server noop platform''"

datatype 'p handler_platform = HP_given 'p | HP_noop

definition platform_of :: "'p option \<Rightarrow> 'p handler_platform" where
  "platform_of opts_platform = (case opts_platform of None \<Rightarrow> HP_noop | Some p \<Rightarrow> HP_given p)"

text \<open>It is no \<open>ICache\<close>: nothing that is written can be read back.\<close>

lemma noop_cache_forgets: "cget noop_cache (cset noop_cache c k v ttl) k = None"
  by (simp add: noop_cache_def)

lemma noop_no_icache: "\<not> icache noop_cache"
  using icache.get_set [of noop_cache "()" k v None k for k v] by (auto simp: noop_cache_def)

section \<open>The health surfaces\<close>

text \<open>
  The health surfaces agree. From one probe of the platform and the upstreams, \<open>/observability/health\<close>
  lists every adapter and every upstream once, ok exactly when it was there; its state is active exactly when
  every adapter was, and insufficient exactly without the language model, whatever the upstreams are;
  \<open>/ready\<close> answers 200 exactly when the rest upstream was up; \<open>/metrics\<close> reports the same status, and every
  later probe within the life of the snapshot answers from it.
\<close>

theorem health_surfaces_agree:
  fixes available :: "string \<Rightarrow> bool" and upstreams :: "(string \<times> bool) list" and startup now :: int and
    adapterMs upstreamMs :: "string \<Rightarrow> int option" and operations :: "top_operation list" and co :: collector
  defines "health \<equiv> fst (collectHealthSnapshot available upstreams startup now None)"
  defines "report \<equiv> route_observability_health adapterMs upstreamMs health operations now co"
  shows "map (\<lambda>c. (hc_id c, hc_ok c)) (sh_checks report) =
      map (\<lambda>i. (''adapter:'' @ i, available i)) adapterNames @ map (\<lambda>(i, up). (''upstream:'' @ i, up)) upstreams \<and>
    (sh_state report = ''active'' \<longleftrightarrow> list_all available adapterNames) \<and>
    (sh_state report = ''insufficient_data'' \<longleftrightarrow> \<not> available ''llm'') \<and>
    (rd_code (route_ready health) = 200 \<longleftrightarrow> map_of upstreams ''rest'' = Some True) \<and>
    metricLine ''service_health_status'' (if list_all available adapterNames then ''2''
        else if available ''llm'' then ''1'' else ''0'') [] \<in> set (snd (fst (route_metrics u health lines co))) \<and>
    collectHealthSnapshot available' upstreams' startup later
      (snd (collectHealthSnapshot available upstreams startup now None)) = (health, Some health)"
proof -
  have status: "sn_status health = (if available ''llm'' then if list_all available adapterNames then ''healthy''
      else ''degraded'' else ''unhealthy'')"
    by (simp add: health_def collectHealthSnapshot_def health_status_def adapterNames_def Let_def)
  have ups: "sn_upstreams health = map (\<lambda>(name, ok). (name, if ok then ''up'' else ''down'')) upstreams"
    by (simp add: health_def collectHealthSnapshot_def Let_def)
  have ads: "sn_adapters health = map (\<lambda>name. (name, available name)) adapterNames"
    by (simp add: health_def collectHealthSnapshot_def Let_def)
  have llm: "list_all available adapterNames \<Longrightarrow> available ''llm''" by (simp add: adapterNames_def)
  have get: "map_of (sn_upstreams health) i = map_option (\<lambda>ok. if ok then ''up'' else ''down'') (map_of upstreams i)" for i
    by (simp add: ups map_of_map)
  have ready: "upstream_status health ''rest'' = ''up'' \<longleftrightarrow> map_of upstreams ''rest'' = Some True"
    by (cases "map_of upstreams ''rest''") (auto simp: upstream_status_def get)
  have checks: "map (\<lambda>c. (hc_id c, hc_ok c)) (sh_checks report) =
      map (\<lambda>i. (''adapter:'' @ i, available i)) adapterNames @ map (\<lambda>(i, up). (''upstream:'' @ i, up)) upstreams"
    by (simp add: report_def route_observability_health_def buildHealth_def adapter_checks_of_def upstream_checks_of_def
        ads ups adapter_check_def upstream_check_def case_prod_unfold)
  have state: "sh_state report = ''active'' \<longleftrightarrow> list_all available adapterNames"
    "sh_state report = ''insufficient_data'' \<longleftrightarrow> \<not> available ''llm''"
    using llm by (simp_all add: report_def route_observability_health_def buildHealth_def status)
  have code: "rd_code (route_ready health) = 200 \<longleftrightarrow> map_of upstreams ''rest'' = Some True"
    by (simp add: route_ready_def Let_def ready [symmetric])
  have digits: "nat_string 2 = ''2''" "nat_string 1 = ''1''" "nat_string 0 = ''0''" by code_simp+
  have level: "nat_string (if sn_status health = ''healthy'' then 2 else if sn_status health = ''degraded'' then 1 else 0) =
      (if list_all available adapterNames then ''2'' else if available ''llm'' then ''1'' else ''0'')"
    using llm digits by (simp add: status del: nat_string.simps)
  have metric: "metricLine ''service_health_status'' (if list_all available adapterNames then ''2''
      else if available ''llm'' then ''1'' else ''0'') [] \<in> set (snd (fst (route_metrics u health lines co)))"
    unfolding level [symmetric]
    by (simp add: route_metrics_def renderPrometheusMetrics_def metric_header_def gauge_def Let_def
        del: nat_string.simps)
  have later: "collectHealthSnapshot available' upstreams' startup later
      (snd (collectHealthSnapshot available upstreams startup now None)) = (health, Some health)"
    by (simp add: health_def collectHealthSnapshot_def Let_def)
  show ?thesis by (intro conjI) (fact checks, fact state, fact state, fact code, fact metric, fact later)
qed

end
