(* ===== verification/Zod_Schemas.thy ===== *)
theory Zod_Schemas
  imports Client_Ws Message_Schemas LLM_Routes Platform_Routes Gateway_Bootstrap
begin

text \<open>
  The zod schemas of packages/gateway-contracts (protocol.ts, client-protocol.ts, host.ts, auth.ts,
  llm-gateway.ts, telemetry.ts, platform-api.ts, config.ts) as data, and \<open>safeParse\<close> over them. The parsers the modelled components use (Message_Schemas,
  Auth_Routes, Execute_Routes, Client_Ws) are shown to be these schemas. Numbers are integers, so
  \<open>.int()\<close> adds nothing; the test for UUIDs is a parameter. zod is the version the package names (3).
\<close>

section \<open>zod\<close>

datatype schema =
    Z_unknown
  | Z_string "string \<Rightarrow> bool"
  | Z_number "int \<Rightarrow> bool"
  | Z_boolean
  | Z_literal jval
  | Z_enum "string list"
  | Z_array schema
  | Z_sized "nat \<Rightarrow> bool" schema
  | Z_union schema schema
  | Z_record schema
  | Z_object "(string \<times> schema) list"
  | Z_optional schema
  | Z_default schema jval

abbreviation z_string :: schema where "z_string \<equiv> Z_string (\<lambda>_. True)"
abbreviation z_number :: schema where "z_number \<equiv> Z_number (\<lambda>_. True)"
abbreviation z_nonnegative :: schema where "z_nonnegative \<equiv> Z_number (\<lambda>n. 0 \<le> n)"
abbreviation z_positive :: schema where "z_positive \<equiv> Z_number (\<lambda>n. 0 < n)"
abbreviation z_literal :: "string \<Rightarrow> schema" where "z_literal s \<equiv> Z_literal (JStr s)"


text \<open>
  \<open>safeParse\<close>: the parsed value, or \<open>None\<close>. An object keeps the members its schema names, in its order;
  a member that parses to \<open>undefined\<close> is left out.
\<close>

fun zod :: "schema \<Rightarrow> jval \<Rightarrow> jval option"
and zod_members :: "(string \<times> schema) list \<Rightarrow> jval \<Rightarrow> (string \<times> jval) list option" where
  "zod Z_unknown v = Some v"
| "zod (Z_string ok) v = (case v of JStr s \<Rightarrow> if ok s then Some v else None | _ \<Rightarrow> None)"
| "zod (Z_number ok) v = (case v of JNum n \<Rightarrow> if ok n then Some v else None | _ \<Rightarrow> None)"
| "zod Z_boolean v = (case v of JBool b \<Rightarrow> Some v | _ \<Rightarrow> None)"
| "zod (Z_literal l) v = (if v = l then Some v else None)"
| "zod (Z_enum names) v = (case v of JStr s \<Rightarrow> if s \<in> set names then Some v else None | _ \<Rightarrow> None)"
| "zod (Z_array s) v = (case v of JArr vs \<Rightarrow> map_option JArr (parse_all (\<lambda>x. zod s x) vs) | _ \<Rightarrow> None)"
| "zod (Z_sized ok s) v =
     (case zod s v of Some (JArr vs) \<Rightarrow> if ok (length vs) then Some (JArr vs) else None | _ \<Rightarrow> None)"
| "zod (Z_union s t) v = (case zod s v of Some w \<Rightarrow> Some w | None \<Rightarrow> zod t v)"
| "zod (Z_record s) v =
     (case v of JObj fs \<Rightarrow> map_option JObj (parse_all (\<lambda>(k, x). map_option (Pair k) (zod s x)) fs) | _ \<Rightarrow> None)"
| "zod (Z_object shape) v = (case v of JObj fs \<Rightarrow> map_option JObj (zod_members shape v) | _ \<Rightarrow> None)"
| "zod (Z_optional s) v = (if v = JUndef then Some JUndef else zod s v)"
| "zod (Z_default s d) v = zod s (if v = JUndef then d else v)"
| "zod_members [] v = Some []"
| "zod_members ((k, s) # shape) v =
     (case zod s (js_member v k) of
        None \<Rightarrow> None
      | Some x \<Rightarrow>
          (case zod_members shape v of
             None \<Rightarrow> None
           | Some fs \<Rightarrow> Some (if x = JUndef then fs else (k, x) # fs)))"

section \<open>protocol.ts\<close>

definition TraceContextSchema :: schema where
  "TraceContextSchema = Z_object [(''traceId'', z_string), (''spanId'', z_string), (''parentId'', Z_optional z_string)]"

definition WorkspaceInfoSchema :: schema where
  "WorkspaceInfoSchema = Z_object [(''workspaceId'', z_string), (''repoFingerprint'', Z_optional z_string),
     (''branch'', Z_optional z_string)]"

definition PluginInfoSchema :: schema where
  "PluginInfoSchema = Z_object [(''id'', z_string), (''version'', z_string)]"

definition HelloMessageSchema :: schema where
  "HelloMessageSchema = Z_object [(''type'', z_literal ''hello''), (''protocolVersion'', z_string), (''agentVersion'', z_string),
     (''hostId'', Z_optional z_string), (''capabilities'', Z_optional (Z_array z_string)),
     (''hostType'', Z_optional (Z_enum [''local'', ''cloud''])),
     (''workspaces'', Z_optional (Z_array WorkspaceInfoSchema)), (''plugins'', Z_optional (Z_array PluginInfoSchema))]"

definition ConnectedMessageSchema :: schema where
  "ConnectedMessageSchema = Z_object [(''type'', z_literal ''connected''), (''protocolVersion'', z_string), (''hostId'', z_string),
     (''sessionId'', z_string)]"

definition NegotiateMessageSchema :: schema where
  "NegotiateMessageSchema = Z_object [(''type'', z_literal ''negotiate''), (''supportedVersions'', Z_array z_string)]"

definition CallMessageSchema :: schema where
  "CallMessageSchema = Z_object [(''type'', z_literal ''call''), (''requestId'', z_string), (''adapter'', z_string), (''method'', z_string),
     (''args'', Z_array Z_unknown), (''bulk'', Z_optional Z_boolean), (''trace'', TraceContextSchema)]"

definition BulkRedirectMessageSchema :: schema where
  "BulkRedirectMessageSchema = Z_object [(''type'', z_literal ''bulk-redirect''), (''requestId'', z_string), (''uploadUrl'', z_string),
     (''expiresAt'', z_number)]"

definition ChunkMessageSchema :: schema where
  "ChunkMessageSchema = Z_object [(''type'', z_literal ''chunk''), (''requestId'', z_string), (''data'', Z_unknown), (''index'', z_number)]"

definition ResultMessageSchema :: schema where
  "ResultMessageSchema = Z_object [(''type'', z_literal ''result''), (''requestId'', z_string), (''done'', Z_literal (JBool True)),
     (''trace'', Z_optional TraceContextSchema)]"

definition ErrorMessageSchema :: schema where
  "ErrorMessageSchema = Z_object [(''type'', z_literal ''error''), (''requestId'', z_string),
     (''error'', Z_object [(''code'', z_string), (''message'', z_string), (''retryable'', Z_boolean)])]"

definition HeartbeatMessageSchema :: schema where
  "HeartbeatMessageSchema = Z_object [(''type'', z_literal ''heartbeat'')]"

definition AckMessageSchema :: schema where
  "AckMessageSchema = Z_object [(''type'', z_literal ''ack'')]"

definition ExecutionOutputSchema :: schema where
  "ExecutionOutputSchema = Z_object [(''type'', z_literal ''execution:output''), (''requestId'', z_string), (''executionId'', z_string),
     (''stream'', Z_enum [''stdout'', ''stderr'']), (''data'', z_string), (''timestamp'', z_number)]"

definition ExecutionProgressSchema :: schema where
  "ExecutionProgressSchema = Z_object [(''type'', z_literal ''execution:progress''), (''requestId'', z_string), (''executionId'', z_string),
     (''step'', z_nonnegative), (''total'', z_positive), (''label'', z_string), (''timestamp'', z_number)]"

definition ExecutionArtifactSchema :: schema where
  "ExecutionArtifactSchema = Z_object [(''type'', z_literal ''execution:artifact''), (''requestId'', z_string), (''executionId'', z_string),
     (''name'', z_string), (''mime'', z_string), (''url'', z_string), (''sizeBytes'', Z_optional z_number)]"

definition ExecutionErrorEventSchema :: schema where
  "ExecutionErrorEventSchema = Z_object [(''type'', z_literal ''execution:error''), (''requestId'', z_string), (''executionId'', z_string),
     (''code'', z_string), (''message'', z_string), (''retryable'', Z_boolean), (''attempt'', Z_optional z_number),
     (''maxAttempts'', Z_optional z_number)]"

definition ExecutionDoneSchema :: schema where
  "ExecutionDoneSchema = Z_object [(''type'', z_literal ''execution:done''), (''requestId'', z_string), (''executionId'', z_string),
     (''exitCode'', z_number), (''durationMs'', z_nonnegative), (''metadata'', Z_optional (Z_record Z_unknown))]"

definition ExecutionRetrySchema :: schema where
  "ExecutionRetrySchema = Z_object [(''type'', z_literal ''execution:retry''), (''requestId'', z_string), (''executionId'', z_string),
     (''attempt'', z_positive), (''maxAttempts'', z_positive), (''delayMs'', z_nonnegative), (''error'', z_string)]"

definition ExecutionCancelledSchema :: schema where
  "ExecutionCancelledSchema = Z_object [(''type'', z_literal ''execution:cancelled''), (''requestId'', z_string), (''executionId'', z_string),
     (''reason'', Z_enum [''user'', ''timeout'', ''disconnect'', ''system'']), (''durationMs'', z_nonnegative)]"

definition CancelMessageSchema :: schema where
  "CancelMessageSchema = Z_object [(''type'', z_literal ''cancel''), (''requestId'', z_string),
     (''reason'', Z_optional (Z_enum [''user'', ''timeout'', ''disconnect'']))]"

definition SubscribeMessageSchema :: schema where
  "SubscribeMessageSchema = Z_object [(''type'', z_literal ''subscribe''), (''executionId'', z_string)]"

definition UnsubscribeMessageSchema :: schema where
  "UnsubscribeMessageSchema = Z_object [(''type'', z_literal ''unsubscribe''), (''executionId'', z_string)]"

definition SerializedErrorSchema :: schema where
  "SerializedErrorSchema = Z_object [(''code'', z_string), (''message'', z_string), (''retryable'', Z_boolean),
     (''details'', Z_optional Z_unknown)]"

definition AdapterCallContextSchema :: schema where
  "AdapterCallContextSchema = Z_object [(''namespaceId'', z_string), (''hostId'', z_string), (''workspaceId'', Z_optional z_string),
     (''environmentId'', Z_optional z_string), (''executionRequestId'', Z_optional z_string)]"

definition AdapterNameSchema :: schema where
  "AdapterNameSchema = Z_enum [''llm'', ''cache'', ''vectorStore'', ''embeddings'', ''storage'', ''state'']"

definition AdapterCallMessageSchema :: schema where
  "AdapterCallMessageSchema = Z_object [(''type'', z_literal ''adapter:call''), (''requestId'', z_string), (''adapter'', AdapterNameSchema),
     (''method'', z_string), (''args'', Z_array Z_unknown), (''timeout'', Z_optional z_positive),
     (''context'', AdapterCallContextSchema)]"

definition AdapterResponseMessageSchema :: schema where
  "AdapterResponseMessageSchema = Z_object [(''type'', z_literal ''adapter:response''), (''requestId'', z_string), (''result'', Z_unknown)]"

definition AdapterErrorMessageSchema :: schema where
  "AdapterErrorMessageSchema = Z_object [(''type'', z_literal ''adapter:error''), (''requestId'', z_string), (''error'', SerializedErrorSchema)]"

definition AdapterChunkMessageSchema :: schema where
  "AdapterChunkMessageSchema = Z_object [(''type'', z_literal ''adapter:chunk''), (''requestId'', z_string), (''data'', Z_unknown),
     (''index'', z_nonnegative)]"

definition AdapterCancelMessageSchema :: schema where
  "AdapterCancelMessageSchema = Z_object [(''type'', z_literal ''adapter:cancel''), (''requestId'', z_string)]"

definition ExecuteRequestSchema :: schema where
  "ExecuteRequestSchema = Z_object [(''pluginId'', z_string), (''handlerRef'', z_string), (''exportName'', Z_optional z_string),
     (''input'', Z_unknown), (''timeoutMs'', Z_optional z_positive)]"

text \<open>The unions, as the lists of their alternatives.\<close>

definition ExecutionEventMessage :: "schema list" where
  "ExecutionEventMessage = [ExecutionOutputSchema, ExecutionProgressSchema, ExecutionArtifactSchema,
     ExecutionErrorEventSchema, ExecutionDoneSchema, ExecutionRetrySchema, ExecutionCancelledSchema]"

definition InboundMessage :: "schema list" where
  "InboundMessage = [HelloMessageSchema, HeartbeatMessageSchema, ChunkMessageSchema, ResultMessageSchema,
     ErrorMessageSchema, CancelMessageSchema, SubscribeMessageSchema, UnsubscribeMessageSchema,
     AdapterCallMessageSchema, AdapterCancelMessageSchema]"

definition OutboundMessage :: "schema list" where
  "OutboundMessage = [ConnectedMessageSchema, NegotiateMessageSchema, CallMessageSchema, BulkRedirectMessageSchema,
     AckMessageSchema, ExecutionOutputSchema, ExecutionProgressSchema, ExecutionArtifactSchema,
     ExecutionErrorEventSchema, ExecutionDoneSchema, AdapterResponseMessageSchema, AdapterErrorMessageSchema,
     AdapterChunkMessageSchema]"

section \<open>client-protocol.ts\<close>

definition ClientHelloSchema :: schema where
  "ClientHelloSchema = Z_object [(''type'', z_literal ''client:hello''), (''clientVersion'', z_string)]"

definition ClientSubscribeSchema :: "(string \<Rightarrow> bool) \<Rightarrow> schema" where
  "ClientSubscribeSchema is_uuid = Z_object [(''type'', z_literal ''client:subscribe''), (''executionId'', Z_string is_uuid)]"

definition ClientUnsubscribeSchema :: "(string \<Rightarrow> bool) \<Rightarrow> schema" where
  "ClientUnsubscribeSchema is_uuid = Z_object [(''type'', z_literal ''client:unsubscribe''), (''executionId'', Z_string is_uuid)]"

definition ClientCancelSchema :: "(string \<Rightarrow> bool) \<Rightarrow> schema" where
  "ClientCancelSchema is_uuid = Z_object [(''type'', z_literal ''client:cancel''), (''executionId'', Z_string is_uuid),
     (''reason'', Z_optional (Z_enum [''user'', ''timeout'']))]"

definition ClientConnectedSchema :: schema where
  "ClientConnectedSchema = Z_object [(''type'', z_literal ''client:connected''), (''protocolVersion'', z_string), (''connectionId'', z_string)]"

definition ClientErrorSchema :: schema where
  "ClientErrorSchema = Z_object [(''type'', z_literal ''client:error''),
     (''code'', Z_enum [''EXECUTION_NOT_FOUND'', ''FORBIDDEN'', ''INVALID_MESSAGE'', ''CANCEL_FAILED'']),
     (''message'', z_string), (''executionId'', Z_optional z_string)]"

definition ClientInboundMessage :: "(string \<Rightarrow> bool) \<Rightarrow> schema list" where
  "ClientInboundMessage is_uuid =
     [ClientHelloSchema, ClientSubscribeSchema is_uuid, ClientUnsubscribeSchema is_uuid, ClientCancelSchema is_uuid]"

definition ClientOutboundMessage :: "schema list" where
  "ClientOutboundMessage = [ClientConnectedSchema, ClientErrorSchema] @ ExecutionEventMessage"

section \<open>host.ts\<close>

definition HostCapabilitySchema :: schema where
  "HostCapabilitySchema = Z_enum [''filesystem'', ''git'', ''editor-context'', ''execution'']"

definition HostTypeSchema :: schema where
  "HostTypeSchema = Z_enum [''local'', ''cloud'']"

definition HostRegistrationSchema :: schema where
  "HostRegistrationSchema = Z_object [(''name'', z_string), (''namespaceId'', z_string), (''capabilities'', Z_array HostCapabilitySchema),
     (''workspacePaths'', Z_array z_string), (''hostType'', Z_optional HostTypeSchema)]"

definition HostStatusSchema :: schema where
  "HostStatusSchema = Z_enum [''online'', ''offline'', ''degraded'', ''reconnecting'']"

definition HostDescriptorSchema :: schema where
  "HostDescriptorSchema = Z_object [(''hostId'', z_string), (''name'', z_string), (''namespaceId'', z_string),
     (''capabilities'', Z_array HostCapabilitySchema), (''status'', HostStatusSchema), (''lastSeen'', z_number),
     (''connections'', Z_array z_string), (''hostType'', Z_optional HostTypeSchema),
     (''workspaces'', Z_optional (Z_array WorkspaceInfoSchema)), (''plugins'', Z_optional (Z_array PluginInfoSchema)),
     (''createdAt'', Z_optional z_number), (''updatedAt'', Z_optional z_number)]"

definition HostRegisterResponseSchema :: schema where
  "HostRegisterResponseSchema = Z_object [(''hostId'', z_string), (''machineToken'', z_string), (''status'', HostStatusSchema)]"

section \<open>auth.ts\<close>

definition TokenTypeSchema :: schema where
  "TokenTypeSchema = Z_enum [''user'', ''cli'', ''machine'']"

definition AuthContextSchema :: schema where
  "AuthContextSchema = Z_object [(''type'', TokenTypeSchema), (''userId'', z_string), (''namespaceId'', z_string),
     (''tier'', Z_enum [''free'', ''pro'', ''enterprise'']), (''permissions'', Z_array z_string)]"

definition RegisterRequestSchema :: schema where
  "RegisterRequestSchema = Z_object [(''name'', Z_string (\<lambda>s. 1 \<le> length s \<and> length s \<le> 64)),
     (''namespaceId'', Z_string (\<lambda>s. 1 \<le> length s \<and> length s \<le> 64)),
     (''capabilities'', Z_default (Z_array z_string) (JArr [])), (''publicKey'', Z_optional z_string)]"

definition RegisterResponseSchema :: schema where
  "RegisterResponseSchema = Z_object [(''clientId'', z_string), (''clientSecret'', z_string), (''hostId'', z_string)]"

definition TokenRequestSchema :: schema where
  "TokenRequestSchema = Z_object [(''clientId'', z_string), (''clientSecret'', z_string)]"

definition TokenResponseSchema :: schema where
  "TokenResponseSchema = Z_object [(''accessToken'', z_string), (''refreshToken'', z_string), (''expiresIn'', z_number),
     (''tokenType'', z_literal ''Bearer'')]"

definition RefreshRequestSchema :: schema where
  "RefreshRequestSchema = Z_object [(''refreshToken'', z_string)]"

definition JwtPayloadSchema :: schema where
  "JwtPayloadSchema = Z_object [(''sub'', z_string), (''namespaceId'', z_string), (''tier'', Z_enum [''free'', ''pro'', ''enterprise'']),
     (''type'', TokenTypeSchema), (''iat'', z_number), (''exp'', z_number)]"

section \<open>llm-gateway.ts\<close>

definition LLMTierSchema :: schema where
  "LLMTierSchema = Z_enum [''small'', ''medium'', ''large'']"

definition ChatMessageSchema :: schema where
  "ChatMessageSchema = Z_object [(''role'', Z_enum [''system'', ''user'', ''assistant'', ''tool'']), (''content'', z_string),
     (''tool_call_id'', Z_optional z_string),
     (''tool_calls'', Z_optional (Z_array (Z_object [(''id'', z_string), (''type'', z_literal ''function''),
        (''function'', Z_object [(''name'', z_string), (''arguments'', z_string)])])))]"

definition ChatToolSchema :: schema where
  "ChatToolSchema = Z_object [(''type'', z_literal ''function''),
     (''function'', Z_object [(''name'', z_string), (''description'', Z_optional z_string),
        (''parameters'', Z_optional (Z_record Z_unknown))])]"

definition ChatCompletionRequestSchema :: schema where
  "ChatCompletionRequestSchema = Z_object [(''model'', LLMTierSchema),
     (''messages'', Z_sized (\<lambda>n. 1 \<le> n) (Z_array ChatMessageSchema)),
     (''temperature'', Z_optional (Z_number (\<lambda>n. 0 \<le> n \<and> n \<le> 2))), (''max_tokens'', Z_optional z_positive),
     (''stop'', Z_optional (Z_union z_string (Z_array z_string))),
     (''stream'', Z_default (Z_optional Z_boolean) (JBool False)), (''tools'', Z_optional (Z_array ChatToolSchema)),
     (''tool_choice'', Z_optional (Z_union (Z_enum [''auto'', ''required'', ''none''])
        (Z_object [(''type'', z_literal ''function''), (''function'', Z_object [(''name'', z_string)])])))]"

section \<open>telemetry.ts, platform-api.ts, config.ts\<close>

definition TelemetryEventSchema :: "(string \<Rightarrow> bool) \<Rightarrow> schema" where
  "TelemetryEventSchema is_datetime = Z_object [(''source'', Z_string (\<lambda>s. 1 \<le> length s \<and> length s \<le> 128)),
     (''type'', Z_string (\<lambda>s. 1 \<le> length s \<and> length s \<le> 256)), (''timestamp'', Z_optional (Z_string is_datetime)),
     (''payload'', Z_optional (Z_record Z_unknown)), (''tags'', Z_optional (Z_record z_string))]"

definition TelemetryIngestRequestSchema :: "(string \<Rightarrow> bool) \<Rightarrow> schema" where
  "TelemetryIngestRequestSchema is_datetime =
     Z_object [(''events'', Z_sized (\<lambda>n. 1 \<le> n \<and> n \<le> 500) (Z_array (TelemetryEventSchema is_datetime)))]"

definition PlatformCallRequestSchema :: schema where
  "PlatformCallRequestSchema = Z_object [(''args'', Z_default (Z_array Z_unknown) (JArr []))]"

definition UpstreamConfigSchema :: "(string \<Rightarrow> bool) \<Rightarrow> schema" where
  "UpstreamConfigSchema is_url = Z_object [(''url'', Z_string is_url), (''prefix'', Z_string (\<lambda>s. starts_with s ''/'')),
     (''rewritePrefix'', Z_optional z_string), (''websocket'', Z_optional Z_boolean),
     (''excludePaths'', Z_optional (Z_array z_string)), (''description'', Z_optional z_string)]"

definition StaticTokenEntrySchema :: schema where
  "StaticTokenEntrySchema = Z_object [(''hostId'', z_string), (''namespaceId'', z_string)]"

definition GatewayConfigSchema :: "(string \<Rightarrow> bool) \<Rightarrow> schema" where
  "GatewayConfigSchema is_url = Z_object [(''port'', Z_default z_number (JNum 4000)),
     (''upstreams'', Z_default (Z_record (UpstreamConfigSchema is_url)) (JObj [])),
     (''staticTokens'', Z_default (Z_record StaticTokenEntrySchema) (JObj []))]"

lemmas schema_shapes = TraceContextSchema_def WorkspaceInfoSchema_def PluginInfoSchema_def
  HelloMessageSchema_def ConnectedMessageSchema_def NegotiateMessageSchema_def CallMessageSchema_def
  BulkRedirectMessageSchema_def ChunkMessageSchema_def ResultMessageSchema_def ErrorMessageSchema_def
  HeartbeatMessageSchema_def AckMessageSchema_def ExecutionOutputSchema_def
  ExecutionProgressSchema_def ExecutionArtifactSchema_def ExecutionErrorEventSchema_def
  ExecutionDoneSchema_def ExecutionRetrySchema_def ExecutionCancelledSchema_def
  CancelMessageSchema_def SubscribeMessageSchema_def UnsubscribeMessageSchema_def
  SerializedErrorSchema_def AdapterCallContextSchema_def AdapterNameSchema_def
  AdapterCallMessageSchema_def AdapterResponseMessageSchema_def AdapterErrorMessageSchema_def
  AdapterChunkMessageSchema_def AdapterCancelMessageSchema_def ExecuteRequestSchema_def
  ClientHelloSchema_def ClientSubscribeSchema_def ClientUnsubscribeSchema_def ClientCancelSchema_def
  ClientConnectedSchema_def ClientErrorSchema_def HostCapabilitySchema_def HostTypeSchema_def
  HostRegistrationSchema_def HostStatusSchema_def HostDescriptorSchema_def
  HostRegisterResponseSchema_def TokenTypeSchema_def AuthContextSchema_def RegisterRequestSchema_def
  RegisterResponseSchema_def TokenRequestSchema_def TokenResponseSchema_def RefreshRequestSchema_def
  JwtPayloadSchema_def

end
