(* ===== verification/Schema_Parsers.thy ===== *)
theory Schema_Parsers
  imports Zod_Schemas
begin

text \<open>
  The parsers of the modelled components (Message_Schemas, Auth_Routes, Execute_Routes, Client_Ws, LLM_Routes,
  Platform_Routes, Gateway_Bootstrap) accept exactly what the zod schemas of the contracts accept and read
  nothing else.
\<close>

section \<open>Parsing twice is parsing once\<close>

fun never_undefined :: "schema \<Rightarrow> bool" where
  "never_undefined Z_unknown = False"
| "never_undefined (Z_optional s) = False"
| "never_undefined (Z_literal l) = (l \<noteq> JUndef)"
| "never_undefined (Z_default s d) = never_undefined s"
| "never_undefined (Z_union s t) = (never_undefined s \<and> never_undefined t)"
| "never_undefined s = True"

text \<open>
  Object schemas name each member once; a default never yields \<open>undefined\<close>. Nothing is said of unions, whose
  first alternative may accept what the second one gives.
\<close>

fun schema_ok :: "schema \<Rightarrow> bool" where
  "schema_ok (Z_array s) = schema_ok s"
| "schema_ok (Z_sized test s) = schema_ok s"
| "schema_ok (Z_record s) = schema_ok s"
| "schema_ok (Z_union s t) = False"
| "schema_ok (Z_optional s) = schema_ok s"
| "schema_ok (Z_default s d) = (schema_ok s \<and> never_undefined s)"
| "schema_ok (Z_object shape) = (distinct (map fst shape) \<and> (\<forall>x\<in>set shape. schema_ok (snd x)))"
| "schema_ok s = True"

lemma never_undefined_zod: "never_undefined s \<Longrightarrow> zod s v \<noteq> Some JUndef"
proof (induction s arbitrary: v rule: never_undefined.induct)
  case (4 s d)
  then show ?case by simp
qed (auto split: jval.splits option.splits)

lemma zod_members_None:
  "zod_members shape v = None \<longleftrightarrow> (\<exists>x\<in>set shape. zod (snd x) (js_member v (fst x)) = None)"
  by (induction shape) (auto split: option.splits)

lemma zod_members_cong:
  "(\<And>x. x \<in> set shape \<Longrightarrow> zod (snd x) (js_member v' (fst x)) = zod (snd x) (js_member v (fst x))) \<Longrightarrow>
     zod_members shape v' = zod_members shape v"
proof (induction shape)
  case (Cons x shape)
  have "zod (snd x) (js_member v' (fst x)) = zod (snd x) (js_member v (fst x))" by (rule Cons.prems) simp
  moreover have "zod_members shape v' = zod_members shape v" by (rule Cons.IH) (rule Cons.prems, simp)
  ultimately show ?case by (cases x) (simp only: zod_members.simps zod.simps fst_conv snd_conv)
qed simp

lemma zod_members_keys: "zod_members shape v = Some fs \<Longrightarrow> k \<notin> fst ` set shape \<Longrightarrow> map_of fs k = None"
  by (induction shape arbitrary: fs) (auto split: option.splits if_splits)

lemma zod_members_get:
  "zod_members shape v = Some fs \<Longrightarrow> distinct (map fst shape) \<Longrightarrow> (k, s) \<in> set shape \<Longrightarrow>
     zod s (js_member v k) = Some (js_member (JObj fs) k)"
proof (induction shape arbitrary: fs)
  case (Cons x shape)
  obtain k' s' where x: "x = (k', s')" by (cases x) auto
  obtain y where hd: "zod s' (js_member v k') = Some y" using Cons.prems(1) by (simp add: x split: option.splits)
  obtain fs' where tl: "zod_members shape v = Some fs'" using Cons.prems(1) by (simp add: x split: option.splits)
  have fs: "fs = (if y = JUndef then fs' else (k', y) # fs')" using Cons.prems(1) by (simp add: x hd tl split: if_splits)
  have dist: "distinct (map fst shape)" and new: "k' \<notin> fst ` set shape" using Cons.prems(2) by (simp_all add: x)
  show ?case
  proof (cases "k = k'")
    case True
    with Cons.prems(3) new have "s = s'" by (auto simp: x image_iff)
    with hd True zod_members_keys [OF tl new] show ?thesis by (simp add: fs)
  next
    case False
    with Cons.prems(3) have "(k, s) \<in> set shape" by (simp add: x)
    from Cons.IH [OF tl dist this] False show ?thesis by (simp add: fs)
  qed
qed simp

lemma parse_all_idem:
  assumes "parse_all p vs = Some ws" "\<And>v w. p v = Some w \<Longrightarrow> p w = Some w"
  shows "parse_all p ws = Some ws"
  using assms(1)
proof (induction vs arbitrary: ws)
  case (Cons v vs)
  then obtain w ws' where w: "p v = Some w" "parse_all p vs = Some ws'" "ws = w # ws'" by (auto split: option.splits)
  from assms(2) [OF w(1)] Cons.IH [OF w(2)] w(3) show ?case by simp
qed simp

lemma zod_idem: "schema_ok s \<Longrightarrow> zod s v = Some w \<Longrightarrow> zod s w = Some w"
proof (induction s arbitrary: v w)
  case (Z_array s)
  then obtain vs ws where "v = JArr vs" "w = JArr ws" "parse_all (zod s) vs = Some ws" by (auto split: jval.splits)
  moreover from this(3) have "parse_all (zod s) ws = Some ws"
    by (rule parse_all_idem) (use Z_array in simp)
  ultimately show ?case by simp
next
  case (Z_sized test s)
  then obtain vs where vs: "zod s v = Some (JArr vs)" "w = JArr vs" "test (length vs)"
    by (auto split: option.splits jval.splits if_splits)
  from Z_sized.IH [OF _ vs(1)] Z_sized.prems(1) vs show ?case by simp
next
  case (Z_record s)
  then obtain fs gs where r: "v = JObj fs" "w = JObj gs"
    "parse_all (\<lambda>(k, x). map_option (Pair k) (zod s x)) fs = Some gs" by (auto split: jval.splits)
  have "parse_all (\<lambda>(k, x). map_option (Pair k) (zod s x)) gs = Some gs"
    by (rule parse_all_idem [OF r(3)]) (use Z_record in auto)
  with r show ?case by simp
next
  case (Z_object shape)
  then obtain fs gs where o: "v = JObj fs" "w = JObj gs" "zod_members shape v = Some gs" by (auto split: jval.splits)
  have "zod (snd x) (js_member w (fst x)) = zod (snd x) (js_member v (fst x))" if x: "x \<in> set shape" for x
  proof -
    have get: "zod (snd x) (js_member v (fst x)) = Some (js_member w (fst x))"
      using zod_members_get [OF o(3), of "fst x" "snd x"] Z_object.prems(1) x o(2) by simp
    moreover have "schema_ok (snd x)" using Z_object.prems(1) x by simp
    ultimately show ?thesis using Z_object.IH [OF x _ _ get] by (cases x) auto
  qed
  from zod_members_cong [OF this] o show ?case by simp
next
  case (Z_default s d)
  then show ?case using never_undefined_zod [of s] by (auto split: if_splits)
qed (auto split: jval.splits if_splits)

section \<open>The parsers are the schemas\<close>

text \<open>
  \<open>parses s p\<close>: the parser \<open>p\<close> fails exactly where \<open>safeParse\<close> does, and what it returns is determined
  by the parsed data alone.
\<close>

definition parses :: "schema \<Rightarrow> (jval \<Rightarrow> 'a option) \<Rightarrow> bool" where
  "parses s p \<longleftrightarrow> (\<forall>v. (p v = None \<longleftrightarrow> zod s v = None) \<and> (\<forall>w. zod s v = Some w \<longrightarrow> p w = p v))"

lemma parsesI:
  "(\<And>v. zod s v = None \<Longrightarrow> p v = None) \<Longrightarrow> (\<And>v w. zod s v = Some w \<Longrightarrow> p v \<noteq> None \<and> p w = p v) \<Longrightarrow> parses s p"
  unfolding parses_def by (metis option.exhaust)

lemma parses_None: "parses s p \<Longrightarrow> p v = None \<longleftrightarrow> zod s v = None"
  by (simp add: parses_def)

lemma parses_Some: "parses s p \<Longrightarrow> zod s v = Some w \<Longrightarrow> p v \<noteq> None \<and> p w = p v"
  by (simp add: parses_def)

named_theorems parse_rules

lemma parses_leaf [parse_rules]:
  "parses z_string as_string"
  "parses (Z_optional z_string) (schema_optional as_string)"
  "parses HostTypeSchema host_type_value" "parses (Z_enum [''local'', ''cloud'']) host_type_value"
  "parses HostCapabilitySchema capability_value" "parses AdapterNameSchema adapter_value"
  "parses z_positive positive_number"
  by (auto simp: parses_def as_string_def optional_string_def schema_optional_def HostTypeSchema_def host_type_value_def
      HostCapabilitySchema_def capability_value_def parse_capability_def AdapterNameSchema_def adapter_value_def
      parse_adapter_def positive_number_def split: jval.splits if_splits)

lemma parses_optional [parse_rules]:
  assumes "parses s p" "never_undefined s"
  shows "parses (Z_optional s) (schema_optional p)"
proof (rule parsesI)
  fix v w assume "zod (Z_optional s) v = Some w"
  with never_undefined_zod [OF assms(2), of v] parses_Some [OF assms(1)]
  show "schema_optional p v \<noteq> None \<and> schema_optional p w = schema_optional p v"
    by (auto simp: schema_optional_def split: if_splits)
qed (auto simp: schema_optional_def parses_None [OF assms(1)] split: if_splits)

lemma parse_all_again:
  assumes "\<And>v. (q v = None) = (z v = None)" "\<And>v w. z v = Some w \<Longrightarrow> q w = q v" "parse_all z vs = Some ws"
  shows "parse_all q vs \<noteq> None \<and> parse_all q ws = parse_all q vs"
proof
  from assms(3) have "\<forall>v\<in>set vs. z v \<noteq> None" using parse_all_None [of z vs] by auto
  then show "parse_all q vs \<noteq> None" using parse_all_None [of q vs] assms(1) by auto
  from assms(3) show "parse_all q ws = parse_all q vs"
  proof (induction vs arbitrary: ws)
    case (Cons v vs)
    then obtain w ws' where w: "z v = Some w" "parse_all z vs = Some ws'" "ws = w # ws'" by (auto split: option.splits)
    from assms(2) [OF w(1)] Cons.IH [OF w(2)] w(3) show ?case by (auto split: option.split)
  qed simp
qed

lemma parses_array [parse_rules]:
  assumes "parses s p"
  shows "parses (Z_array s) (schema_array p)"
proof (rule parsesI)
  fix v w assume "zod (Z_array s) v = Some w"
  then obtain vs ws where "v = JArr vs" "w = JArr ws" "parse_all (zod s) vs = Some ws" by (auto split: jval.splits)
  moreover from this(3) have "parse_all p vs \<noteq> None \<and> parse_all p ws = parse_all p vs"
    by (rule parse_all_again [rotated 2]) (use parses_None [OF assms] parses_Some [OF assms] in auto)
  ultimately show "schema_array p v \<noteq> None \<and> schema_array p w = schema_array p v"
    by (simp add: schema_array_def)
qed (auto simp: schema_array_def parse_all_None parses_None [OF assms] split: jval.splits)

lemma parses_record [parse_rules]:
  assumes "parses s p"
  shows "parses (Z_record s) (schema_record p)"
proof (rule parsesI)
  fix v w assume "zod (Z_record s) v = Some w"
  then obtain fs gs where "v = JObj fs" "w = JObj gs" "parse_all (\<lambda>(k, x). map_option (Pair k) (zod s x)) fs = Some gs"
    by (auto split: jval.splits)
  moreover from this(3) have "parse_all (\<lambda>(k, x). map_option (Pair k) (p x)) fs \<noteq> None \<and>
      parse_all (\<lambda>(k, x). map_option (Pair k) (p x)) gs = parse_all (\<lambda>(k, x). map_option (Pair k) (p x)) fs"
    by (rule parse_all_again [rotated 2]) (use parses_None [OF assms] parses_Some [OF assms] in auto)
  ultimately show "schema_record p v \<noteq> None \<and> schema_record p w = schema_record p v"
    by (simp add: schema_record_def)
qed (force simp: schema_record_def parse_all_None parses_None [OF assms] case_prod_unfold split: jval.splits)

text \<open>\<open>.min()\<close> and \<open>.max()\<close> of arrays, \<open>.default()\<close> and \<open>z.union\<close>\<close>

definition sized :: "(nat \<Rightarrow> bool) \<Rightarrow> (jval \<Rightarrow> 'a list option) \<Rightarrow> jval \<Rightarrow> 'a list option" where
  "sized test p v = Option.bind (p v) (\<lambda>xs. if test (length xs) then Some xs else None)"

lemma parse_all_length: "parse_all p vs = Some xs \<Longrightarrow> length xs = length vs"
  by (induction vs arbitrary: xs) (auto split: option.splits)

lemma zod_array_shape: "zod (Z_array s) v = Some w \<Longrightarrow> \<exists>ws. w = JArr ws"
  by (auto split: jval.splits)

lemma parses_sized [parse_rules]:
  assumes "parses s p"
  shows "parses (Z_sized test (Z_array s)) (sized test (schema_array p))"
proof -
  have array: "parses (Z_array s) (schema_array p)" by (rule parses_array [OF assms])
  have len: "length xs = length ws" if "zod (Z_array s) v = Some (JArr ws)" "schema_array p v = Some xs" for v ws xs
    using that by (auto simp: schema_array_def split: jval.splits) (metis parse_all_length)
  show ?thesis
  proof (rule parsesI)
    fix v assume "zod (Z_sized test (Z_array s)) v = None"
    then show "sized test (schema_array p) v = None"
      using parses_None [OF array, of v] len [of v]
      by (cases "zod (Z_array s) v"; cases "schema_array p v")
        (auto simp: sized_def simp del: zod.simps(7) split: jval.splits if_splits dest: zod_array_shape)
  next
    fix v w assume "zod (Z_sized test (Z_array s)) v = Some w"
    then obtain ws where w: "zod (Z_array s) v = Some (JArr ws)" "w = JArr ws" "test (length ws)"
      by (auto simp del: zod.simps(7) split: option.splits jval.splits if_splits)
    from parses_Some [OF array w(1)] len [OF w(1)] w
    show "sized test (schema_array p) v \<noteq> None \<and> sized test (schema_array p) w = sized test (schema_array p) v"
      by (auto simp: sized_def)
  qed
qed

lemma parses_default [parse_rules]:
  assumes "parses s p" "never_undefined s" "p d = Some x"
  shows "parses (Z_default s d) (schema_default x p)"
proof (rule parsesI)
  fix v w assume z: "zod (Z_default s d) v = Some w"
  then have "w \<noteq> JUndef" using never_undefined_zod [OF assms(2)] by auto
  with parses_Some [OF assms(1)] z assms(3)
  show "schema_default x p v \<noteq> None \<and> schema_default x p w = schema_default x p v"
    by (auto simp: schema_default_def split: if_splits)
qed (use parses_None [OF assms(1), of d] assms(3) in \<open>auto simp: schema_default_def parses_None [OF assms(1)] split: if_splits\<close>)

lemma parses_union:
  assumes "parses s p" "parses t q" "\<And>v w. zod s v = None \<Longrightarrow> zod t v = Some w \<Longrightarrow> zod s w = None"
  shows "parses (Z_union s t) (\<lambda>v. case p v of Some x \<Rightarrow> Some (f x) | None \<Rightarrow> map_option g (q v))"
proof (rule parsesI)
  fix v w assume z: "zod (Z_union s t) v = Some w"
  show "(case p v of Some x \<Rightarrow> Some (f x) | None \<Rightarrow> map_option g (q v)) \<noteq> None \<and>
    (case p w of Some x \<Rightarrow> Some (f x) | None \<Rightarrow> map_option g (q w)) =
    (case p v of Some x \<Rightarrow> Some (f x) | None \<Rightarrow> map_option g (q v))"
  proof (cases "zod s v")
    case None
    with z have t: "zod t v = Some w" by simp
    have "p v = None" "p w = None" using None assms(3) [OF None t] by (simp_all add: parses_None [OF assms(1)])
    with parses_Some [OF assms(2) t] show ?thesis by auto
  next
    case (Some w')
    with z parses_Some [OF assms(1) Some] show ?thesis by auto
  qed
qed (auto simp: parses_None [OF assms(1)] parses_None [OF assms(2)] split: option.splits)

text \<open>A member of an object: absent or wrong when the object is refused, the parsed one otherwise.\<close>

lemma member_parsed:
  assumes "zod (Z_object shape) v = Some w" "distinct (map fst shape)" "(k, s) \<in> set shape" "parses s p"
  shows "p (js_member v k) \<noteq> None \<and> p (js_member w k) = p (js_member v k)"
proof -
  from assms(1) obtain fs where "zod_members shape v = Some fs" "w = JObj fs" by (auto split: jval.splits)
  with zod_members_get [OF this(1) assms(2,3)] parses_Some [OF assms(4)] show ?thesis by auto
qed

lemma member_refused:
  assumes "zod (Z_object shape) v = None"
  shows "(\<exists>(k, s)\<in>set shape. zod s (js_member v k) = None) \<or>
    (\<forall>fs. v \<noteq> JObj fs) \<and> (\<forall>k. js_member v k = JUndef)"
  using assms by (auto simp: zod_members_None case_prod_unfold split: jval.splits)

lemma parses_unknown [parse_rules]: "parses Z_unknown Some"
  by (simp add: parses_def)

text \<open>\<open>z.array(z.string()).default([])\<close>, and strings with a test\<close>

lemma string_array_default: "string_array = schema_default [] (schema_array as_string)"
proof
  fix v
  have strings: "string_array (JArr vs) = parse_all as_string vs" for vs
    by (induction vs) (auto simp: string_array_def List.map_filter_def split: option.splits if_splits)
  show "string_array v = schema_default [] (schema_array as_string) v"
    by (cases v) (simp_all add: schema_array_def schema_default_def strings, simp_all add: string_array_def List.map_filter_def)
qed

lemma parses_default_strings [parse_rules]: "parses (Z_default (Z_array z_string) (JArr [])) string_array"
  unfolding string_array_default by (intro parse_rules) (simp_all add: schema_array_def)

definition tested_string :: "(string \<Rightarrow> bool) \<Rightarrow> jval \<Rightarrow> string option" where
  "tested_string ok v = Option.bind (as_string v) (\<lambda>s. if ok s then Some s else None)"

lemma parses_tested [parse_rules]: "parses (Z_string ok) (tested_string ok)"
  by (auto simp: parses_def tested_string_def as_string_def split: jval.splits if_splits)

definition literal_value :: "jval \<Rightarrow> jval \<Rightarrow> unit option" where
  "literal_value l v = (if v = l then Some () else None)"

lemma literal_undef [simp]: "literal_value (JStr s) JUndef = None"
  by (simp add: literal_value_def)

lemma parses_literal [parse_rules]: "parses (Z_literal l) (literal_value l)"
  by (auto simp: parses_def literal_value_def)

text \<open>An object parser that combines the parsers of its members.\<close>

lemma parses_object:
  assumes "distinct (map fst shape)"
    and refused: "\<And>v k s. (k, s) \<in> set shape \<Longrightarrow> zod s (js_member v k) = None \<Longrightarrow> p v = None"
    and read: "\<And>v w. zod (Z_object shape) v = Some w \<Longrightarrow> p v \<noteq> None \<and> p w = p v"
    and nonobject: "\<And>v. (\<And>fs. v \<noteq> JObj fs) \<Longrightarrow> (\<And>k. js_member v k = JUndef) \<Longrightarrow> p v = None"
  shows "parses (Z_object shape) p"
proof (rule parsesI)
  fix v assume "zod (Z_object shape) v = None"
  from member_refused [OF this] refused nonobject show "p v = None" by blast
qed (rule read)

lemmas member_string = member_parsed [OF _ _ _ parses_leaf(1)]
  and member_optional = member_parsed [OF _ _ _ parses_leaf(2)]
  and member_literal = member_parsed [OF _ _ _ parses_literal]

lemma optional_string_schema: "optional_string = schema_optional as_string"
  by (rule ext) (simp add: optional_string_def schema_optional_def as_string_def split: jval.splits)

lemma as_string_undef [simp]: "as_string JUndef = None"
  by (simp add: as_string_def)

lemmas member_None = parses_leaf [THEN parses_None, symmetric] parses_unknown [THEN parses_None, symmetric]
  parses_default_strings [THEN parses_None, symmetric] parses_literal [THEN parses_None, symmetric]
  parses_tested [THEN parses_None, symmetric]

lemma parses_workspace [parse_rules]: "parses WorkspaceInfoSchema parse_workspace"
  unfolding WorkspaceInfoSchema_def
proof (rule parses_object)
  fix v w assume z: "zod (Z_object [(''workspaceId'', z_string), (''repoFingerprint'', Z_optional z_string),
     (''branch'', Z_optional z_string)]) v = Some w"
  show "parse_workspace v \<noteq> None \<and> parse_workspace w = parse_workspace v"
    using member_string [OF z, of "''workspaceId''"] member_optional [OF z, of "''repoFingerprint''"]
      member_optional [OF z, of "''branch''"]
    by (auto simp: parse_workspace_def)
qed (auto simp: parse_workspace_def member_None simp del: zod.simps split: option.splits)

lemma parses_plugin [parse_rules]: "parses PluginInfoSchema parse_plugin"
  unfolding PluginInfoSchema_def
proof (rule parses_object)
  fix v w assume z: "zod (Z_object [(''id'', z_string), (''version'', z_string)]) v = Some w"
  show "parse_plugin v \<noteq> None \<and> parse_plugin w = parse_plugin v"
    using member_string [OF z, of "''id''"] member_string [OF z, of "''version''"] by (auto simp: parse_plugin_def)
qed (auto simp: parse_plugin_def member_None simp del: zod.simps split: option.splits)

lemma parses_call_context [parse_rules]: "parses AdapterCallContextSchema parse_call_context"
  unfolding AdapterCallContextSchema_def
proof (rule parses_object)
  fix v w assume z: "zod (Z_object [(''namespaceId'', z_string), (''hostId'', z_string), (''workspaceId'', Z_optional z_string),
     (''environmentId'', Z_optional z_string), (''executionRequestId'', Z_optional z_string)]) v = Some w"
  show "parse_call_context v \<noteq> None \<and> parse_call_context w = parse_call_context v"
    using member_string [OF z, of "''namespaceId''"] member_string [OF z, of "''hostId''"]
      member_optional [OF z, of "''workspaceId''"] member_optional [OF z, of "''environmentId''"]
      member_optional [OF z, of "''executionRequestId''"]
    by (auto simp: parse_call_context_def)
qed (auto simp: parse_call_context_def member_None simp del: zod.simps split: option.splits)

lemma member_types:
  "parses (Z_array z_string) (schema_array as_string)"
  "parses (Z_array Z_unknown) (schema_array Some)"
  "parses (Z_array HostCapabilitySchema) (schema_array capability_value)"
  "parses (Z_optional (Z_array z_string)) (schema_optional (schema_array as_string))"
  "parses (Z_optional (Z_array WorkspaceInfoSchema)) (schema_optional (schema_array parse_workspace))"
  "parses (Z_optional (Z_array PluginInfoSchema)) (schema_optional (schema_array parse_plugin))"
  "parses (Z_optional HostTypeSchema) (schema_optional host_type_value)"
  "parses (Z_optional (Z_enum [''local'', ''cloud''])) (schema_optional host_type_value)"
  "parses (Z_optional z_positive) (schema_optional positive_number)"
  by (intro parse_rules, (simp add: HostTypeSchema_def)?)+

lemmas member_is_None = member_None member_types [THEN parses_None, symmetric]
  parses_call_context [THEN parses_None, symmetric]

lemma parses_hello: "parses HelloMessageSchema parse_hello"
  unfolding HelloMessageSchema_def
proof (rule parses_object, goal_cases)
  case (3 v w)
  note m = this
  show ?case
    using member_literal [OF m, of "''type''"] member_string [OF m, of "''protocolVersion''"]
      member_string [OF m, of "''agentVersion''"] member_optional [OF m, of "''hostId''"]
      member_parsed [OF m _ _ member_types(4), of "''capabilities''"]
      member_parsed [OF m _ _ member_types(8), of "''hostType''"]
      member_parsed [OF m _ _ member_types(5), of "''workspaces''"]
      member_parsed [OF m _ _ member_types(6), of "''plugins''"]
    by (auto simp: parse_hello_def literal_value_def split: if_splits)
qed (auto simp: parse_hello_def literal_value_def member_is_None simp del: zod.simps split: option.splits)

lemma parses_adapter_call: "parses AdapterCallMessageSchema parse_adapter_call"
  unfolding AdapterCallMessageSchema_def
proof (rule parses_object, goal_cases)
  case (3 v w)
  note m = this
  show ?case
    using member_literal [OF m, of "''type''"] member_string [OF m, of "''requestId''"]
      member_parsed [OF m _ _ parses_leaf(6), of "''adapter''"] member_string [OF m, of "''method''"]
      member_parsed [OF m _ _ member_types(2), of "''args''"]
      member_parsed [OF m _ _ member_types(9), of "''timeout''"]
      member_parsed [OF m _ _ parses_call_context, of "''context''"]
    by (auto simp: parse_adapter_call_def literal_value_def split: if_splits)
qed (auto simp: parse_adapter_call_def literal_value_def member_is_None simp del: zod.simps split: option.splits)

lemma parses_host_registration: "parses HostRegistrationSchema parse_host_registration"
  unfolding HostRegistrationSchema_def
proof (rule parses_object, goal_cases)
  case (3 v w)
  note m = this
  show ?case
    using member_string [OF m, of "''name''"] member_string [OF m, of "''namespaceId''"]
      member_parsed [OF m _ _ member_types(3), of "''capabilities''"]
      member_parsed [OF m _ _ member_types(1), of "''workspacePaths''"]
      member_parsed [OF m _ _ member_types(7), of "''hostType''"]
    by (auto simp: parse_host_registration_def)
qed (auto simp: parse_host_registration_def member_is_None simp del: zod.simps split: option.splits)

abbreviation name_ok :: "string \<Rightarrow> bool" where
  "name_ok s \<equiv> 1 \<le> length s \<and> length s \<le> 64"

lemma parse_register_request_tested:
  "parse_register_request v =
     (case (tested_string name_ok (js_member v ''name''), tested_string name_ok (js_member v ''namespaceId''),
            string_array (js_member v ''capabilities''), schema_optional as_string (js_member v ''publicKey'')) of
        (Some n, Some ns, Some caps, Some key) \<Rightarrow>
          Some \<lparr>rq_name = n, rq_namespaceId = ns, rq_capabilities = caps, rq_publicKey = key\<rparr>
      | _ \<Rightarrow> None)"
  by (auto simp: parse_register_request_def optional_string_schema tested_string_def valid_register_request_def
      split: option.split)

lemma parses_register_request: "parses RegisterRequestSchema parse_register_request"
  unfolding RegisterRequestSchema_def
proof (rule parses_object, goal_cases)
  case (3 v w)
  note m = this
  show ?case
    using member_parsed [OF m _ _ parses_tested, of "''name''"] member_parsed [OF m _ _ parses_tested, of "''namespaceId''"]
      member_parsed [OF m _ _ parses_default_strings, of "''capabilities''"] member_optional [OF m, of "''publicKey''"]
    by (auto simp: parse_register_request_tested)
qed (auto simp: parse_register_request_tested tested_string_def member_is_None simp del: zod.simps split: option.splits)

lemma parses_token_request: "parses TokenRequestSchema parse_token_request"
  unfolding TokenRequestSchema_def
proof (rule parses_object, goal_cases)
  case (3 v w)
  note m = this
  show ?case
    using member_string [OF m, of "''clientId''"] member_string [OF m, of "''clientSecret''"]
    by (auto simp: parse_token_request_def)
qed (auto simp: parse_token_request_def member_is_None simp del: zod.simps split: option.splits)

lemma parses_refresh_request: "parses RefreshRequestSchema parse_refresh_request"
  unfolding RefreshRequestSchema_def
proof (rule parses_object, goal_cases)
  case (3 v w)
  note m = this
  show ?case using member_string [OF m, of "''refreshToken''"] by (auto simp: parse_refresh_request_def)
qed (auto simp: parse_refresh_request_def member_is_None simp del: zod.simps split: option.splits)

lemma parse_execute_request_members:
  "parse_execute_request v =
     (case (as_string (js_member v ''pluginId''), as_string (js_member v ''handlerRef''),
            schema_optional as_string (js_member v ''exportName''), Some (js_member v ''input''),
            schema_optional positive_number (js_member v ''timeoutMs'')) of
        (Some p, Some h, Some x, Some i, Some t) \<Rightarrow>
          Some \<lparr>er_pluginId = p, er_handlerRef = h, er_exportName = x, er_input = i, er_timeoutMs = t\<rparr>
      | _ \<Rightarrow> None)"
  by (auto simp: parse_execute_request_def optional_string_schema schema_optional_def positive_number_def
      split: option.split jval.split)

lemma parses_execute_request: "parses ExecuteRequestSchema parse_execute_request"
  unfolding ExecuteRequestSchema_def
proof (rule parses_object, goal_cases)
  case (3 v w)
  note m = this
  show ?case
    using member_string [OF m, of "''pluginId''"] member_string [OF m, of "''handlerRef''"]
      member_optional [OF m, of "''exportName''"] member_parsed [OF m _ _ parses_unknown, of "''input''"]
      member_parsed [OF m _ _ member_types(9), of "''timeoutMs''"]
    by (auto simp: parse_execute_request_members)
qed (auto simp: parse_execute_request_members member_is_None simp del: zod.simps split: option.splits)

text \<open>The handlers of observer messages look at the type before they parse.\<close>

definition of_type :: "string \<Rightarrow> (jval \<Rightarrow> 'a option) \<Rightarrow> jval \<Rightarrow> 'a option" where
  "of_type ty p msg = (if js_member msg ''type'' = JStr ty then p msg else None)"

lemma parses_client_hello:
  "parses ClientHelloSchema (\<lambda>msg. if valid_client_hello (Some msg) then Some () else None)"
  unfolding ClientHelloSchema_def
proof (rule parses_object, goal_cases)
  case (3 v w)
  note m = this
  show ?case
    using member_literal [OF m, of "''type''"] member_string [OF m, of "''clientVersion''"]
    by (auto simp: valid_client_hello_def literal_value_def split: if_splits)
qed (auto simp: valid_client_hello_def literal_value_def member_is_None simp del: zod.simps split: if_splits)

lemma parse_execution_id_tested: "parse_execution_id is_uuid msg = tested_string is_uuid (js_member msg ''executionId'')"
  by (simp add: parse_execution_id_def tested_string_def split: option.split)

lemma parses_observed:
  "parses (Z_object [(''type'', z_literal ty), (''executionId'', Z_string is_uuid)]) (of_type ty (parse_execution_id is_uuid))"
proof (rule parses_object, goal_cases)
  case (3 v w)
  note m = this
  show ?case
    using member_literal [OF m, of "''type''"] member_parsed [OF m _ _ parses_tested, of "''executionId''"]
    by (auto simp: of_type_def parse_execution_id_tested literal_value_def split: if_splits)
qed (auto simp: of_type_def parse_execution_id_tested literal_value_def member_is_None simp del: zod.simps)

definition cancel_reason :: "jval \<Rightarrow> string option option" where
  "cancel_reason v = (case v of JUndef \<Rightarrow> Some None
     | JStr r \<Rightarrow> if r = ''user'' \<or> r = ''timeout'' then Some (Some r) else None | _ \<Rightarrow> None)"

lemma parses_cancel_reason: "parses (Z_optional (Z_enum [''user'', ''timeout''])) cancel_reason"
  by (auto simp: parses_def cancel_reason_def split: jval.splits if_splits)

lemma parse_cancel_members:
  "parse_cancel is_uuid msg =
     (case (tested_string is_uuid (js_member msg ''executionId''), cancel_reason (js_member msg ''reason'')) of
        (Some i, Some r) \<Rightarrow> Some (i, r) | _ \<Rightarrow> None)"
  by (auto simp: parse_cancel_def parse_execution_id_tested cancel_reason_def split: option.split jval.split)

lemma parses_client_cancel: "parses (ClientCancelSchema is_uuid) (of_type ''client:cancel'' (parse_cancel is_uuid))"
  unfolding ClientCancelSchema_def
proof (rule parses_object, goal_cases)
  case (3 v w)
  note m = this
  show ?case
    using member_literal [OF m, of "''type''"] member_parsed [OF m _ _ parses_tested, of "''executionId''"]
      member_parsed [OF m _ _ parses_cancel_reason, of "''reason''"]
    by (auto simp: of_type_def parse_cancel_members literal_value_def split: if_splits)
qed (auto simp: of_type_def parse_cancel_members literal_value_def member_is_None
    parses_cancel_reason [THEN parses_None, symmetric] simp del: zod.simps split: option.splits)

text \<open>The chat, telemetry, platform and configuration schemas.\<close>

lemma parses_more_leaves [parse_rules]:
  "parses (Z_enum names) (enum_value names)" "parses Z_boolean as_bool" "parses z_number as_number"
  "parses (Z_number (\<lambda>n. 0 \<le> n \<and> n \<le> 2)) parse_temperature"
  "parses (Z_default (Z_optional Z_boolean) (JBool False)) (schema_default False as_bool)"
  by (auto simp: parses_def enum_value_def as_string_def as_bool_def as_number_def parse_temperature_def
      schema_default_def split: jval.splits if_splits)

lemma enum_undef: "enum_value names JUndef = None"
  by (simp add: enum_value_def)

definition pair_of :: "string \<Rightarrow> string \<Rightarrow> jval \<Rightarrow> (string \<times> string) option" where
  "pair_of k l v = (case (as_string (js_member v k), as_string (js_member v l)) of
     (Some a, Some b) \<Rightarrow> Some (a, b) | _ \<Rightarrow> None)"

lemma parses_pair: "k \<noteq> l \<Longrightarrow> parses (Z_object [(k, z_string), (l, z_string)]) (pair_of k l)"
proof (rule parses_object, goal_cases)
  case (3 v w)
  note m = this(2)
  show ?case using 3(1) member_string [OF m, of k] member_string [OF m, of l] by (auto simp: pair_of_def)
qed (auto simp: pair_of_def member_is_None simp del: zod.simps split: option.splits)

lemma parse_tool_call_members:
  "parse_tool_call v = (case (as_string (js_member v ''id''), literal_value (JStr ''function'') (js_member v ''type''),
     pair_of ''name'' ''arguments'' (js_member v ''function'')) of
     (Some i, Some _, Some (n, a)) \<Rightarrow> Some \<lparr>tr_id = i, tr_name = n, tr_arguments = a\<rparr> | _ \<Rightarrow> None)"
  by (auto simp: parse_tool_call_def pair_of_def is_function_def literal_value_def split: option.split)

lemma parses_tool_call: "parses (Z_object [(''id'', z_string), (''type'', z_literal ''function''),
  (''function'', Z_object [(''name'', z_string), (''arguments'', z_string)])]) parse_tool_call"
proof (rule parses_object, goal_cases)
  case (3 v w)
  note m = this
  show ?case
    using member_string [OF m, of "''id''"] member_literal [OF m, of "''type''"]
      member_parsed [OF m _ _ parses_pair [of "''name''" "''arguments''"], of "''function''"]
    by (auto simp: parse_tool_call_members)
qed (auto simp: parse_tool_call_members member_is_None parses_pair [THEN parses_None, symmetric]
    simp del: zod.simps split: option.splits)

lemma parses_chat_message: "parses ChatMessageSchema parse_chat_message"
  unfolding ChatMessageSchema_def
proof (rule parses_object, goal_cases)
  case (3 v w)
  note m = this
  show ?case
    using member_parsed [OF m _ _ parses_more_leaves(1), of "''role''"] member_string [OF m, of "''content''"]
      member_optional [OF m, of "''tool_call_id''"]
      member_parsed [OF m _ _ parses_optional [OF parses_array [OF parses_tool_call]], of "''tool_calls''"]
    by (auto simp: parse_chat_message_def chat_roles_def)
qed (auto simp: parse_chat_message_def chat_roles_def member_is_None
    parses_more_leaves(1) [THEN parses_None, symmetric]
    parses_optional [OF parses_array [OF parses_tool_call], THEN parses_None, symmetric]
    simp del: zod.simps split: option.splits)

definition tool_function :: "jval \<Rightarrow> (string \<times> string option \<times> (string \<times> jval) list option) option" where
  "tool_function f = (case (as_string (js_member f ''name''), schema_optional as_string (js_member f ''description''),
     schema_optional (schema_record Some) (js_member f ''parameters'')) of
     (Some n, Some d, Some ps) \<Rightarrow> Some (n, d, ps) | _ \<Rightarrow> None)"

lemma any_record: "parses (Z_optional (Z_record Z_unknown)) (schema_optional (schema_record Some))"
  by (intro parse_rules) simp

lemma parses_tool_function: "parses (Z_object [(''name'', z_string), (''description'', Z_optional z_string),
  (''parameters'', Z_optional (Z_record Z_unknown))]) tool_function"
proof (rule parses_object, goal_cases)
  case (3 v w)
  note m = this
  show ?case
    using member_string [OF m, of "''name''"] member_optional [OF m, of "''description''"]
      member_parsed [OF m _ _ any_record, of "''parameters''"]
    by (auto simp: tool_function_def)
qed (auto simp: tool_function_def member_is_None any_record [THEN parses_None, symmetric]
    simp del: zod.simps split: option.splits)

lemma parse_chat_tool_members:
  "parse_chat_tool v = (case (literal_value (JStr ''function'') (js_member v ''type''), tool_function (js_member v ''function'')) of
     (Some _, Some (n, d, ps)) \<Rightarrow> Some \<lparr>ct_name = n, ct_description = d, ct_parameters = ps\<rparr> | _ \<Rightarrow> None)"
  by (auto simp: parse_chat_tool_def tool_function_def is_function_def literal_value_def Let_def split: option.split)

lemma parses_chat_tool: "parses ChatToolSchema parse_chat_tool"
  unfolding ChatToolSchema_def
proof (rule parses_object, goal_cases)
  case (3 v w)
  note m = this
  show ?case
    using member_literal [OF m, of "''type''"] member_parsed [OF m _ _ parses_tool_function, of "''function''"]
    by (auto simp: parse_chat_tool_members)
qed (auto simp: parse_chat_tool_members member_is_None parses_tool_function [THEN parses_None, symmetric]
    simp del: zod.simps split: option.splits)

lemma parses_stop: "parses (Z_union z_string (Z_array z_string)) parse_stop"
proof -
  have eq: "parse_stop = (\<lambda>v. case as_string v of Some x \<Rightarrow> Some (Stop_one x) | None \<Rightarrow> map_option Stop_many (schema_array as_string v))"
    by (rule ext) (simp add: parse_stop_def as_string_def split: jval.split)
  show ?thesis
    unfolding eq by (rule parses_union [OF parses_leaf(1) member_types(1)]) (auto split: jval.splits)
qed

definition chosen_function :: "jval \<Rightarrow> string option" where
  "chosen_function v = (case (literal_value (JStr ''function'') (js_member v ''type''),
     as_string (js_member (js_member v ''function'') ''name'')) of (Some _, Some n) \<Rightarrow> Some n | _ \<Rightarrow> None)"

lemma parses_named: "parses (Z_object [(''name'', z_string)]) (\<lambda>v. as_string (js_member v ''name''))"
proof (rule parses_object, goal_cases)
  case (3 v w)
  note m = this
  show ?case using member_string [OF m, of "''name''"] by auto
qed (auto simp: member_is_None simp del: zod.simps)

lemma parses_chosen: "parses (Z_object [(''type'', z_literal ''function''), (''function'', Z_object [(''name'', z_string)])]) chosen_function"
proof (rule parses_object, goal_cases)
  case (3 v w)
  note m = this
  show ?case
    using member_literal [OF m, of "''type''"] member_parsed [OF m _ _ parses_named, of "''function''"]
    by (auto simp: chosen_function_def)
qed (auto simp: chosen_function_def member_is_None parses_named [THEN parses_None, symmetric]
    simp del: zod.simps split: option.splits)

lemma parses_tool_choice:
  "parses (Z_union (Z_enum [''auto'', ''required'', ''none'']) (Z_object [(''type'', z_literal ''function''),
     (''function'', Z_object [(''name'', z_string)])])) parse_tool_choice"
proof -
  have eq: "parse_tool_choice = (\<lambda>v. case enum_value [''auto'', ''required'', ''none''] v of Some x \<Rightarrow> Some (Choice x)
      | None \<Rightarrow> map_option Choice_function (chosen_function v))"
    by (rule ext) (auto simp: parse_tool_choice_def chosen_function_def is_function_def literal_value_def split: option.split)
  show ?thesis
    unfolding eq by (rule parses_union [OF parses_more_leaves(1) parses_chosen]) (auto split: jval.splits)
qed

lemma chat_members:
  "parses (Z_sized (\<lambda>n. 1 \<le> n) (Z_array ChatMessageSchema)) (sized (\<lambda>n. 1 \<le> n) (schema_array parse_chat_message))"
  "parses (Z_optional (Z_number (\<lambda>n. 0 \<le> n \<and> n \<le> 2))) (schema_optional parse_temperature)"
  "parses (Z_optional (Z_union z_string (Z_array z_string))) (schema_optional parse_stop)"
  "parses (Z_optional (Z_array ChatToolSchema)) (schema_optional (schema_array parse_chat_tool))"
  "parses (Z_optional (Z_union (Z_enum [''auto'', ''required'', ''none'']) (Z_object [(''type'', z_literal ''function''),
     (''function'', Z_object [(''name'', z_string)])]))) (schema_optional parse_tool_choice)"
  by (intro parses_optional parses_array parses_sized parses_chat_message parses_chat_tool parses_more_leaves
      parses_stop parses_tool_choice; simp)+

lemma parse_chat_request_members:
  "parse_chat_request v =
     (case (enum_value llm_tiers (js_member v ''model''),
            sized (\<lambda>n. 1 \<le> n) (schema_array parse_chat_message) (js_member v ''messages''),
            schema_optional parse_temperature (js_member v ''temperature''),
            schema_optional positive_number (js_member v ''max_tokens''),
            schema_optional parse_stop (js_member v ''stop''), schema_default False as_bool (js_member v ''stream''),
            schema_optional (schema_array parse_chat_tool) (js_member v ''tools''),
            schema_optional parse_tool_choice (js_member v ''tool_choice'')) of
        (Some m, Some ms, Some t, Some mx, Some st, Some str, Some tools, Some tc) \<Rightarrow>
          Some \<lparr>cq_model = m, cq_messages = ms, cq_temperature = t, cq_max_tokens = mx, cq_stop = st,
                cq_stream = str, cq_tools = tools, cq_tool_choice = tc\<rparr>
      | _ \<Rightarrow> None)"
proof -
  have "schema_default False as_bool x = map_option (\<lambda>b. or_else b False) (schema_optional as_bool x)" for x
    by (simp add: schema_default_def schema_optional_def option.map_comp comp_def option.map_ident)
  then show ?thesis by (auto simp: parse_chat_request_def sized_def Suc_le_eq split: option.split)
qed

lemma parses_chat_request: "parses ChatCompletionRequestSchema parse_chat_request"
  unfolding ChatCompletionRequestSchema_def LLMTierSchema_def
proof (rule parses_object, goal_cases)
  case (3 v w)
  note m = this
  show ?case
    using member_parsed [OF m _ _ parses_more_leaves(1), of "''model''"]
      member_parsed [OF m _ _ chat_members(1), of "''messages''"] member_parsed [OF m _ _ chat_members(2), of "''temperature''"]
      member_parsed [OF m _ _ member_types(9), of "''max_tokens''"] member_parsed [OF m _ _ chat_members(3), of "''stop''"]
      member_parsed [OF m _ _ parses_more_leaves(5), of "''stream''"] member_parsed [OF m _ _ chat_members(4), of "''tools''"]
      member_parsed [OF m _ _ chat_members(5), of "''tool_choice''"]
    by (auto simp: parse_chat_request_members llm_tiers_def)
qed (auto simp: parse_chat_request_members llm_tiers_def enum_undef member_is_None
    parses_more_leaves [THEN parses_None, symmetric] chat_members [THEN parses_None, symmetric]
    simp del: zod.simps One_nat_def split: option.splits)

abbreviation up_to :: "nat \<Rightarrow> string \<Rightarrow> bool" where
  "up_to n s \<equiv> 1 \<le> length s \<and> length s \<le> n"

lemma parse_telemetry_members:
  "parse_telemetry_event is_datetime v =
     (case (tested_string (up_to 128) (js_member v ''source''), tested_string (up_to 256) (js_member v ''type''),
            schema_optional (tested_string is_datetime) (js_member v ''timestamp''),
            schema_optional (schema_record Some) (js_member v ''payload''),
            schema_optional (schema_record as_string) (js_member v ''tags'')) of
        (Some src, Some ty, Some ts, Some payload, Some tags) \<Rightarrow>
          Some \<lparr>te_source = src, te_type = ty, te_timestamp = ts, te_payload = or_else payload [],
                te_tags = or_else tags []\<rparr>
      | _ \<Rightarrow> None)"
proof -
  have "bounded_string n = tested_string (up_to n)" for n by (rule ext) (simp add: bounded_string_def tested_string_def)
  moreover have "(\<lambda>x. Option.bind (as_string x) (\<lambda>s. if is_datetime s then Some s else None)) = tested_string is_datetime"
    by (rule ext) (simp add: tested_string_def)
  ultimately show ?thesis by (simp only: parse_telemetry_event_def)
qed

lemma telemetry_members:
  "parses (Z_optional (Z_string test)) (schema_optional (tested_string test))"
  "parses (Z_optional (Z_record z_string)) (schema_optional (schema_record as_string))"
  by (intro parse_rules; simp)+

lemma tested_undef [simp]: "tested_string test JUndef = None"
  by (simp add: tested_string_def)

lemma parses_telemetry_event: "parses (TelemetryEventSchema is_datetime) (parse_telemetry_event is_datetime)"
  unfolding TelemetryEventSchema_def
proof (rule parses_object, goal_cases)
  case (3 v w)
  note m = this
  show ?case
    using member_parsed [OF m _ _ parses_tested, of "''source''"] member_parsed [OF m _ _ parses_tested, of "''type''"]
      member_parsed [OF m _ _ telemetry_members(1), of "''timestamp''"] member_parsed [OF m _ _ any_record, of "''payload''"]
      member_parsed [OF m _ _ telemetry_members(2), of "''tags''"]
    by (auto simp: parse_telemetry_members)
qed (auto simp: parse_telemetry_members member_is_None any_record [THEN parses_None, symmetric]
    telemetry_members [THEN parses_None, symmetric] simp del: zod.simps One_nat_def split: option.splits)

lemma parses_telemetry_request: "parses (TelemetryIngestRequestSchema is_datetime) (parse_telemetry_request is_datetime)"
  unfolding TelemetryIngestRequestSchema_def
proof -
  let ?p = "sized (\<lambda>n. 1 \<le> n \<and> n \<le> 500) (schema_array (parse_telemetry_event is_datetime))"
  note events = parses_sized [OF parses_telemetry_event, of "\<lambda>n. 1 \<le> n \<and> n \<le> 500" is_datetime]
  have eq: "parse_telemetry_request is_datetime = (\<lambda>v. ?p (js_member v ''events''))"
    by (rule ext) (simp add: parse_telemetry_request_def sized_def)
  have undef: "?p JUndef = None" by (simp add: sized_def schema_array_def)
  show "parses (Z_object [(''events'', Z_sized (\<lambda>n. 1 \<le> n \<and> n \<le> 500) (Z_array (TelemetryEventSchema is_datetime)))])
      (parse_telemetry_request is_datetime)"
    unfolding eq
  proof (rule parses_object, goal_cases)
    case (3 v w)
    from member_parsed [OF 3 _ _ events, of "''events''"] show ?case by auto
  qed (use undef parses_None [OF events] in \<open>auto simp del: zod.simps One_nat_def\<close>)
qed

lemma parses_platform_call: "parses PlatformCallRequestSchema parse_platform_call"
  unfolding PlatformCallRequestSchema_def
proof -
  have args: "parses (Z_default (Z_array Z_unknown) (JArr [])) (schema_default [] (schema_array Some))"
    by (intro parse_rules) (simp_all add: schema_array_def)
  have eq: "parse_platform_call = (\<lambda>v. Option.bind (as_object v) (\<lambda>b. schema_default [] (schema_array Some) (js_member b ''args'')))"
  proof
    fix v
    have "parse_all Some vs = Some vs" for vs :: "jval list" by (induction vs) auto
    then show "parse_platform_call v = Option.bind (as_object v) (\<lambda>b. schema_default [] (schema_array Some) (js_member b ''args''))"
      by (simp add: parse_platform_call_def as_object_def schema_default_def schema_array_def split: jval.split)
  qed
  show "parses (Z_object [(''args'', Z_default (Z_array Z_unknown) (JArr []))]) parse_platform_call"
    unfolding eq
  proof (rule parses_object, goal_cases)
    case (3 v w)
    then have "\<exists>fs gs. v = JObj fs \<and> w = JObj gs" by (auto split: jval.splits)
    with member_parsed [OF 3 _ _ args, of "''args''"] show ?case by (auto simp: as_object_def)
  qed (use parses_None [OF args] in \<open>auto simp: as_object_def simp del: zod.simps split: jval.splits\<close>)
qed

lemma parse_upstream_members:
  "parse_upstream is_url v =
     (case (tested_string is_url (js_member v ''url''), tested_string (\<lambda>s. starts_with s ''/'') (js_member v ''prefix''),
            schema_optional as_string (js_member v ''rewritePrefix''), schema_optional as_bool (js_member v ''websocket''),
            schema_optional (schema_array as_string) (js_member v ''excludePaths''),
            schema_optional as_string (js_member v ''description'')) of
        (Some url, Some prefix, Some rewr, Some ws, Some excl, Some descr) \<Rightarrow>
          Some \<lparr>uc_url = url, uc_prefix = prefix, uc_rewritePrefix = rewr, uc_websocket = ws,
                uc_excludePaths = excl, uc_description = descr\<rparr>
      | _ \<Rightarrow> None)"
  by (auto simp: parse_upstream_def tested_string_def split: option.split)

lemma optional_bool: "parses (Z_optional Z_boolean) (schema_optional as_bool)"
  by (intro parse_rules) simp

lemma parses_upstream: "parses (UpstreamConfigSchema is_url) (parse_upstream is_url)"
  unfolding UpstreamConfigSchema_def
proof (rule parses_object, goal_cases)
  case (3 v w)
  note m = this
  show ?case
    using member_parsed [OF m _ _ parses_tested, of "''url''"] member_parsed [OF m _ _ parses_tested, of "''prefix''"]
      member_optional [OF m, of "''rewritePrefix''"] member_parsed [OF m _ _ optional_bool, of "''websocket''"]
      member_parsed [OF m _ _ member_types(4), of "''excludePaths''"] member_optional [OF m, of "''description''"]
    by (auto simp: parse_upstream_members)
qed (auto simp: parse_upstream_members member_is_None optional_bool [THEN parses_None, symmetric]
    simp del: zod.simps split: option.splits)

lemma parses_static_token: "parses StaticTokenEntrySchema parse_static_token"
proof -
  have eq: "parse_static_token = pair_of ''hostId'' ''namespaceId''"
    by (rule ext) (simp add: parse_static_token_def pair_of_def)
  show ?thesis unfolding StaticTokenEntrySchema_def eq by (rule parses_pair) simp
qed

lemma config_members:
  "parses (Z_default z_number (JNum 4000)) (schema_default 4000 as_number)"
  "parses (Z_default (Z_record (UpstreamConfigSchema is_url)) (JObj [])) (schema_default [] (schema_record (parse_upstream is_url)))"
  "parses (Z_default (Z_record StaticTokenEntrySchema) (JObj [])) (schema_default [] (schema_record parse_static_token))"
  by (intro parses_default parses_record parses_more_leaves parses_upstream parses_static_token;
      simp add: as_number_def schema_record_def)+

lemma parses_gateway_config: "parses (GatewayConfigSchema is_url) (parse_gateway_config is_url)"
  unfolding GatewayConfigSchema_def
proof (rule parses_object, goal_cases)
  case (3 v w)
  note m = this
  then have "\<exists>fs gs. v = JObj fs \<and> w = JObj gs" by (auto split: jval.splits)
  then show ?case
    using member_parsed [OF m _ _ config_members(1), of "''port''"] member_parsed [OF m _ _ config_members(2) [of is_url], of "''upstreams''"]
      member_parsed [OF m _ _ config_members(3), of "''staticTokens''"]
    by (auto simp: parse_gateway_config_def as_object_def simp del: js_member.simps)
qed (auto simp: parse_gateway_config_def as_object_def member_is_None config_members [THEN parses_None, symmetric]
    simp del: zod.simps js_member.simps split: option.splits jval.splits)


end
