(* ===== verification/Wire_Format.thy ===== *)
theory Wire_Format
  imports Schema_Parsers Host_Ws
begin

text \<open>
  What goes over the wire. The messages the gateway sends are written out as the objects the code builds,
  pass through \<open>JSON.stringify\<close> and are checked against the schemas of their receivers.
\<close>

section \<open>JSON.stringify\<close>

text \<open>Members that are \<open>undefined\<close> are left out; an \<open>undefined\<close> element of an array becomes \<open>null\<close>.\<close>

fun js_wire :: "jval \<Rightarrow> jval" where
  "js_wire (JArr vs) = JArr (map (\<lambda>v. if v = JUndef then JNull else js_wire v) vs)"
| "js_wire (JObj fs) = JObj (map (\<lambda>(k, v). (k, js_wire v)) (filter (\<lambda>(k, v). v \<noteq> JUndef) fs))"
| "js_wire v = v"

text \<open>The objects the gateway builds. A delay is a whole number of milliseconds in every configuration used.\<close>

fun event_json :: "execution_event \<Rightarrow> jval" where
  "event_json (E_error rid eid code msg retryable) = JObj [(''type'', JStr ''execution:error''), (''requestId'', JStr rid),
     (''executionId'', JStr eid), (''code'', JStr code), (''message'', JStr msg), (''retryable'', JBool retryable)]"
| "event_json (E_done rid eid exitCode dur metadata) = JObj ([(''type'', JStr ''execution:done''), (''requestId'', JStr rid),
     (''executionId'', JStr eid), (''exitCode'', JNum exitCode), (''durationMs'', JNum dur)] @
     (case metadata of None \<Rightarrow> [] | Some v \<Rightarrow> [(''metadata'', JObj [(''result'', v)])]))"
| "event_json (E_retry rid eid attempt maxAttempts delay msg) = JObj [(''type'', JStr ''execution:retry''),
     (''requestId'', JStr rid), (''executionId'', JStr eid), (''attempt'', JNum attempt),
     (''maxAttempts'', JNum maxAttempts), (''delayMs'', JNum \<lfloor>delay\<rfloor>), (''error'', JStr msg)]"
| "event_json (E_cancelled rid eid reason dur) = JObj [(''type'', JStr ''execution:cancelled''), (''requestId'', JStr rid),
     (''executionId'', JStr eid), (''reason'', JStr reason), (''durationMs'', JNum dur)]"

fun code_name :: "client_error_code \<Rightarrow> string" where
  "code_name EXECUTION_NOT_FOUND = ''EXECUTION_NOT_FOUND''"
| "code_name FORBIDDEN = ''FORBIDDEN''"
| "code_name INVALID_MESSAGE = ''INVALID_MESSAGE''"
| "code_name CANCEL_FAILED = ''CANCEL_FAILED''"

fun client_json :: "client_outbound \<Rightarrow> jval" where
  "client_json (C_connected version connectionId) = JObj [(''type'', JStr ''client:connected''),
     (''protocolVersion'', JStr version), (''connectionId'', JStr connectionId)]"
| "client_json (C_error code msg executionId) = JObj ([(''type'', JStr ''client:error''), (''code'', JStr (code_name code)),
     (''message'', JStr msg)] @ (case executionId of None \<Rightarrow> [] | Some i \<Rightarrow> [(''executionId'', JStr i)]))"
| "client_json (C_event ev) = event_json ev"

definition trace_json :: "trace_context \<Rightarrow> jval" where
  "trace_json t = JObj ([(''traceId'', JStr (tc_traceId t)), (''spanId'', JStr (tc_spanId t))] @
     (case tc_parentId t of None \<Rightarrow> [] | Some p \<Rightarrow> [(''parentId'', JStr p)]))"

fun outbound_json :: "outbound_msg \<Rightarrow> jval" where
  "outbound_json (O_connected version hostId sessionId) = JObj [(''type'', JStr ''connected''),
     (''protocolVersion'', JStr version), (''hostId'', JStr hostId), (''sessionId'', JStr sessionId)]"
| "outbound_json (O_negotiate versions) = JObj [(''type'', JStr ''negotiate''),
     (''supportedVersions'', JArr (map JStr versions))]"
| "outbound_json (O_call rid adapter func args trace) = JObj [(''type'', JStr ''call''), (''requestId'', JStr rid),
     (''adapter'', JStr adapter), (''method'', JStr func), (''args'', JArr args), (''trace'', trace_json trace)]"
| "outbound_json O_ack = JObj [(''type'', JStr ''ack'')]"
| "outbound_json (O_adapter_response rid result) = JObj [(''type'', JStr ''adapter:response''), (''requestId'', JStr rid),
     (''result'', result)]"
| "outbound_json (O_adapter_error rid err) = JObj [(''type'', JStr ''adapter:error''), (''requestId'', rid), (''error'', err)]"

text \<open>\<open>send\<close> of clients/ws-handler.ts and of hosts/ws-handler.ts: the text put on the socket, if any.\<close>

definition send_client :: "bool \<Rightarrow> client_outbound \<Rightarrow> jval option" where
  "send_client is_open msg = (if is_open then Some (js_wire (client_json msg)) else None)"

definition send_host :: "outbound_msg \<Rightarrow> jval" where
  "send_host msg = js_wire (outbound_json msg)"

section \<open>What is sent conforms to the schemas\<close>

definition accepts :: "schema \<Rightarrow> jval \<Rightarrow> bool" where
  "accepts s v \<longleftrightarrow> zod s v \<noteq> None"

definition accepted :: "schema list \<Rightarrow> jval \<Rightarrow> bool" where
  "accepted alts v \<longleftrightarrow> list_ex (\<lambda>s. accepts s v) alts"

lemma accepts_simps [simp]:
  "accepts Z_unknown v"
  "accepts (Z_string ok) v \<longleftrightarrow> (case v of JStr s \<Rightarrow> ok s | _ \<Rightarrow> False)"
  "accepts (Z_number test) v \<longleftrightarrow> (case v of JNum n \<Rightarrow> test n | _ \<Rightarrow> False)"
  "accepts Z_boolean v \<longleftrightarrow> (case v of JBool b \<Rightarrow> True | _ \<Rightarrow> False)"
  "accepts (Z_literal l) v \<longleftrightarrow> v = l"
  "accepts (Z_enum names) v \<longleftrightarrow> (case v of JStr s \<Rightarrow> s \<in> set names | _ \<Rightarrow> False)"
  "accepts (Z_array s) v \<longleftrightarrow> (case v of JArr vs \<Rightarrow> list_all (accepts s) vs | _ \<Rightarrow> False)"
  "accepts (Z_record s) v \<longleftrightarrow> (case v of JObj fs \<Rightarrow> list_all (\<lambda>f. accepts s (snd f)) fs | _ \<Rightarrow> False)"
  "accepts (Z_object shape) v \<longleftrightarrow>
     (case v of JObj fs \<Rightarrow> list_all (\<lambda>f. accepts (snd f) (js_member v (fst f))) shape | _ \<Rightarrow> False)"
  "accepts (Z_optional s) v \<longleftrightarrow> v = JUndef \<or> accepts s v"
  "accepts (Z_default s d) v \<longleftrightarrow> accepts s (if v = JUndef then d else v)"
  by (auto simp: accepts_def parse_all_None zod_members_None list_all_iff case_prod_unfold
      simp del: not_None_eq js_member.simps split: jval.splits if_splits)

fun event_conforms :: "execution_event \<Rightarrow> bool" where
  "event_conforms (E_error _ _ _ _ _) = True"
| "event_conforms (E_done _ _ _ dur _) = (0 \<le> dur)"
| "event_conforms (E_retry _ _ attempt maxAttempts delay _) = (0 < attempt \<and> 0 < maxAttempts \<and> 0 \<le> delay)"
| "event_conforms (E_cancelled _ _ reason dur) = (reason \<in> {''user'', ''timeout'', ''disconnect'', ''system''} \<and> 0 \<le> dur)"

fun client_conforms :: "client_outbound \<Rightarrow> bool" where
  "client_conforms (C_event ev) = event_conforms ev"
| "client_conforms _ = True"

fun outbound_conforms :: "outbound_msg \<Rightarrow> bool" where
  "outbound_conforms (O_adapter_error rid err) = ((\<exists>s. rid = JStr s) \<and> accepts SerializedErrorSchema (js_wire err))"
| "outbound_conforms _ = True"

lemma wire_undefined [simp]: "js_wire v = JUndef \<longleftrightarrow> v = JUndef"
  by (cases v) simp_all

lemma list_all_True [simp]: "list_all (\<lambda>x. True) xs"
  by (simp add: list_all_iff)

lemma event_wire: "accepted ExecutionEventMessage (js_wire (event_json ev)) \<longleftrightarrow> event_conforms ev"
  by (cases ev) (auto simp: accepted_def ExecutionEventMessage_def schema_shapes split: option.splits)

lemma event_not_client:
  "\<not> accepts ClientConnectedSchema (js_wire (event_json ev))" "\<not> accepts ClientErrorSchema (js_wire (event_json ev))"
  by (cases ev; simp add: schema_shapes)+

lemma client_wire: "accepted ClientOutboundMessage (js_wire (client_json m)) \<longleftrightarrow> client_conforms m"
proof (cases m)
  case (C_event ev)
  then show ?thesis
    using event_wire [of ev] event_not_client [of ev] by (simp add: accepted_def ClientOutboundMessage_def)
next
  case (C_error code msg executionId)
  then show ?thesis
    by (cases code) (auto simp: accepted_def ClientOutboundMessage_def ClientErrorSchema_def split: option.split)
qed (simp add: accepted_def ClientOutboundMessage_def ClientConnectedSchema_def)

lemma wire_trace: "accepts TraceContextSchema (js_wire (trace_json t))" "trace_json t \<noteq> JUndef"
  by (auto simp: trace_json_def TraceContextSchema_def split: option.split)

lemmas outbound_shapes = ConnectedMessageSchema_def NegotiateMessageSchema_def CallMessageSchema_def
  BulkRedirectMessageSchema_def AckMessageSchema_def ExecutionOutputSchema_def ExecutionProgressSchema_def
  ExecutionArtifactSchema_def ExecutionErrorEventSchema_def ExecutionDoneSchema_def
  AdapterResponseMessageSchema_def AdapterErrorMessageSchema_def AdapterChunkMessageSchema_def

lemma host_wire: "accepted OutboundMessage (js_wire (outbound_json msg)) \<longleftrightarrow> outbound_conforms msg"
proof (cases msg)
  case (O_call rid adapter func args trace)
  then show ?thesis
    using wire_trace [of trace] by (simp add: accepted_def OutboundMessage_def CallMessageSchema_def list_all_iff)
next
  case (O_adapter_error rid err)
  have "\<not> accepts SerializedErrorSchema JUndef" by (simp add: SerializedErrorSchema_def)
  then show ?thesis
    using O_adapter_error by (cases rid) (auto simp: accepted_def OutboundMessage_def outbound_shapes)
qed (auto simp: accepted_def OutboundMessage_def schema_shapes list_all_iff split: option.split)


text \<open>
  An error a host sends in the shape of \<open>ErrorMessageSchema\<close>, which the listener does not check, can be
  printed: the assumption on hosts under which pending calls are known to have a timer.
\<close>

lemma schema_error_printable:
  assumes "accepts ErrorMessageSchema msg"
  shows "printable (inbound_of ''error'' msg)"
  using assms by (auto simp: ErrorMessageSchema_def printable_def inbound_of_def error_text_def js_nullish_def
      split: jval.splits)

end
