(* ===== verification/Async_Tasks.thy ===== *)
theory Async_Tasks
  imports Host_Registry Auth_Service Adaptive_Buffer
begin

text \<open>
  The \<open>async\<close> functions that touch the cache, as sequences of atomic steps. An \<open>await\<close> lets other
  requests run, so what Host_Registry, Auth_Service and Adaptive_Buffer define as one operation is, in
  the process, several: one step per request to the cache or store and one per piece of synchronous
  code that touches shared memory. A task is such a sequence; \<open>run_task\<close> runs it alone and gives the
  operation as defined there (the lemmas named \<open>_atomic\<close>), \<open>schedule\<close> interleaves two.
\<close>

section \<open>Tasks\<close>

datatype ('st, 'r) task = Done 'r | Step "'st \<Rightarrow> ('st, 'r) task \<times> 'st"

primrec run_task :: "('st, 'r) task \<Rightarrow> 'st \<Rightarrow> 'r \<times> 'st" where
  "run_task (Done r) = (\<lambda>s. (r, s))"
| "run_task (Step f) = (\<lambda>s. case map_prod run_task id (f s) of (g, s') \<Rightarrow> g s')"

lemma run_task_Step [simp]: "run_task (Step f) s = run_task (fst (f s)) (snd (f s))"
  by (simp add: case_prod_unfold Let_def)

declare run_task.simps(2) [simp del]

text \<open>\<open>await\<close> of an action, then the rest of the function on its result.\<close>

definition await :: "('st \<Rightarrow> 'a \<times> 'st) \<Rightarrow> ('a \<Rightarrow> ('st, 'r) task) \<Rightarrow> ('st, 'r) task" where
  "await act rest = Step (\<lambda>s. let (a, s') = act s in (rest a, s'))"

lemma run_task_await [simp]: "run_task (await act rest) s = run_task (rest (fst (act s))) (snd (act s))"
  by (simp add: await_def case_prod_unfold Let_def)

definition resume :: "('st, 'r) task \<Rightarrow> 'st \<Rightarrow> ('st, 'r) task \<times> 'st" where
  "resume p s = (case p of Done r \<Rightarrow> (p, s) | Step f \<Rightarrow> f s)"

lemma resume_simps [simp]:
  "resume (Done r) s = (Done r, s)"
  "resume (await act rest) s = (rest (fst (act s)), snd (act s))"
  by (simp_all add: resume_def await_def case_prod_unfold Let_def)

lemma run_task_resume: "run_task (fst (resume p s)) (snd (resume p s)) = run_task p s"
  by (cases p) (simp_all add: resume_def)

text \<open>Two tasks; a schedule says whose step comes next.\<close>

fun schedule ::
  "bool list \<Rightarrow> ('st, 'a) task \<times> ('st, 'b) task \<times> 'st \<Rightarrow> ('st, 'a) task \<times> ('st, 'b) task \<times> 'st" where
  "schedule [] st = st"
| "schedule (True # bs) (p, q, s) = (let (p', s') = resume p s in schedule bs (p', q, s'))"
| "schedule (False # bs) (p, q, s) = (let (q', s') = resume q s in schedule bs (p, q', s'))"

lemma schedule_simps [simp]:
  "schedule (True # bs) (p, q, s) = schedule bs (fst (resume p s), q, snd (resume p s))"
  "schedule (False # bs) (p, q, s) = schedule bs (p, fst (resume q s), snd (resume q s))"
  by (simp_all add: case_prod_unfold Let_def)

declare schedule.simps(2,3) [simp del]

section \<open>Cache actions\<close>

definition a_get :: "'c cache_ops \<Rightarrow> string \<Rightarrow> 'c \<Rightarrow> cval option \<times> 'c" where
  "a_get C k c = (cget C c k, c)"

definition a_set :: "'c cache_ops \<Rightarrow> string \<Rightarrow> cval \<Rightarrow> int option \<Rightarrow> 'c \<Rightarrow> unit \<times> 'c" where
  "a_set C k v ttl c = ((), cset C c k v ttl)"

definition a_delete :: "'c cache_ops \<Rightarrow> string \<Rightarrow> 'c \<Rightarrow> unit \<times> 'c" where
  "a_delete C k c = ((), cdelete C c k)"

lemmas cache_actions [simp] = a_get_def a_set_def a_delete_def

section \<open>Refresh tokens (store.ts, service.ts)\<close>

definition as_refresh :: "cval option \<Rightarrow> (string \<times> string) option" where
  "as_refresh v = (case v of Some (V_refresh h n) \<Rightarrow> Some (h, n) | _ \<Rightarrow> None)"

definition consume_task ::
  "'c cache_ops \<Rightarrow> (string \<Rightarrow> string) \<Rightarrow> string \<Rightarrow> ((string \<times> string) option \<Rightarrow> ('c, 'r) task) \<Rightarrow> ('c, 'r) task" where
  "consume_task C H token rest =
     await (a_get C (refreshKey (H token))) (\<lambda>v.
       case as_refresh v of
         None \<Rightarrow> rest None
       | Some entry \<Rightarrow> await (a_delete C (refreshKey (H token))) (\<lambda>_. rest (Some entry)))"

definition refresh_task ::
  "'c cache_ops \<Rightarrow> (string \<Rightarrow> string) \<Rightarrow> jose \<Rightarrow> string \<Rightarrow> string \<Rightarrow> string \<Rightarrow> int \<Rightarrow> ('c, token_response option) task" where
  "refresh_task C H J secret refreshToken jti ms =
     (case verifyRefreshToken J secret ms refreshToken of
        None \<Rightarrow> Done None
      | Some _ \<Rightarrow>
          consume_task C H refreshToken (\<lambda>stored.
            case stored of
              None \<Rightarrow> Done None
            | Some (hostId, namespaceId) \<Rightarrow>
                let (accessToken, expiresIn) = signAccessToken J secret hostId namespaceId ''free'' ''machine'' ms;
                    newRefreshToken = signRefreshToken J secret hostId jti ms
                in await (a_set C (refreshKey (H newRefreshToken)) (V_refresh hostId namespaceId) (Some REFRESH_TTL_MS))
                     (\<lambda>_. Done (Some \<lparr>tr_accessToken = accessToken, tr_refreshToken = newRefreshToken,
                        tr_expiresIn = expiresIn, tr_tokenType = ''Bearer''\<rparr>))))"

lemma c_refresh_read: "c_refresh C c k = as_refresh (cget C c k)"
  by (simp add: c_refresh_def as_refresh_def)

lemma refresh_atomic:
  "run_task (refresh_task C H J secret tok jti ms) c = refreshTokens C H J secret tok jti ms c"
  by (simp add: refresh_task_def refreshTokens_def consume_task_def consumeRefreshToken_def c_refresh_read
      issue_pair_def saveRefreshToken_def case_prod_unfold Let_def split: option.split)

section \<open>Buffered calls (adaptive.ts)\<close>

definition as_calls :: "cval option \<Rightarrow> buffered_call list" where
  "as_calls v = (case v of Some (V_calls xs) \<Rightarrow> xs | _ \<Rightarrow> [])"

text \<open>\<open>True\<close> when the call was stored, \<open>False\<close> for \<open>HOST_BUFFER_FULL\<close>.\<close>

definition enqueue_task ::
  "'c cache_ops \<Rightarrow> buffer_policy \<Rightarrow> string \<Rightarrow> buffered_call \<Rightarrow> rat \<Rightarrow> ('c, bool) task" where
  "enqueue_task C p hostId call load =
     await (a_get C (bufferKey hostId)) (\<lambda>v.
       if length (as_calls v) \<ge> maxSize p then Done False
       else await (a_set C (bufferKey hostId) (V_calls (as_calls v @ [call])) (Some (ttlFor p load)))
              (\<lambda>_. Done True))"

definition flush_task :: "'c cache_ops \<Rightarrow> string \<Rightarrow> ('c, buffered_call list) task" where
  "flush_task C hostId =
     await (a_get C (bufferKey hostId)) (\<lambda>v. await (a_delete C (bufferKey hostId)) (\<lambda>_. Done (as_calls v)))"

lemma calls_read: "or_else (c_calls C c k) [] = as_calls (cget C c k)"
  by (simp add: c_calls_def as_calls_def split: option.split cval.split)

lemma enqueue_atomic:
  "run_task (enqueue_task C p h call load) c =
     (case buffer_enqueue C p h call load c of Inl e \<Rightarrow> (False, c) | Inr c' \<Rightarrow> (True, c'))"
  by (simp add: enqueue_task_def buffer_enqueue_def calls_read Let_def)

lemma flush_atomic: "run_task (flush_task C h) c = buffer_flush C h c"
  by (simp add: flush_task_def buffer_flush_def calls_read Let_def)

section \<open>Hosts (registry.ts, ws-handler.ts)\<close>

text \<open>Cache actions on the cache of the registry.\<close>

definition on_cache :: "('c \<Rightarrow> 'a \<times> 'c) \<Rightarrow> ('c, 's) host_registry \<Rightarrow> 'a \<times> ('c, 's) host_registry" where
  "on_cache act r = (let (a, c) = act (gr_cache r) in (a, r\<lparr>gr_cache := c\<rparr>))"

definition run_sync :: "('st \<Rightarrow> 'st) \<Rightarrow> 'st \<Rightarrow> unit \<times> 'st" where
  "run_sync f s = ((), f s)"

lemma on_cache_simps [simp]:
  "fst (on_cache act r) = fst (act (gr_cache r))"
  "snd (on_cache act r) = r\<lparr>gr_cache := snd (act (gr_cache r))\<rparr>"
  by (simp_all add: on_cache_def case_prod_unfold Let_def)

lemma run_sync_simps [simp]: "fst (run_sync f s) = ()" "snd (run_sync f s) = f s"
  by (simp_all add: run_sync_def)

definition as_host :: "cval option \<Rightarrow> host_descriptor option" where
  "as_host v = (case v of Some (V_host d) \<Rightarrow> Some d | _ \<Rightarrow> None)"

definition setOnline_task ::
  "'c cache_ops \<Rightarrow> 's store_ops option \<Rightarrow> string \<Rightarrow> string \<Rightarrow> string \<Rightarrow> int \<Rightarrow> (('c, 's) host_registry, unit) task" where
  "setOnline_task C St hostId namespaceId connectionId now =
     await (on_cache (a_get C (hostKey namespaceId hostId))) (\<lambda>v.
       case as_host v of
         None \<Rightarrow> Done ()
       | Some host \<Rightarrow>
           let updated = host\<lparr>hd_status := Online, hd_lastSeen := now, hd_connections := [connectionId]\<rparr>
           in await (run_sync (clear_grace (graceKey namespaceId hostId))) (\<lambda>_.
              await (on_cache (a_set C (hostKey namespaceId hostId) (V_host updated) None)) (\<lambda>_.
              await (run_sync (reg_store_save St updated now)) Done)))"

definition setOffline_task ::
  "'c cache_ops \<Rightarrow> 's store_ops option \<Rightarrow> string \<Rightarrow> string \<Rightarrow> string \<Rightarrow> int \<Rightarrow> (('c, 's) host_registry, unit) task" where
  "setOffline_task C St hostId namespaceId connectionId now =
     await (on_cache (a_get C (hostKey namespaceId hostId))) (\<lambda>v.
       case as_host v of
         None \<Rightarrow> Done ()
       | Some host \<Rightarrow>
           let connections = filter (\<lambda>c. c \<noteq> connectionId) (hd_connections host)
           in if connections \<noteq> []
              then await (on_cache (a_set C (hostKey namespaceId hostId) (V_host (host\<lparr>hd_status := Online,
                     hd_lastSeen := now, hd_connections := connections\<rparr>)) None)) Done
              else let reconnecting = host\<lparr>hd_status := Reconnecting, hd_lastSeen := now, hd_connections := []\<rparr>
                in await (on_cache (a_set C (hostKey namespaceId hostId) (V_host reconnecting) None)) (\<lambda>_.
                   await (run_sync (reg_store_save St reconnecting now)) (\<lambda>_.
                   await (run_sync (arm_grace hostId namespaceId)) Done)))"

definition heartbeat_task ::
  "'c cache_ops \<Rightarrow> string \<Rightarrow> string \<Rightarrow> int \<Rightarrow> (('c, 's) host_registry, unit) task" where
  "heartbeat_task C hostId namespaceId now =
     await (on_cache (a_get C (hostKey namespaceId hostId))) (\<lambda>v.
       case as_host v of
         None \<Rightarrow> Done ()
       | Some host \<Rightarrow> await (on_cache (a_set C (hostKey namespaceId hostId) (V_host (host\<lparr>hd_lastSeen := now\<rparr>)) None)) Done)"

definition add_to_list_task ::
  "'c cache_ops \<Rightarrow> string \<Rightarrow> string \<Rightarrow> (('c, 's) host_registry, 'r) task \<Rightarrow> (('c, 's) host_registry, 'r) task" where
  "add_to_list_task C k x rest =
     await (on_cache (a_get C k)) (\<lambda>v.
       let xs = (case v of Some (V_strings xs) \<Rightarrow> xs | _ \<Rightarrow> [])
       in if x \<in> set xs then rest else await (on_cache (a_set C k (V_strings (xs @ [x])) None)) (\<lambda>_. rest))"

definition addToIndex_task ::
  "'c cache_ops \<Rightarrow> string \<Rightarrow> string \<Rightarrow> (('c, 's) host_registry, unit) task" where
  "addToIndex_task C namespaceId hostId =
     add_to_list_task C (indexKey namespaceId) hostId (add_to_list_task C namespacesKey namespaceId (Done ()))"

lemma host_read: "getFromCache C h n r = as_host (cget C (gr_cache r) (hostKey n h))"
  by (simp add: getFromCache_def c_host_def as_host_def)

lemma reg_set_cache: "reg_set C k v r = r\<lparr>gr_cache := cset C (gr_cache r) k v None\<rparr>"
  by (simp add: reg_set_def)

lemma setOnline_atomic: "run_task (setOnline_task C St h n conn now) r = ((), setOnline C St h n conn now r)"
  by (simp add: setOnline_task_def setOnline_def host_read reg_set_cache Let_def split: option.split)

lemma setOffline_atomic: "run_task (setOffline_task C St h n conn now) r = ((), setOffline C St h n conn now r)"
  by (simp add: setOffline_task_def setOffline_def host_read reg_set_cache Let_def split: option.split)

lemma heartbeat_atomic: "run_task (heartbeat_task C h n now) r = ((), heartbeat C h n now r)"
  by (simp add: heartbeat_task_def heartbeat_def host_read reg_set_cache Let_def split: option.split)

lemma add_to_list_atomic: "run_task (add_to_list_task C k x rest) r = run_task rest (add_to_list C k x r)"
  by (auto simp: add_to_list_task_def add_to_list_def index_list_def c_strings_def reg_set_cache Let_def
      split: option.split cval.split)

lemma addToIndex_atomic: "run_task (addToIndex_task C n h) r = ((), addToIndex C n h r)"
  by (simp add: addToIndex_task_def addToIndex_def add_to_list_atomic)

end
