(* ===== verification/Async_Races.thy ===== *)
theory Async_Races
  imports Async_Tasks Host_Lifecycle Auth_Properties
begin

text \<open>
  What interleaving the steps of two tasks (Async_Tasks) can change. Tasks that touch different keys
  of the cache cannot disturb each other under any schedule, so treating each operation as one atomic
  step is right as far as different hosts and tokens go; two tasks on the same key can, and the
  section on races shows where the gateway's promises break.
\<close>

section \<open>Tasks on separate keys\<close>

definition agree :: "('st \<Rightarrow> string \<Rightarrow> cval option) \<Rightarrow> string set \<Rightarrow> 'st \<Rightarrow> 'st \<Rightarrow> bool" where
  "agree view K s s' \<longleftrightarrow> (\<forall>k\<in>K. view s k = view s' k)"

text \<open>A step that reads and writes only the keys in \<open>K\<close> of what \<open>view\<close> shows of the state.\<close>

definition local_step :: "('st \<Rightarrow> string \<Rightarrow> cval option) \<Rightarrow> string set \<Rightarrow> ('st \<Rightarrow> 'a \<times> 'st) \<Rightarrow> bool" where
  "local_step view K f \<longleftrightarrow>
     (\<forall>s s'. agree view K s s' \<longrightarrow> fst (f s) = fst (f s') \<and> agree view K (snd (f s)) (snd (f s'))) \<and>
     (\<forall>s. agree view (- K) (snd (f s)) s)"

inductive local_task :: "('st \<Rightarrow> string \<Rightarrow> cval option) \<Rightarrow> string set \<Rightarrow> ('st, 'r) task \<Rightarrow> bool"
  for view :: "'st \<Rightarrow> string \<Rightarrow> cval option" and K :: "string set" where
  "local_task view K (Done r)"
| "local_step view K f \<Longrightarrow> (\<And>s. local_task view K (fst (f s))) \<Longrightarrow> local_task view K (Step f)"

inductive_cases local_StepE: "local_task view K (Step f)"

lemma local_await:
  assumes "local_step view K act" "\<And>a. local_task view K (rest a)"
  shows "local_task view K (await act rest)"
  unfolding await_def
proof (rule local_task.intros(2))
  show "local_step view K (\<lambda>s. let (a, s') = act s in (rest a, s'))"
    using assms(1) by (simp add: local_step_def case_prod_unfold Let_def)
qed (simp add: assms(2) case_prod_unfold Let_def)

lemma agree_refl [simp]: "agree view K s s"
  by (simp add: agree_def)

lemma agree_sub: "agree view K s s' \<Longrightarrow> L \<subseteq> K \<Longrightarrow> agree view L s s'"
  by (auto simp: agree_def)

lemma agree_trans: "agree view K s s' \<Longrightarrow> agree view K s' s'' \<Longrightarrow> agree view K s s''"
  by (simp add: agree_def)

lemma local_resume:
  assumes "local_task view K p" "agree view K s t"
  shows "fst (resume p s) = fst (resume p t)" "agree view K (snd (resume p s)) (snd (resume p t))"
    "local_task view K (fst (resume p s))" "agree view (- K) (snd (resume p s)) s"
  using assms by (auto simp: resume_def local_step_def intro: local_task.intros
      split: task.split elim!: local_StepE)

text \<open>Each task ends as if it had run alone; nothing else changes.\<close>

lemma isolated_from:
  assumes "local_task view K p" "local_task view L q" "K \<inter> L = {}"
    and "agree view K s sp" "agree view L s sq"
    and "schedule bs (p, q, s) = (Done a, Done b, s')"
  shows "a = fst (run_task p sp) \<and> b = fst (run_task q sq) \<and>
    agree view K s' (snd (run_task p sp)) \<and> agree view L s' (snd (run_task q sq)) \<and>
    agree view (- (K \<union> L)) s' s"
  using assms
proof (induction bs arbitrary: p q s sp sq)
  case Nil
  then show ?case by simp
next
  case (Cons t bs)
  have out: "L \<subseteq> - K" "K \<subseteq> - L" "- (K \<union> L) \<subseteq> - K" "- (K \<union> L) \<subseteq> - L" using Cons.prems(3) by auto
  show ?case
  proof (cases t)
    case True
    note r = local_resume [OF Cons.prems(1,4)]
    have p: "local_task view K (fst (resume p s))" "agree view K (snd (resume p s)) (snd (resume p sp))"
      "agree view L (snd (resume p s)) sq"
      using r(2,3) agree_trans [OF agree_sub [OF r(4) out(1)] Cons.prems(5)] by blast+
    have "schedule bs (fst (resume p s), q, snd (resume p s)) = (Done a, Done b, s')"
      using Cons.prems(6) True by simp
    from Cons.IH [OF p(1) Cons.prems(2,3) p(2,3) this] r(1) agree_sub [OF r(4) out(3)]
    show ?thesis by (metis agree_trans run_task_resume)
  next
    case False
    note r = local_resume [OF Cons.prems(2,5)]
    have q: "local_task view L (fst (resume q s))" "agree view L (snd (resume q s)) (snd (resume q sq))"
      "agree view K (snd (resume q s)) sp"
      using r(2,3) agree_trans [OF agree_sub [OF r(4) out(2)] Cons.prems(4)] by blast+
    have "schedule bs (p, fst (resume q s), snd (resume q s)) = (Done a, Done b, s')"
      using Cons.prems(6) False by simp
    from Cons.IH [OF Cons.prems(1) q(1) Cons.prems(3) q(3,2) this] r(1) agree_sub [OF r(4) out(4)]
    show ?thesis by (metis agree_trans run_task_resume)
  qed
qed

lemmas isolated = isolated_from [OF _ _ _ agree_refl agree_refl]

section \<open>The tasks of the gateway are local\<close>

abbreviation reg_view :: "'c cache_ops \<Rightarrow> ('c, 's) host_registry \<Rightarrow> string \<Rightarrow> cval option" where
  "reg_view C r \<equiv> cget C (gr_cache r)"

lemma local_run_sync:
  "(\<And>r. gr_cache (f r) = gr_cache r) \<Longrightarrow> local_step (reg_view C) K (run_sync f)"
  by (simp add: local_step_def agree_def)

lemma sync_keeps_cache:
  "gr_cache (clear_grace k r) = gr_cache r" "gr_cache (arm_grace h n r) = gr_cache r"
  "gr_cache (reg_store_save St d now r) = gr_cache r"
  by (simp_all add: clear_grace_def arm_grace_def reg_store_save_def Let_def split: option.split)

context icache
begin

lemma local_cache:
  "k \<in> K \<Longrightarrow> local_step (cget C) K (a_get C k)"
  "k \<in> K \<Longrightarrow> local_step (cget C) K (a_set C k v ttl)"
  "k \<in> K \<Longrightarrow> local_step (cget C) K (a_delete C k)"
  by (auto simp: local_step_def agree_def get_set get_delete)

lemma local_registry:
  "k \<in> K \<Longrightarrow> local_step (reg_view C) K (on_cache (a_get C k))"
  "k \<in> K \<Longrightarrow> local_step (reg_view C) K (on_cache (a_set C k v ttl))"
  by (auto simp: local_step_def agree_def get_set)

lemmas local_rules = local_task.intros(1) local_await local_cache local_registry
  local_run_sync [OF sync_keeps_cache(1)] local_run_sync [OF sync_keeps_cache(2)]
  local_run_sync [OF sync_keeps_cache(3)]

lemma local_setOnline: "local_task (reg_view C) {hostKey n h} (setOnline_task C St h n conn now)"
  by (auto simp: setOnline_task_def Let_def split: option.split intro!: local_rules)

lemma local_setOffline: "local_task (reg_view C) {hostKey n h} (setOffline_task C St h n conn now)"
  by (auto simp: setOffline_task_def Let_def split: option.split intro!: local_rules)

lemma local_heartbeat: "local_task (reg_view C) {hostKey n h} (heartbeat_task C h n now)"
  by (auto simp: heartbeat_task_def Let_def split: option.split intro!: local_rules)

end

section \<open>Races\<close>

text \<open>
  Two calls enqueued for the same host at the same time: both succeed and the first is lost. A call
  enqueued while the buffer is flushed brings the flushed calls back, to be sent again.
\<close>

lemma enqueue_race:
  assumes "icache C" "length (buffered C c h) < maxSize p"
  shows "let st = schedule [True, False, True, False] (enqueue_task C p h x l, enqueue_task C p h y m, c)
    in fst st = Done True \<and> fst (snd st) = Done True \<and>
    buffered C (snd (snd st)) h = buffered C c h @ [y]"
  using assms(2) by (simp add: Let_def enqueue_task_def buffered_def calls_read icache.cache_simps [OF assms(1)])
    (simp add: as_calls_def)

lemma flush_race:
  assumes "icache C" "length (buffered C c h) < maxSize p"
  shows "let st = schedule [True, False, False, True] (enqueue_task C p h x l, flush_task C h, c)
    in fst (snd st) = Done (buffered C c h) \<and> buffered C (snd (snd st)) h = buffered C c h @ [x]"
  using assms(2) by (simp add: Let_def enqueue_task_def flush_task_def buffered_def calls_read icache.cache_simps [OF assms(1)])
    (simp add: as_calls_def)

text \<open>Two hosts entered in the index of a namespace at the same time: the first is not listed.\<close>

lemma index_race:
  assumes "icache C" "a \<notin> set (index_list C (indexKey n) r)" "b \<notin> set (index_list C (indexKey n) r)" "a \<noteq> b"
  shows "let st = schedule [True, False, True, False] (addToIndex_task C n a, addToIndex_task C n b, r)
    in a \<notin> set (index_list C (indexKey n) (snd (snd st))) \<and> b \<in> set (index_list C (indexKey n) (snd (snd st)))"
  using assms(2-4) by (simp add: Let_def addToIndex_task_def add_to_list_task_def index_list_def c_strings_def
      icache.cache_simps [OF assms(1)] split: option.splits cval.splits)

section \<open>Properties\<close>

datatype host_op = Op_online string int | Op_offline string int | Op_heartbeat int

definition host_task ::
  "'c cache_ops \<Rightarrow> 's store_ops option \<Rightarrow> string \<Rightarrow> string \<Rightarrow> host_op \<Rightarrow> (('c, 's) host_registry, unit) task" where
  "host_task C St h n op = (case op of
       Op_online conn now \<Rightarrow> setOnline_task C St h n conn now
     | Op_offline conn now \<Rightarrow> setOffline_task C St h n conn now
     | Op_heartbeat now \<Rightarrow> heartbeat_task C h n now)"

definition host_effect ::
  "'c cache_ops \<Rightarrow> 's store_ops option \<Rightarrow> string \<Rightarrow> string \<Rightarrow> host_op \<Rightarrow> ('c, 's) host_registry \<Rightarrow> ('c, 's) host_registry" where
  "host_effect C St h n op = (case op of
       Op_online conn now \<Rightarrow> setOnline C St h n conn now
     | Op_offline conn now \<Rightarrow> setOffline C St h n conn now
     | Op_heartbeat now \<Rightarrow> heartbeat C h n now)"

lemma host_task_local: "icache C \<Longrightarrow> local_task (reg_view C) {hostKey n h} (host_task C St h n op)"
  by (cases op) (simp_all add: host_task_def icache.local_setOnline icache.local_setOffline icache.local_heartbeat)

lemma host_task_atomic: "run_task (host_task C St h n op) r = ((), host_effect C St h n op r)"
  by (cases op) (simp_all add: host_task_def host_effect_def setOnline_atomic setOffline_atomic heartbeat_atomic)



text \<open>
  A host that reconnects while its old connection is being closed is lost. One after the other, in
  either order, \<open>setOnline\<close> of the new connection and \<open>setOffline\<close> of the old one leave the host online
  on the new connection. If both read the cache before either writes, the host ends up reconnecting
  without a connection, although it is connected, and the grace timer then takes it offline.
\<close>

theorem reconnect_race:
  fixes r :: "('c, 's) host_registry" and St :: "'s store_ops option" and new :: string and
    now1 now2 :: int
  assumes "icache C" "getFromCache C h n r = Some d" "hd_connections d = [old]" "new \<noteq> old"
  defines "on \<equiv> setOnline_task C St h n new now1" and "off \<equiv> setOffline_task C St h n old now2"
  shows "(\<exists>r' t. schedule [True, False, True, True, True, False, False, False] (on, off, r) = (Done (), Done (), r') \<and>
      getFromCache C h n r' = Some (d\<lparr>hd_status := Reconnecting, hd_lastSeen := now2, hd_connections := []\<rparr>) \<and>
      getFromCache C h n (grace_expires C St t now3 r') =
        Some (d\<lparr>hd_status := Offline, hd_lastSeen := now3, hd_connections := []\<rparr>)) \<and>
    (\<exists>d'. getFromCache C h n (setOffline C St h n old now2 (setOnline C St h n new now1 r)) = Some d' \<and>
       hd_status d' = Online \<and> hd_connections d' = [new]) \<and>
    (\<exists>d'. getFromCache C h n (setOnline C St h n new now1 (setOffline C St h n old now2 r)) = Some d' \<and>
       hd_status d' = Online \<and> hd_connections d' = [new])"
proof -
  have d: "as_host (cget C (gr_cache r) (hostKey n h)) = Some d" using assms(2) by (simp add: host_read)
  note simps = icache.cache_simps [OF assms(1)] sync_keeps_cache
  let ?r = "snd (snd (schedule [True, False, True, True, True, False, False, False] (on, off, r)))"
  have s: "schedule [True, False, True, True, True, False, False, False] (on, off, r) = (Done (), Done (), ?r)"
    using assms(3) by (simp add: on_def off_def setOnline_task_def setOffline_task_def d Let_def)
  have "getFromCache C h n ?r = Some (d\<lparr>hd_status := Reconnecting, hd_lastSeen := now2, hd_connections := []\<rparr>) \<and>
      (\<exists>t. jm_get (gr_armed ?r) t = Some (h, n))"
    using assms(3) by (auto simp: on_def off_def setOnline_task_def setOffline_task_def d Let_def getFromCache_def simps
        arm_grace_def)
  then obtain t where t: "getFromCache C h n ?r = Some (d\<lparr>hd_status := Reconnecting, hd_lastSeen := now2, hd_connections := []\<rparr>)"
    "jm_get (gr_armed ?r) t = Some (h, n)" by blast
  then have "getFromCache C h n (grace_expires C St t now3 ?r) =
      Some (d\<lparr>hd_status := Offline, hd_lastSeen := now3, hd_connections := []\<rparr>)"
    by (simp add: grace_expires_def Let_def getFromCache_def reg_set_def simps)
  moreover have "\<exists>d'. getFromCache C h n (setOffline C St h n old now2 (setOnline C St h n new now1 r)) = Some d' \<and>
       hd_status d' = Online \<and> hd_connections d' = [new]"
    using assms(2,4) by (simp add: setOnline_def setOffline_def getFromCache_def reg_set_def Let_def simps)
  moreover have "\<exists>d'. getFromCache C h n (setOnline C St h n new now1 (setOffline C St h n old now2 r)) = Some d' \<and>
       hd_status d' = Online \<and> hd_connections d' = [new]"
    using assms(2,3) by (simp add: setOnline_def setOffline_def getFromCache_def reg_set_def Let_def simps)
  ultimately show ?thesis using s t(1) by blast
qed

lemma reconnect_race_witness:
  "\<exists>r'. schedule [True, False, True, True, True, False, False, False]
     (setOnline_task mem_cache (Some sqlite_ops) ''h'' ''n'' ''c2'' 5,
      setOffline_task mem_cache (Some sqlite_ops) ''h'' ''n'' ''c1'' 6, fresh_online) = (Done (), Done (), r') \<and>
     map_option hd_status (getFromCache mem_cache ''h'' ''n'' r') = Some Reconnecting"
proof -
  have "hd_connections fresh_host = [''c1'']" "''c2'' \<noteq> ''c1''" by (simp_all add: fresh_host_def)
  from reconnect_race [OF mem.icache_axioms fresh_online_get this, of "Some sqlite_ops" 5 6] show ?thesis by fastforce
qed

text \<open>
  C40: a refresh token can be spent twice. One after the other, the second of two requests with the same
  refresh token is refused. If both read the cache before either deletes the token, both are answered
  with a new pair, and both new refresh tokens are stored and valid: reading and deleting the token are
  two requests to the cache.
\<close>

theorem refresh_token_spent_twice:
  fixes H :: "string \<Rightarrow> string" and J :: jose and k h t j1 j2 :: string and ms :: int and c :: 'c
  assumes "icache C" "verifyRefreshToken J k ms t \<noteq> None" "c_refresh C c (refreshKey (H t)) = Some (h, n)"
  defines "t1 \<equiv> signRefreshToken J k h j1 ms" and "t2 \<equiv> signRefreshToken J k h j2 ms"
  assumes "H t1 \<noteq> H t2" "H t \<noteq> H t1" "H t \<noteq> H t2"
  shows "(\<exists>a b c'. schedule [True, False, True, False, True, False]
        (refresh_task C H J k t j1 ms, refresh_task C H J k t j2 ms, c) = (Done (Some a), Done (Some b), c') \<and>
      tr_refreshToken a = t1 \<and> c_refresh C c' (refreshKey (H t1)) = Some (h, n) \<and>
      tr_refreshToken b = t2 \<and> c_refresh C c' (refreshKey (H t2)) = Some (h, n)) \<and>
    fst (refreshTokens C H J k t j1 ms c) \<noteq> None \<and>
    fst (refreshTokens C H J k t j2 ms (snd (refreshTokens C H J k t j1 ms c))) = None"
proof -
  obtain hid where v: "verifyRefreshToken J k ms t = Some hid" using assms(2) by blast
  have e: "as_refresh (cget C c (refreshKey (H t))) = Some (h, n)" using assms(3) by (simp add: c_refresh_read)
  note simps = icache.cache_simps [OF assms(1)]
  have "\<exists>a b c'. schedule [True, False, True, False, True, False]
        (refresh_task C H J k t j1 ms, refresh_task C H J k t j2 ms, c) = (Done (Some a), Done (Some b), c') \<and>
      tr_refreshToken a = t1 \<and> c_refresh C c' (refreshKey (H t1)) = Some (h, n) \<and>
      tr_refreshToken b = t2 \<and> c_refresh C c' (refreshKey (H t2)) = Some (h, n)"
    using assms(6) by (simp add: refresh_task_def v consume_task_def e Let_def case_prod_unfold simps
        t1_def [symmetric] t2_def [symmetric])
  moreover have "fst (refreshTokens C H J k t j1 ms c) \<noteq> None \<and>
      fst (refreshTokens C H J k t j2 ms (snd (refreshTokens C H J k t j1 ms c))) = None"
    using assms(3,7) by (simp add: refreshTokens_def v consumeRefreshToken_def issue_pair_result saveRefreshToken_def simps
        t1_def [symmetric])
  ultimately show ?thesis by blast
qed

lemma refresh_tokens_differ:
  assumes "jose_laws J" "signRefreshToken J k h j ms = signRefreshToken J k h j' ms'"
  shows "j = j'"
proof -
  let ?now = "min (seconds ms) (seconds ms')"
  have "jwt_verify J k ?now (signRefreshToken J k h j ms) = Some (refresh_payload h j (seconds ms))"
    "jwt_verify J k ?now (signRefreshToken J k h j' ms') = Some (refresh_payload h j' (seconds ms'))"
    by (simp_all add: signRefreshToken_def verify_signed [OF assms(1)] not_expired_def refresh_payload_def
        REFRESH_TOKEN_TTL_def)
  with assms(2) show ?thesis by (simp add: refresh_payload_def)
qed

lemma refresh_token_spent_twice_witness:
  "\<exists>a b c'. schedule [True, False, True, False, True, False]
     (refresh_task mem_cache id plain_jose ''key'' (signRefreshToken plain_jose ''key'' ''h'' ''j0'' 0) ''j1'' 1000,
      refresh_task mem_cache id plain_jose ''key'' (signRefreshToken plain_jose ''key'' ''h'' ''j0'' 0) ''j2'' 1000,
      saveRefreshToken mem_cache id (signRefreshToken plain_jose ''key'' ''h'' ''j0'' 0) ''h'' ''n'' []) =
     (Done (Some a), Done (Some b), c')"
proof -
  let ?t = "signRefreshToken plain_jose ''key'' ''h''"
  have v: "verifyRefreshToken plain_jose ''key'' 1000 (?t ''j0'' 0) \<noteq> None"
    by (simp add: verify_refresh [OF plain_jose_laws] seconds_def REFRESH_TOKEN_TTL_def)
  have c: "c_refresh mem_cache (saveRefreshToken mem_cache id (?t ''j0'' 0) ''h'' ''n'' []) (refreshKey (id (?t ''j0'' 0))) =
      Some (''h'', ''n'')"
    by (simp add: saveRefreshToken_def mem.read_over_set)
  have "id (?t ''j1'' 1000) \<noteq> id (?t ''j2'' 1000)" "id (?t ''j0'' 0) \<noteq> id (?t ''j1'' 1000)"
    "id (?t ''j0'' 0) \<noteq> id (?t ''j2'' 1000)"
    by (auto dest: refresh_tokens_differ [OF plain_jose_laws])
  from refresh_token_spent_twice [OF mem.icache_axioms v c this] show ?thesis by blast
qed

end
