(* ===== verification/Gateway_System.thy ===== *)
theory Gateway_System
  imports End_To_End Server_Routes
begin

text \<open>
  The gateway process as one transition system. Its state is everything the modules share
  (\<open>host_world\<close>) and the closures of what is in progress: the WebSocket connections of observer
  clients and hosts and the execute requests, each with the variables its listeners capture. A step is
  one task of the event loop: a handler of a route, a listener of a WebSocket or a timer, as defined
  in the theories of the components, under the guards that make it run. The properties are in
  System_Properties.

  What the outside decides is an argument of a step: request bodies, messages, times, whether
  \<open>send\<close> throws, which sockets are open. UUIDs are arguments and are never used twice
  (\<open>randomUUID\<close>); a WebSocket gets the next number. A race both of whose sides are decided may
  settle either way and at any later time, which allows more than the event loop does.
\<close>

section \<open>State\<close>

text \<open>\<open>authContext\<close>, \<open>connectionId\<close> and \<open>socket\<close> of \<open>clientWsHandler\<close>.\<close>

record client_session =
  cl_connectionId :: string
  cl_namespaceId :: "string option"
  cl_open :: bool

text \<open>
  A run of \<open>wsHandler\<close> and how far it is: the hello was accepted; the descriptor is ensured; the host is
  set online; the connection is registered with the dispatcher; the listeners are installed. Each phase
  ends at an \<open>await\<close>. The listeners come after the last one: until then the socket may close
  unnoticed and its messages are dropped. \<open>hc_alive\<close> says whether the socket is open.
\<close>

datatype host_phase = HP_accepted | HP_prepared | HP_online | HP_registered | HP_listening | HP_closed

definition connecting :: "host_phase \<Rightarrow> bool" where
  "connecting phase \<longleftrightarrow> phase \<in> {HP_accepted, HP_prepared, HP_online, HP_registered}"

record host_conn =
  hc_session :: host_session
  hc_protocolVersion :: string
  hc_helloCaps :: "string list"
  hc_capabilities :: "host_capability list"
  hc_phase :: host_phase
  hc_alive :: bool

text \<open>
  A run of the execute handler that got past the dispatch. \<open>ru_call\<close> is what \<open>call\<close> gave, a
  message it threw or the request id of its promise; \<open>ru_socket\<close> is the socket it chose.
\<close>

record execution_run =
  ru_requestId :: string
  ru_namespaceId :: string
  ru_hostId :: string
  ru_request :: execute_request
  ru_signal :: nat
  ru_call :: "string + string"
  ru_socket :: "sock option"
  ru_done :: bool
  ru_events :: "execution_event list"

record ('c, 's) system =
  sy_world :: "('c, 's) host_world"
  sy_clients :: "(sock, client_session) jsmap"
  sy_hosts :: "(sock, host_conn) jsmap"
  sy_runs :: "(string, execution_run) jsmap"
  sy_nextSocket :: sock
  sy_log :: "(sock \<times> string \<times> execution_event) list"
    \<comment> \<open>what was sent to observers, with the execution it belongs to\<close>

text \<open>What the process is started with.\<close>

record ('c, 's) deployment =
  dp_cache :: "'c cache_ops"
  dp_store :: "'s store_ops option"
  dp_jose :: jose
  dp_hash :: "string \<Rightarrow> string"
  dp_secret :: string
  dp_internalSecret :: "string option"
  dp_is_uuid :: "string \<Rightarrow> bool"

definition sy_gateway :: "('c, 's) system \<Rightarrow> gateway_state" where
  "sy_gateway s = hw_gateway (sy_world s)"

definition sy_cache :: "('c, 's) system \<Rightarrow> 'c" where
  "sy_cache s = gr_cache (hw_registry (sy_world s))"

definition set_gateway :: "gateway_state \<Rightarrow> ('c, 's) system \<Rightarrow> ('c, 's) system" where
  "set_gateway g s = s\<lparr>sy_world := (sy_world s)\<lparr>hw_gateway := g\<rparr>\<rparr>"

definition set_registry :: "('c, 's) host_registry \<Rightarrow> ('c, 's) system \<Rightarrow> ('c, 's) system" where
  "set_registry r s = s\<lparr>sy_world := (sy_world s)\<lparr>hw_registry := r\<rparr>\<rparr>"

definition set_host :: "sock \<Rightarrow> host_conn \<Rightarrow> ('c, 's) system \<Rightarrow> ('c, 's) system" where
  "set_host sk hc s = s\<lparr>sy_hosts := jm_set (sy_hosts s) sk hc\<rparr>"

text \<open>\<open>createServer\<close> on a restored registry: nothing connected, nothing running.\<close>

definition start_system :: "('c, 's) host_registry \<Rightarrow> ('c, 's) system" where
  "start_system r =
     \<lparr>sy_world = \<lparr>hw_gateway = \<lparr>gs_disp = init_dispatcher, gs_exec = init_exec_registry,
          gs_subs = init_sub_registry\<rparr>, hw_registry = r\<rparr>,
      sy_clients = [], sy_hosts = [], sy_runs = [], sy_nextSocket = 0, sy_log = []\<rparr>"

section \<open>Observer clients\<close>

definition sys_client_connect ::
  "string \<Rightarrow> string option \<Rightarrow> ('c, 's) system \<Rightarrow> ('c, 's) system" where
  "sys_client_connect conn ns s =
     (let sk = sy_nextSocket s
      in (set_gateway (snd (client_connected conn sk (sy_gateway s))) s)
           \<lparr>sy_clients := jm_set (sy_clients s) sk \<lparr>cl_connectionId = conn, cl_namespaceId = ns, cl_open = True\<rparr>,
            sy_nextSocket := Suc sk\<rparr>)"

definition sys_client_close :: "sock \<Rightarrow> client_session \<Rightarrow> ('c, 's) system \<Rightarrow> ('c, 's) system" where
  "sys_client_close sk cl s =
     (set_gateway (client_closed (cl_connectionId cl) (sy_gateway s)) s)
       \<lparr>sy_clients := jm_set (sy_clients s) sk (cl\<lparr>cl_open := False\<rparr>)\<rparr>"

section \<open>Executions\<close>

text \<open>
  The execute handler up to its first \<open>await\<close>: it registers the execution and, in the same task,
  makes the first attempt (without a retry configuration the only one).
\<close>

definition sys_execute ::
  "auth_context \<Rightarrow> jval \<Rightarrow> string \<Rightarrow> string \<Rightarrow> string \<Rightarrow> trace_context \<Rightarrow> string option \<Rightarrow> int \<Rightarrow>
     ('c, 's) system \<Rightarrow> execute_reply \<times> ('c, 's) system" where
  "sys_execute ctx body eid rid callId trace send_throws now s =
     (case execute_start (Some ctx) body eid rid now (sy_gateway s) of
        (XR_streaming signal hostId, g) \<Rightarrow>
          let ns = the (ac_namespaceId ctx);
              req = the (parse_execute_request body);
              (call, d) = execute_dispatch ns hostId req eid rid callId trace send_throws (gs_disp g)
          in (XR_streaming signal hostId,
              (set_gateway (g\<lparr>gs_disp := d\<rparr>) s)
                \<lparr>sy_runs := jm_set (sy_runs s) eid
                   \<lparr>ru_requestId = rid, ru_namespaceId = ns, ru_hostId = hostId, ru_request = req,
                    ru_signal = signal, ru_call = call, ru_socket = socket_of (gs_disp g) ns hostId,
                    ru_done = False, ru_events = []\<rparr>\<rparr>)
      | (reply, g) \<Rightarrow> (reply, set_gateway g s))"

text \<open>What \<open>raceAbort\<close> may settle with: the promise of the call or the abort of the signal.\<close>

definition run_races :: "gateway_state \<Rightarrow> execution_run \<Rightarrow> jval race list" where
  "run_races g run =
     filter (\<lambda>r. r \<noteq> Race_never)
       [case ru_call run of
          Inl message \<Rightarrow> Race_throws (Th_error message)
        | Inr callId \<Rightarrow> race_of (jm_get (d_promises (gs_disp g)) callId),
        case abort_reason (gs_exec g) (ru_signal run) of
          None \<Rightarrow> Race_never | Some reason \<Rightarrow> Race_aborted reason]"

definition run_result :: "jval race \<Rightarrow> string \<Rightarrow> string \<Rightarrow> jval retry_result" where
  "run_result race rid eid =
     fst (executeWithRetry None \<lparr>en_check = \<lambda>_. None, en_race = \<lambda>_. race, en_delay = \<lambda>_. None\<rparr> rid eid)"

text \<open>The rest of the execute handler.\<close>

definition sys_finish ::
  "(sock \<Rightarrow> bool) \<Rightarrow> string \<Rightarrow> execution_run \<Rightarrow> jval race \<Rightarrow> int \<Rightarrow> ('c, 's) system \<Rightarrow> ('c, 's) system" where
  "sys_finish is_open eid run race dur s =
     (let ((stream, sent), g) = execute_finish is_open (ru_requestId run) eid dur
            (run_result race (ru_requestId run) eid) (sy_gateway s)
      in (set_gateway g s)
           \<lparr>sy_runs := jm_set (sy_runs s) eid (run\<lparr>ru_done := True, ru_events := stream\<rparr>),
            sy_log := sy_log s @ map (\<lambda>(sk, ev). (sk, eid, ev)) sent\<rparr>)"

section \<open>Hosts\<close>

definition sys_host_accept ::
  "string \<Rightarrow> string \<Rightarrow> string \<Rightarrow> string \<Rightarrow> string list \<Rightarrow> ('c, 's) system \<Rightarrow> ('c, 's) system" where
  "sys_host_accept hostId ns conn pv caps s =
     (let sk = sy_nextSocket s
      in (set_host sk \<lparr>hc_session = \<lparr>hs_hostId = hostId, hs_namespaceId = ns, hs_connectionId = conn,
              hs_socket = sk, hs_lastHeartbeat = 0\<rparr>,
            hc_protocolVersion = pv, hc_helloCaps = caps, hc_capabilities = [], hc_phase = HP_accepted, hc_alive = True\<rparr> s)
           \<lparr>sy_nextSocket := Suc sk\<rparr>)"

definition sys_host_prepare ::
  "('c, 's) deployment \<Rightarrow> sock \<Rightarrow> host_conn \<Rightarrow> int \<Rightarrow> ('c, 's) system \<Rightarrow> ('c, 's) system" where
  "sys_host_prepare D sk hc now s =
     (let (capabilities, r) = connect_prepare (dp_cache D) (dp_store D) (hc_session hc) (hc_helloCaps hc) now
            (hw_registry (sy_world s))
      in set_host sk (hc\<lparr>hc_capabilities := capabilities, hc_phase := HP_prepared\<rparr>) (set_registry r s))"

definition sys_host_online ::
  "('c, 's) deployment \<Rightarrow> sock \<Rightarrow> host_conn \<Rightarrow> int \<Rightarrow> ('c, 's) system \<Rightarrow> ('c, 's) system" where
  "sys_host_online D sk hc now s =
     set_host sk (hc\<lparr>hc_phase := HP_online\<rparr>)
       (set_registry (connect_online (dp_cache D) (dp_store D) (hc_session hc) now (hw_registry (sy_world s))) s)"

definition sys_host_register ::
  "sock \<Rightarrow> host_conn \<Rightarrow> string \<Rightarrow> ('c, 's) system \<Rightarrow> ('c, 's) system" where
  "sys_host_register sk hc sessionId s =
     set_host sk (hc\<lparr>hc_phase := HP_registered\<rparr>)
       (s\<lparr>sy_world := snd (connect_register (hc_session hc) (hc_protocolVersion hc) sessionId (hc_capabilities hc) (sy_world s))\<rparr>)"

definition sys_host_listen ::
  "('c, 's) deployment \<Rightarrow> sock \<Rightarrow> host_conn \<Rightarrow> (nat \<Rightarrow> string) \<Rightarrow> int \<Rightarrow> ('c, 's) system \<Rightarrow> ('c, 's) system" where
  "sys_host_listen D sk hc spanIds now s =
     set_host sk (hc\<lparr>hc_session := (hc_session hc)\<lparr>hs_lastHeartbeat := now\<rparr>, hc_phase := HP_listening\<rparr>)
       (set_registry (snd (connect_flush (dp_cache D) (hc_session hc) spanIds (hw_registry (sy_world s)))) s)"

definition sys_host_message ::
  "('c, 's) deployment \<Rightarrow> sock \<Rightarrow> host_conn \<Rightarrow> int \<Rightarrow> jval option \<Rightarrow> ('c, 's) system \<Rightarrow> ('c, 's) system" where
  "sys_host_message D sk hc now raw s =
     (let (action, sess, w) = host_message (dp_cache D) (hc_session hc) now raw (sy_world s)
      in set_host sk (hc\<lparr>hc_session := sess\<rparr>) (s\<lparr>sy_world := w\<rparr>))"

definition sys_host_close ::
  "('c, 's) deployment \<Rightarrow> sock \<Rightarrow> host_conn \<Rightarrow> int \<Rightarrow> ('c, 's) system \<Rightarrow> ('c, 's) system" where
  "sys_host_close D sk hc now s =
     set_host sk (hc\<lparr>hc_phase := HP_closed, hc_alive := False\<rparr>)
       (s\<lparr>sy_world := snd (host_closed (dp_cache D) (dp_store D) (hc_session hc) now (sy_world s))\<rparr>)"

section \<open>Steps\<close>

text \<open>What happened, as far as the properties refer to it.\<close>

datatype sys_event =
    SE_client_connect sock
  | SE_client_message sock
  | SE_client_close sock
  | SE_execute auth_context string
  | SE_finish string
  | SE_client_gone string
  | SE_cancel auth_context string "string option"
  | SE_dispatch
  | SE_call_timeout
  | SE_host_accept sock
  | SE_host_lost sock
  | SE_host_dropped sock
      \<comment> \<open>a message before the listeners\<close>
  | SE_host_await sock
  | SE_host_register string string sock
      \<comment> \<open>host, namespace\<close>
  | SE_host_message sock
  | SE_host_close string string sock
  | SE_watchdog sock
  | SE_registry
  | SE_auth
  | SE_platform auth_context

text \<open>
  \<open>ok\<close> restricts the chunks, results and errors hosts send, as in \<open>disp_reachable\<close>. A message that
  makes a listener throw has no step: the process ends. What a call of a platform adapter writes is up to
  the platform, and bootstrap.ts takes the cache and the database of the store from there: the step
  \<open>platform\<close> may leave anything in them, for any caller with a token.
\<close>

inductive sys_step ::
  "('c, 's) deployment \<Rightarrow> (inbound_msg \<Rightarrow> bool) \<Rightarrow> ('c, 's) system \<Rightarrow> sys_event \<Rightarrow> ('c, 's) system \<Rightarrow> bool"
  for D :: "('c, 's) deployment" and ok :: "inbound_msg \<Rightarrow> bool" where
  client_connect:
    "client_handshake (dp_cache D) (dp_jose D) (dp_secret D) ms q (sy_cache s) hello = WS_connected ctx \<Longrightarrow>
     \<forall>sk cl. jm_get (sy_clients s) sk = Some cl \<longrightarrow> cl_connectionId cl \<noteq> conn \<Longrightarrow>
     sys_step D ok s (SE_client_connect (sy_nextSocket s)) (sys_client_connect conn (ac_namespaceId ctx) s)"
| client_message:
    "jm_get (sy_clients s) sk = Some cl \<Longrightarrow> cl_open cl \<Longrightarrow>
     client_message (dp_is_uuid D) (cl_namespaceId cl) (cl_connectionId cl) raw (sy_gateway s) = Inr (out, g) \<Longrightarrow>
     sys_step D ok s (SE_client_message sk) (set_gateway g s)"
| client_close:
    "jm_get (sy_clients s) sk = Some cl \<Longrightarrow> cl_open cl \<Longrightarrow>
     sys_step D ok s (SE_client_close sk) (sys_client_close sk cl s)"
| execute:
    "authMiddleware (dp_cache D) (dp_jose D) (dp_secret D) ms q (sy_cache s) = MW_authenticated ctx \<Longrightarrow>
     jm_get (sy_runs s) eid = None \<Longrightarrow> callId \<noteq> [] \<Longrightarrow>
     jm_get (d_promises (gs_disp (sy_gateway s))) callId = None \<Longrightarrow>
     sys_step D ok s (SE_execute ctx eid) (snd (sys_execute ctx body eid rid callId trace send_throws now s))"
| finish:
    "jm_get (sy_runs s) eid = Some run \<Longrightarrow> \<not> ru_done run \<Longrightarrow> race \<in> set (run_races (sy_gateway s) run) \<Longrightarrow>
     sys_step D ok s (SE_finish eid) (sys_finish is_open eid run race dur s)"
| client_gone:
    "jm_get (sy_runs s) eid = Some run \<Longrightarrow>
     sys_step D ok s (SE_client_gone eid) (set_gateway (client_gone eid (sy_gateway s)) s)"
| cancel:
    "authMiddleware (dp_cache D) (dp_jose D) (dp_secret D) ms q (sy_cache s) = MW_authenticated ctx \<Longrightarrow>
     sys_step D ok s (SE_cancel ctx eid reason)
       (set_gateway ((sy_gateway s)\<lparr>gs_exec := snd (cancel_route (Some ctx) eid reason (gs_exec (sy_gateway s)))\<rparr>) s)"
| dispatch:
    "jm_get (d_promises (gs_disp (sy_gateway s))) callId = None \<Longrightarrow>
     sys_step D ok s SE_dispatch
       (set_gateway ((sy_gateway s)\<lparr>gs_disp := snd (internal_dispatch (dp_internalSecret D) provided body
          callId trace send_throws (gs_disp (sy_gateway s)))\<rparr>) s)"
| call_timeout:
    "sys_step D ok s SE_call_timeout
       (set_gateway ((sy_gateway s)\<lparr>gs_disp := call_timeout t (gs_disp (sy_gateway s))\<rparr>) s)"
| host_accept:
    "host_handshake (dp_cache D) (dp_jose D) (dp_secret D) ms authorization (sy_cache s) hello =
       HH_accepted hostId ns pv caps \<Longrightarrow>
     sys_step D ok s (SE_host_accept (sy_nextSocket s)) (sys_host_accept hostId ns conn pv caps s)"
| host_lost:
    "jm_get (sy_hosts s) sk = Some hc \<Longrightarrow> connecting (hc_phase hc) \<Longrightarrow>
     sys_step D ok s (SE_host_lost sk) (set_host sk (hc\<lparr>hc_alive := False\<rparr>) s)"
| host_dropped:
    "jm_get (sy_hosts s) sk = Some hc \<Longrightarrow> connecting (hc_phase hc) \<Longrightarrow> hc_alive hc \<Longrightarrow>
     sys_step D ok s (SE_host_dropped sk) s"
| host_prepare:
    "jm_get (sy_hosts s) sk = Some hc \<Longrightarrow> hc_phase hc = HP_accepted \<Longrightarrow>
     sys_step D ok s (SE_host_await sk) (sys_host_prepare D sk hc now s)"
| host_online:
    "jm_get (sy_hosts s) sk = Some hc \<Longrightarrow> hc_phase hc = HP_prepared \<Longrightarrow>
     sys_step D ok s (SE_host_await sk) (sys_host_online D sk hc now s)"
| host_register:
    "jm_get (sy_hosts s) sk = Some hc \<Longrightarrow> hc_phase hc = HP_online \<Longrightarrow>
     sys_step D ok s (SE_host_register (hs_hostId (hc_session hc)) (hs_namespaceId (hc_session hc)) sk)
       (sys_host_register sk hc sessionId s)"
| host_listen:
    "jm_get (sy_hosts s) sk = Some hc \<Longrightarrow> hc_phase hc = HP_registered \<Longrightarrow>
     sys_step D ok s (SE_host_await sk) (sys_host_listen D sk hc spanIds now s)"
| host_message:
    "jm_get (sy_hosts s) sk = Some hc \<Longrightarrow> hc_phase hc = HP_listening \<Longrightarrow> hc_alive hc \<Longrightarrow>
     \<forall>m\<in>set (inbounds [(hc_session hc, now, raw)]). ok m \<Longrightarrow>
     sys_step D ok s (SE_host_message sk) (sys_host_message D sk hc now raw s)"
| host_close:
    "jm_get (sy_hosts s) sk = Some hc \<Longrightarrow> hc_phase hc = HP_listening \<Longrightarrow> hc_alive hc \<Longrightarrow>
     sys_step D ok s (SE_host_close (hs_hostId (hc_session hc)) (hs_namespaceId (hc_session hc)) sk)
       (sys_host_close D sk hc now s)"
| watchdog:
    "jm_get (sy_hosts s) sk = Some hc \<Longrightarrow> hc_phase hc = HP_listening \<Longrightarrow>
     sys_step D ok s (SE_watchdog sk)
       (s\<lparr>sy_world := host_watchdog (dp_cache D) (dp_store D) (hc_session hc) now (sy_world s)\<rparr>)"
| registry:
    "reg_step (dp_cache D) (dp_store D) (hw_registry (sy_world s)) r \<Longrightarrow>
     sys_step D ok s SE_registry (set_registry r s)"
| auth_register:
    "sys_step D ok s SE_auth (set_registry ((hw_registry (sy_world s))\<lparr>gr_cache :=
       snd (route_register (dp_cache D) (dp_hash D) rnd clientHex hostHex now body (sy_cache s))\<rparr>) s)"
| auth_token:
    "sys_step D ok s SE_auth (set_registry ((hw_registry (sy_world s))\<lparr>gr_cache :=
       snd (route_token (dp_cache D) (dp_hash D) (dp_jose D) (dp_secret D) jti ms body (sy_cache s))\<rparr>) s)"
| auth_refresh:
    "sys_step D ok s SE_auth (set_registry ((hw_registry (sy_world s))\<lparr>gr_cache :=
       snd (route_refresh (dp_cache D) (dp_hash D) (dp_jose D) (dp_secret D) jti ms body (sy_cache s))\<rparr>) s)"
| platform:
    "authMiddleware (dp_cache D) (dp_jose D) (dp_secret D) ms q (sy_cache s) = MW_authenticated ctx \<Longrightarrow>
     sys_step D ok s (SE_platform ctx)
       (set_registry ((hw_registry (sy_world s))\<lparr>gr_cache := c, gr_store := st\<rparr>) s)"

inductive sys_reachable :: "('c, 's) deployment \<Rightarrow> (inbound_msg \<Rightarrow> bool) \<Rightarrow> ('c, 's) system \<Rightarrow> bool"
  for D :: "('c, 's) deployment" and ok :: "inbound_msg \<Rightarrow> bool" where
  start: "sys_reachable D ok (start_system r)"
| step: "sys_reachable D ok s \<Longrightarrow> sys_step D ok s ev s' \<Longrightarrow> sys_reachable D ok s'"

section \<open>What the operations leave in each part of the state\<close>

lemma set_gateway_fields [gw_simps]:
  "sy_gateway (set_gateway g s) = g"
  "hw_registry (sy_world (set_gateway g s)) = hw_registry (sy_world s)"
  "sy_clients (set_gateway g s) = sy_clients s" "sy_hosts (set_gateway g s) = sy_hosts s"
  "sy_runs (set_gateway g s) = sy_runs s" "sy_log (set_gateway g s) = sy_log s"
  "sy_nextSocket (set_gateway g s) = sy_nextSocket s"
  "set_gateway (sy_gateway s) s = s"
  by (simp_all add: set_gateway_def sy_gateway_def)

lemma set_registry_fields [gw_simps]:
  "sy_gateway (set_registry r s) = sy_gateway s"
  "sy_clients (set_registry r s) = sy_clients s" "sy_hosts (set_registry r s) = sy_hosts s"
  "sy_runs (set_registry r s) = sy_runs s" "sy_log (set_registry r s) = sy_log s"
  "sy_nextSocket (set_registry r s) = sy_nextSocket s"
  by (simp_all add: set_registry_def sy_gateway_def)

lemma set_host_fields [gw_simps]:
  "sy_gateway (set_host sk hc s) = sy_gateway s" "sy_world (set_host sk hc s) = sy_world s"
  "sy_clients (set_host sk hc s) = sy_clients s" "sy_hosts (set_host sk hc s) = jm_set (sy_hosts s) sk hc"
  "sy_runs (set_host sk hc s) = sy_runs s" "sy_log (set_host sk hc s) = sy_log s"
  "sy_nextSocket (set_host sk hc s) = sy_nextSocket s"
  by (simp_all add: set_host_def sy_gateway_def)

lemma world_fields [gw_simps]:
  "sy_gateway (s\<lparr>sy_world := w\<rparr>) = hw_gateway w" "sy_gateway (s\<lparr>sy_clients := cs\<rparr>) = sy_gateway s"
  "sy_gateway (s\<lparr>sy_runs := rs\<rparr>) = sy_gateway s" "sy_gateway (s\<lparr>sy_nextSocket := n\<rparr>) = sy_gateway s"
  "sy_gateway (s\<lparr>sy_log := l\<rparr>) = sy_gateway s"
  by (simp_all add: sy_gateway_def)

lemma client_connect_fields [gw_simps]:
  "sy_gateway (sys_client_connect conn ns s) =
     (sy_gateway s)\<lparr>gs_subs := registerSocket conn (sy_nextSocket s) (gs_subs (sy_gateway s))\<rparr>"
  "sy_clients (sys_client_connect conn ns s) = jm_set (sy_clients s) (sy_nextSocket s)
     \<lparr>cl_connectionId = conn, cl_namespaceId = ns, cl_open = True\<rparr>"
  "sy_hosts (sys_client_connect conn ns s) = sy_hosts s" "sy_runs (sys_client_connect conn ns s) = sy_runs s"
  "sy_log (sys_client_connect conn ns s) = sy_log s"
  "sy_nextSocket (sys_client_connect conn ns s) = Suc (sy_nextSocket s)"
  by (simp_all add: sys_client_connect_def Let_def client_connected_def gw_simps)

lemma client_close_fields [gw_simps]:
  "sy_gateway (sys_client_close sk cl s) =
     (sy_gateway s)\<lparr>gs_subs := snd (sub_removeConnection (cl_connectionId cl) (gs_subs (sy_gateway s)))\<rparr>"
  "sy_clients (sys_client_close sk cl s) = jm_set (sy_clients s) sk (cl\<lparr>cl_open := False\<rparr>)"
  "sy_hosts (sys_client_close sk cl s) = sy_hosts s" "sy_runs (sys_client_close sk cl s) = sy_runs s"
  "sy_log (sys_client_close sk cl s) = sy_log s"
  "sy_nextSocket (sys_client_close sk cl s) = sy_nextSocket s"
  by (simp_all add: sys_client_close_def client_closed_def gw_simps)

lemma host_accept_fields [gw_simps]:
  "sy_gateway (sys_host_accept h ns conn pv caps s) = sy_gateway s"
  "sy_clients (sys_host_accept h ns conn pv caps s) = sy_clients s"
  "sy_hosts (sys_host_accept h ns conn pv caps s) = jm_set (sy_hosts s) (sy_nextSocket s)
     \<lparr>hc_session = \<lparr>hs_hostId = h, hs_namespaceId = ns, hs_connectionId = conn,
         hs_socket = sy_nextSocket s, hs_lastHeartbeat = 0\<rparr>,
       hc_protocolVersion = pv, hc_helloCaps = caps, hc_capabilities = [], hc_phase = HP_accepted, hc_alive = True\<rparr>"
  "sy_runs (sys_host_accept h ns conn pv caps s) = sy_runs s"
  "sy_log (sys_host_accept h ns conn pv caps s) = sy_log s"
  "sy_nextSocket (sys_host_accept h ns conn pv caps s) = Suc (sy_nextSocket s)"
  by (simp_all add: sys_host_accept_def Let_def gw_simps)

lemma host_prepare_fields [gw_simps]:
  "sy_gateway (sys_host_prepare D sk hc now s) = sy_gateway s"
  "sy_clients (sys_host_prepare D sk hc now s) = sy_clients s"
  "sy_hosts (sys_host_prepare D sk hc now s) = jm_set (sy_hosts s) sk
     (hc\<lparr>hc_capabilities := fst (connect_prepare (dp_cache D) (dp_store D) (hc_session hc) (hc_helloCaps hc) now
        (hw_registry (sy_world s))), hc_phase := HP_prepared\<rparr>)"
  "sy_runs (sys_host_prepare D sk hc now s) = sy_runs s" "sy_log (sys_host_prepare D sk hc now s) = sy_log s"
  "sy_nextSocket (sys_host_prepare D sk hc now s) = sy_nextSocket s"
  by (simp_all add: sys_host_prepare_def case_prod_unfold Let_def gw_simps)

lemma host_online_fields [gw_simps]:
  "sy_gateway (sys_host_online D sk hc now s) = sy_gateway s"
  "sy_clients (sys_host_online D sk hc now s) = sy_clients s"
  "sy_hosts (sys_host_online D sk hc now s) = jm_set (sy_hosts s) sk (hc\<lparr>hc_phase := HP_online\<rparr>)"
  "sy_runs (sys_host_online D sk hc now s) = sy_runs s" "sy_log (sys_host_online D sk hc now s) = sy_log s"
  "sy_nextSocket (sys_host_online D sk hc now s) = sy_nextSocket s"
  by (simp_all add: sys_host_online_def gw_simps)

lemma host_register_fields [gw_simps]:
  "sy_gateway (sys_host_register sk hc sid s) = (sy_gateway s)
     \<lparr>gs_disp := registerConnection (hs_hostId (hc_session hc)) (hs_namespaceId (hc_session hc))
        (hs_socket (hc_session hc)) (map capability_string (hc_capabilities hc)) (gs_disp (sy_gateway s))\<rparr>"
  "hw_registry (sy_world (sys_host_register sk hc sid s)) = hw_registry (sy_world s)"
  "sy_clients (sys_host_register sk hc sid s) = sy_clients s"
  "sy_hosts (sys_host_register sk hc sid s) = jm_set (sy_hosts s) sk (hc\<lparr>hc_phase := HP_registered\<rparr>)"
  "sy_runs (sys_host_register sk hc sid s) = sy_runs s" "sy_log (sys_host_register sk hc sid s) = sy_log s"
  "sy_nextSocket (sys_host_register sk hc sid s) = sy_nextSocket s"
  by (simp_all add: sys_host_register_def connect_register_def upd_disp_def gw_simps) (simp add: sy_gateway_def)

lemma host_listen_fields [gw_simps]:
  "sy_gateway (sys_host_listen D sk hc spans now s) = sy_gateway s"
  "sy_clients (sys_host_listen D sk hc spans now s) = sy_clients s"
  "sy_hosts (sys_host_listen D sk hc spans now s) = jm_set (sy_hosts s) sk
     (hc\<lparr>hc_session := (hc_session hc)\<lparr>hs_lastHeartbeat := now\<rparr>, hc_phase := HP_listening\<rparr>)"
  "sy_runs (sys_host_listen D sk hc spans now s) = sy_runs s"
  "sy_log (sys_host_listen D sk hc spans now s) = sy_log s"
  "sy_nextSocket (sys_host_listen D sk hc spans now s) = sy_nextSocket s"
  by (simp_all add: sys_host_listen_def gw_simps)

text \<open>A host's message reaches the dispatcher or nothing of the gateway state; the identity stays.\<close>

lemma host_message_gateway:
  "hw_gateway (snd (snd (host_message C sess now raw w))) = (hw_gateway w)
     \<lparr>gs_disp := fold handleInbound (inbounds [(sess, now, raw)]) (gs_disp (hw_gateway w))\<rparr>"
  by (auto simp: host_message_def inbounds_def List.map_filter_def upd_disp_def
      split: option.splits jval.splits)

lemma host_message_session:
  "hs_hostId (fst (snd (host_message C sess now raw w))) = hs_hostId sess"
  "hs_namespaceId (fst (snd (host_message C sess now raw w))) = hs_namespaceId sess"
  "hs_connectionId (fst (snd (host_message C sess now raw w))) = hs_connectionId sess"
  "hs_socket (fst (snd (host_message C sess now raw w))) = hs_socket sess"
  by (auto simp: host_message_def split: option.splits jval.splits)

lemma host_message_fields [gw_simps]:
  "sy_gateway (sys_host_message D sk hc now raw s) = (sy_gateway s)
     \<lparr>gs_disp := fold handleInbound (inbounds [(hc_session hc, now, raw)]) (gs_disp (sy_gateway s))\<rparr>"
  "sy_clients (sys_host_message D sk hc now raw s) = sy_clients s"
  "sy_hosts (sys_host_message D sk hc now raw s) = jm_set (sy_hosts s) sk
     (hc\<lparr>hc_session := fst (snd (host_message (dp_cache D) (hc_session hc) now raw (sy_world s)))\<rparr>)"
  "sy_runs (sys_host_message D sk hc now raw s) = sy_runs s"
  "sy_log (sys_host_message D sk hc now raw s) = sy_log s"
  "sy_nextSocket (sys_host_message D sk hc now raw s) = sy_nextSocket s"
  by (simp_all add: sys_host_message_def case_prod_unfold Let_def host_message_gateway gw_simps)
    (simp add: sy_gateway_def)

lemma host_close_gateway:
  "hw_gateway (snd (host_closed C St sess now w)) = (hw_gateway w)
     \<lparr>gs_disp := removeConnection (hs_hostId sess) (hs_namespaceId sess) (gs_disp (hw_gateway w)),
      gs_exec := snd (cancelByHost (hs_hostId sess) ''disconnect'' (gs_exec (hw_gateway w)))\<rparr>"
  by (simp add: host_closed_def Let_def case_prod_unfold upd_disp_def world_exec_def)

lemma host_close_fields [gw_simps]:
  "sy_gateway (sys_host_close D sk hc now s) = (sy_gateway s)
     \<lparr>gs_disp := removeConnection (hs_hostId (hc_session hc)) (hs_namespaceId (hc_session hc)) (gs_disp (sy_gateway s)),
      gs_exec := snd (cancelByHost (hs_hostId (hc_session hc)) ''disconnect'' (gs_exec (sy_gateway s)))\<rparr>"
  "sy_clients (sys_host_close D sk hc now s) = sy_clients s"
  "sy_hosts (sys_host_close D sk hc now s) = jm_set (sy_hosts s) sk (hc\<lparr>hc_phase := HP_closed, hc_alive := False\<rparr>)"
  "sy_runs (sys_host_close D sk hc now s) = sy_runs s"
  "sy_log (sys_host_close D sk hc now s) = sy_log s"
  "sy_nextSocket (sys_host_close D sk hc now s) = sy_nextSocket s"
  by (simp_all add: sys_host_close_def host_close_gateway gw_simps) (simp add: sy_gateway_def)

lemma watchdog_gateway [gw_simps]: "hw_gateway (host_watchdog C St sess now w) = hw_gateway w"
  by (simp add: host_watchdog_def)

lemma finish_fields [gw_simps]:
  "sy_gateway (sys_finish is_open eid run race dur s) =
     snd (execute_finish is_open (ru_requestId run) eid dur (run_result race (ru_requestId run) eid) (sy_gateway s))"
  "sy_clients (sys_finish is_open eid run race dur s) = sy_clients s"
  "sy_hosts (sys_finish is_open eid run race dur s) = sy_hosts s"
  "sy_runs (sys_finish is_open eid run race dur s) = jm_set (sy_runs s) eid (run\<lparr>ru_done := True,
     ru_events := fst (fst (execute_finish is_open (ru_requestId run) eid dur
       (run_result race (ru_requestId run) eid) (sy_gateway s)))\<rparr>)"
  "sy_log (sys_finish is_open eid run race dur s) = sy_log s @ map (\<lambda>(sk, ev). (sk, eid, ev))
     (snd (fst (execute_finish is_open (ru_requestId run) eid dur (run_result race (ru_requestId run) eid) (sy_gateway s))))"
  "sy_nextSocket (sys_finish is_open eid run race dur s) = sy_nextSocket s"
  by (simp_all add: sys_finish_def case_prod_unfold Let_def gw_simps)

text \<open>An execute request is refused without a trace, or starts and dispatches in one step.\<close>

lemma sys_execute_cases:
  obtains "snd (sys_execute ctx body eid rid callId tr thr now s) = s"
  | ns req h where "ac_namespaceId ctx = Some ns" "parse_execute_request body = Some req"
    "firstHostWithCapability ns ''execution'' (gs_disp (sy_gateway s)) = Some h" "h \<noteq> []"
    "snd (sys_execute ctx body eid rid callId tr thr now s) =
       (set_gateway ((sy_gateway s)
          \<lparr>gs_exec := snd (exec_register eid rid ns h (er_pluginId req) (er_handlerRef req) now (gs_exec (sy_gateway s))),
           gs_disp := snd (dispatcher_call ns h ''execution'' ''execute'' [execute_payload req eid rid] callId tr thr
             (gs_disp (sy_gateway s)))\<rparr>) s)
       \<lparr>sy_runs := jm_set (sy_runs s) eid
          \<lparr>ru_requestId = rid, ru_namespaceId = ns, ru_hostId = h, ru_request = req,
           ru_signal = xr_next (gs_exec (sy_gateway s)),
           ru_call = fst (dispatcher_call ns h ''execution'' ''execute'' [execute_payload req eid rid] callId tr thr
             (gs_disp (sy_gateway s))),
           ru_socket = socket_of (gs_disp (sy_gateway s)) ns h, ru_done = False, ru_events = []\<rparr>\<rparr>"
proof (cases "Option.bind (ac_namespaceId ctx) (\<lambda>ns. firstHostWithCapability ns ''execution'' (gs_disp (sy_gateway s)))")
  case None
  then have "snd (sys_execute ctx body eid rid callId tr thr now s) = s"
    by (simp add: sys_execute_def execute_start_def gw_simps split: option.split)
  with that(1) show ?thesis .
next
  case (Some h)
  then obtain ns where ns: "ac_namespaceId ctx = Some ns"
    "firstHostWithCapability ns ''execution'' (gs_disp (sy_gateway s)) = Some h"
    by (auto simp: bind_eq_Some_conv)
  show ?thesis
  proof (cases "parse_execute_request body = None \<or> h = []")
    case True
    with ns have "snd (sys_execute ctx body eid rid callId tr thr now s) = s"
      by (auto simp: sys_execute_def execute_start_def gw_simps split: option.split)
    with that(1) show ?thesis .
  next
    case False
    then obtain req where req: "parse_execute_request body = Some req" by auto
    with False ns show ?thesis
      by (intro that(2) [OF ns(1) req ns(2)])
        (simp_all add: sys_execute_def execute_start_def case_prod_unfold Let_def execute_dispatch_def
          exec_register_def)
  qed
qed

definition dispatched :: "jval \<Rightarrow> dispatcher \<Rightarrow> string \<times> string \<times> string \<times> string \<times> jval list" where
  "dispatched body d =
     (let b = dispatch_body_of body; ns = the (db_namespaceId b); adapter = the (db_adapter b)
      in (ns, the (dispatch_target b ns adapter d), adapter, the (db_method b), or_else (db_args b) []))"

lemma internal_dispatch_state:
  "snd (internal_dispatch secret provided body r tr thr d) = d \<or>
   (case dispatched body d of (ns, h, a, m, args) \<Rightarrow>
      snd (internal_dispatch secret provided body r tr thr d) = snd (dispatcher_call ns h a m args r tr thr d))"
  by (simp add: internal_dispatch_def dispatched_def Let_def split: prod.split sum.split)

lemma internal_dispatch_cases:
  obtains "snd (internal_dispatch secret provided body r tr thr d) = d"
  | ns h a m args where "snd (internal_dispatch secret provided body r tr thr d) =
       snd (dispatcher_call ns h a m args r tr thr d)"
  using internal_dispatch_state [of secret provided body r tr thr d]
  by (cases "dispatched body d") auto

end
