(* ===== verification/System_Invariants.thy ===== *)
theory System_Invariants
  imports Gateway_System
begin

text \<open>
  What holds in every reachable state of the gateway process (Gateway_System): an invariant over the
  dispatcher, the execution registry, the subscription registry, the connections and the runs of the
  execute handler (\<open>sys_inv\<close>, and \<open>written_ok\<close> for what has been written), the causes of aborts, and
  what a step never changes. System_Properties states the properties that rest on it.
\<close>

section \<open>What an entry of the execution registry is bound to\<close>

text \<open>All of an entry but the cancellation reason; cancelling leaves it alone.\<close>

definition exec_view :: "exec_registry \<Rightarrow> string \<Rightarrow> (string \<times> string \<times> nat) option" where
  "exec_view x k = map_option (\<lambda>e. (ae_namespaceId e, ae_hostId e, ae_controller e)) (exec_get k x)"

lemma view_abort:
  "exec_ok x \<Longrightarrow> jm_get (xr_executions x) i = Some e \<Longrightarrow> exec_view (abort_entry e r x) = exec_view x"
  using exec_okD(1) [of x i e] by (auto simp: exec_view_def exec_get_def fun_eq_iff)

lemma view_cancel: "exec_ok x \<Longrightarrow> exec_view (snd (exec_cancel i r x)) = exec_view x"
  by (auto simp: exec_cancel_def view_abort split: option.split)

lemma view_cancel_one:
  "exec_ok (snd st) \<Longrightarrow> exec_view (snd (cancel_if_on_host h r k st)) = exec_view (snd st)"
  by (cases st) (auto simp: cancel_if_on_host_def view_abort split: option.split)

lemma view_cancelByHost: "exec_ok x \<Longrightarrow> exec_view (snd (cancelByHost h r x)) = exec_view x"
proof -
  have "exec_ok (snd st) \<Longrightarrow> exec_view (snd (fold (cancel_if_on_host h r) ks st)) = exec_view (snd st)" for ks st
    by (induction ks arbitrary: st) (simp_all add: view_cancel_one exec_ok_cancel_one)
  from this [of "([], x)"] show "exec_ok x \<Longrightarrow> ?thesis" by (simp add: cancelByHost_def)
qed

lemma view_register:
  "exec_view (snd (exec_register i r n h p f now x)) = (exec_view x)(i \<mapsto> (n, h, xr_next x))"
  by (auto simp: exec_view_def exec_get_def register_get fun_eq_iff)

lemma view_remove: "exec_view (exec_remove i x) = (exec_view x)(i := None)"
  by (auto simp: exec_view_def exec_get_def exec_remove_def fun_eq_iff)

lemma cancel_route_state:
  "snd (cancel_route (Some ctx) eid reason x) = x \<or>
   (\<exists>e. exec_get eid x = Some e \<and> Some (ae_namespaceId e) = ac_namespaceId ctx \<and>
     abort_reason x (ae_controller e) = None \<and>
     snd (cancel_route (Some ctx) eid reason x) = abort_entry e (or_else reason ''user'') x)"
  by (auto simp: cancel_route_def exec_cancel_def exec_get_def Let_def split: option.splits)

text \<open>What a client's message does to the registries, once and for all steps.\<close>

lemma client_message_effect:
  assumes "client_message is_uuid ns conn raw g = Inr (out, g')"
  obtains "g' = g"
  | i e where "exec_get i (gs_exec g) = Some e" "Some (ae_namespaceId e) = ns"
      "g' = g\<lparr>gs_subs := subscribe conn i (gs_subs g)\<rparr>"
  | i where "g' = g\<lparr>gs_subs := unsubscribe conn i (gs_subs g)\<rparr>"
  | i e r where "exec_get i (gs_exec g) = Some e" "Some (ae_namespaceId e) = ns" "r \<in> {''user'', ''timeout''}"
      "abort_reason (gs_exec g) (ae_controller e) = None" "g' = g\<lparr>gs_exec := abort_entry e r (gs_exec g)\<rparr>"
proof -
  consider "g' = g" | msg where "client_subscribe is_uuid ns conn msg g = (out, g')"
    | msg where "client_unsubscribe is_uuid conn msg g = (out, g')"
    | msg where "client_cancel is_uuid ns msg g = (out, g')"
    using client_message_cases [OF assms] by blast
  then show ?thesis
  proof cases
    case (2 msg)
    then have "g' = g \<or> (\<exists>i e. exec_get i (gs_exec g) = Some e \<and> Some (ae_namespaceId e) = ns \<and>
        g' = g\<lparr>gs_subs := subscribe conn i (gs_subs g)\<rparr>)"
      by (auto simp: client_subscribe_def split: option.splits if_splits)
    with that(1,2) show ?thesis by (elim disjE exE conjE)
  next
    case (3 msg)
    then have "g' = g \<or> (\<exists>i. g' = g\<lparr>gs_subs := unsubscribe conn i (gs_subs g)\<rparr>)"
      by (auto simp: client_unsubscribe_def split: option.splits)
    with that(1,3) show ?thesis by (elim disjE exE)
  next
    case (4 msg)
    have reason: "or_else r ''user'' \<in> {''user'', ''timeout''}" if "parse_cancel is_uuid msg = Some (j, r)" for j r
      using that by (auto simp: parse_cancel_def split: option.splits jval.splits if_splits)
    show ?thesis
    proof (cases "g' = g")
      case False
      then obtain j r e where "parse_cancel is_uuid msg = Some (j, r)" "exec_get j (gs_exec g) = Some e"
        "Some (ae_namespaceId e) = ns" "g' = g\<lparr>gs_exec := abort_entry e (or_else r ''user'') (gs_exec g)\<rparr>"
        "abort_reason (gs_exec g) (ae_controller e) = None"
        using 4 client_cancel_cases [OF 4]
        by (auto simp: client_cancel_def exec_cancel_def exec_get_def split: option.splits if_splits)
      with reason that(4) show ?thesis by simp
    qed (rule that(1))
  qed (rule that(1))
qed

section \<open>The invariant\<close>

text \<open>Each registry is in order by itself.\<close>

definition core_ok :: "(inbound_msg \<Rightarrow> bool) \<Rightarrow> gateway_state \<Rightarrow> bool" where
  "core_ok ok g \<longleftrightarrow> disp_reachable ok (gs_disp g) \<and> exec_ok (gs_exec g) \<and> sub_ok (gs_subs g)"

text \<open>Connection ids are unique, and a socket is registered under the id of its connection.\<close>

definition clients_ok :: "('c, 's) system \<Rightarrow> bool" where
  "clients_ok s \<longleftrightarrow>
     (\<forall>sk cl. jm_get (sy_clients s) sk = Some cl \<longrightarrow> sk < sy_nextSocket s) \<and>
     (\<forall>sk cl sk' cl'. jm_get (sy_clients s) sk = Some cl \<longrightarrow> jm_get (sy_clients s) sk' = Some cl' \<longrightarrow>
        cl_connectionId cl = cl_connectionId cl' \<longrightarrow> sk = sk') \<and>
     (\<forall>conn sk. jm_get (sb_sockets (gs_subs (sy_gateway s))) conn = Some sk \<longrightarrow>
        (\<exists>cl. jm_get (sy_clients s) sk = Some cl \<and> cl_connectionId cl = conn))"

text \<open>The registry holds exactly the runs in progress, under their namespace, host and signal.\<close>

definition run_view :: "execution_run \<Rightarrow> (string \<times> string \<times> nat) option" where
  "run_view run = (if ru_done run then None else Some (ru_namespaceId run, ru_hostId run, ru_signal run))"

definition runs_ok :: "('c, 's) system \<Rightarrow> bool" where
  "runs_ok s \<longleftrightarrow> (\<forall>eid. exec_view (gs_exec (sy_gateway s)) eid = Option.bind (jm_get (sy_runs s) eid) run_view)"

text \<open>The client on a socket may see the events of an execution.\<close>

definition may_see :: "('c, 's) system \<Rightarrow> sock \<Rightarrow> string \<Rightarrow> bool" where
  "may_see s sk eid \<longleftrightarrow>
     (\<exists>cl run. jm_get (sy_clients s) sk = Some cl \<and> jm_get (sy_runs s) eid = Some run \<and>
        cl_namespaceId cl = Some (ru_namespaceId run))"

definition confined :: "('c, 's) system \<Rightarrow> bool" where
  "confined s \<longleftrightarrow>
     (\<forall>conn eid. conn \<in> set (getSubscribers eid (gs_subs (sy_gateway s))) \<longrightarrow>
        (\<exists>sk cl. jm_get (sy_clients s) sk = Some cl \<and> cl_connectionId cl = conn \<and> may_see s sk eid)) \<and>
     (\<forall>sk eid ev. (sk, eid, ev) \<in> set (sy_log s) \<longrightarrow> may_see s sk eid)"

text \<open>The dispatcher's sockets are those of accepted hosts, under the identity of their tokens.\<close>

definition hosts_live :: "('c, 's) system \<Rightarrow> bool" where
  "hosts_live s \<longleftrightarrow>
     (\<forall>sk hc. jm_get (sy_hosts s) sk = Some hc \<longrightarrow>
        sk < sy_nextSocket s \<and> hs_socket (hc_session hc) = sk \<and> (hc_phase hc = HP_closed \<longrightarrow> \<not> hc_alive hc)) \<and>
     (\<forall>ns h sk. socket_of (gs_disp (sy_gateway s)) ns h = Some sk \<longrightarrow>
        (\<exists>hc. jm_get (sy_hosts s) sk = Some hc \<and> hs_namespaceId (hc_session hc) = ns \<and>
           hs_hostId (hc_session hc) = h \<and> hc_phase hc \<in> {HP_registered, HP_listening}))"

text \<open>The calls sent under a request id.\<close>

definition call_id :: "outbound_msg \<Rightarrow> string option" where
  "call_id m = (case m of O_call r _ _ _ _ \<Rightarrow> Some r | _ \<Rightarrow> None)"

definition sent_under :: "string \<Rightarrow> dispatcher \<Rightarrow> (sock \<times> outbound_msg) list" where
  "sent_under r d = filter (\<lambda>(sk, m). call_id m = Some r) (d_sent d)"

text \<open>
  A run has made one call, to a socket of a host of its namespace; it is the only thing sent under its
  request id, unless \<open>send\<close> threw.
\<close>

definition run_sent :: "('c, 's) system \<Rightarrow> string \<Rightarrow> execution_run \<Rightarrow> bool" where
  "run_sent s eid run \<longleftrightarrow>
     (\<exists>sk hc callId tr. ru_socket run = Some sk \<and> ru_call run = Inr callId \<and> callId \<noteq> [] \<and>
        jm_get (sy_hosts s) sk = Some hc \<and> hs_namespaceId (hc_session hc) = ru_namespaceId run \<and>
        hs_hostId (hc_session hc) = ru_hostId run \<and>
        jm_get (d_promises (gs_disp (sy_gateway s))) callId \<noteq> None \<and>
        sent_under callId (gs_disp (sy_gateway s)) \<in>
          {[], [(sk, O_call callId ''execution'' ''execute''
             [execute_payload (ru_request run) eid (ru_requestId run)] tr)]})"

definition sent_ok :: "('c, 's) system \<Rightarrow> bool" where
  "sent_ok s \<longleftrightarrow>
     (\<forall>r. jm_get (d_promises (gs_disp (sy_gateway s))) r = None \<longrightarrow> sent_under r (gs_disp (sy_gateway s)) = []) \<and>
     (\<forall>eid run. jm_get (sy_runs s) eid = Some run \<longrightarrow> run_sent s eid run)"

definition sys_inv :: "(inbound_msg \<Rightarrow> bool) \<Rightarrow> ('c, 's) system \<Rightarrow> bool" where
  "sys_inv ok s \<longleftrightarrow> core_ok ok (sy_gateway s) \<and> clients_ok s \<and> runs_ok s \<and> confined s \<and> hosts_live s \<and> sent_ok s"

lemmas inv_defs = core_ok_def clients_ok_def runs_ok_def confined_def hosts_live_def sent_ok_def

lemma clients_okD:
  assumes "clients_ok s"
  shows "jm_get (sy_clients s) sk = Some cl \<Longrightarrow> sk < sy_nextSocket s"
    and "jm_get (sy_clients s) sk = Some cl \<Longrightarrow> jm_get (sy_clients s) sk' = Some cl' \<Longrightarrow>
      cl_connectionId cl = cl_connectionId cl' \<Longrightarrow> sk = sk'"
    and "jm_get (sb_sockets (gs_subs (sy_gateway s))) conn = Some sk \<Longrightarrow>
      \<exists>cl. jm_get (sy_clients s) sk = Some cl \<and> cl_connectionId cl = conn"
  using assms unfolding clients_ok_def by blast+

lemma confinedD:
  assumes "confined s"
  shows "conn \<in> set (getSubscribers eid (gs_subs (sy_gateway s))) \<Longrightarrow>
      \<exists>sk cl. jm_get (sy_clients s) sk = Some cl \<and> cl_connectionId cl = conn \<and> may_see s sk eid"
    and "(sk, eid, ev) \<in> set (sy_log s) \<Longrightarrow> may_see s sk eid"
  using assms unfolding confined_def by blast+

section \<open>Every step keeps the registries in order\<close>

lemma disp_reachable_steps:
  assumes "disp_reachable ok d"
  shows "disp_reachable ok (registerConnection h ns ws caps d)" "disp_reachable ok (removeConnection h ns d)"
    "disp_reachable ok (call_timeout t d)"
    "jm_get (d_promises d) r = None \<Longrightarrow> disp_reachable ok (snd (dispatcher_call ns h a m args r tr thr d))"
    "\<forall>m\<in>set ms. ok m \<Longrightarrow> disp_reachable ok (fold handleInbound ms d)"
proof -
  show "\<forall>m\<in>set ms. ok m \<Longrightarrow> disp_reachable ok (fold handleInbound ms d)"
    using assms by (induction ms arbitrary: d) (auto intro: disp_reachable.step disp_step.inbound)
qed (use assms in \<open>blast intro: disp_reachable.step disp_step.intros\<close>)+

lemma finish_state:
  assumes "race \<in> set (run_races g run)"
  shows "snd (execute_finish is_open rid eid dur (run_result race rid' eid) g) = g\<lparr>gs_exec := exec_remove eid (gs_exec g)\<rparr>"
proof -
  have "race \<noteq> Race_never" using assms unfolding run_races_def set_filter by blast
  then have "run_result race rid' eid \<noteq> R_hangs"
    by (auto simp: run_result_def executeWithRetry_def retry_loop.simps merge_config_def RETRY_DEFAULTS_def
        maxAttempts_of_def split: race.split thrown.split option.split)
  then show ?thesis by (simp add: execute_finish_def)
qed

lemma gateway_of_world [gw_simps]: "hw_gateway (sy_world s) = sy_gateway s"
  by (simp add: sy_gateway_def)

lemma core_step:
  assumes "sys_step D ok s ev s'" "core_ok ok (sy_gateway s)"
  shows "core_ok ok (sy_gateway s')"
  using assms
proof (induction rule: sys_step.induct)
  case (client_message s sk cl raw out g)
  from client_message(3) client_message(4) show ?case
    by (cases rule: client_message_effect)
      (auto simp: core_ok_def gw_simps exec_get_def exec_ok_abort_entry sub_ok_subscribe sub_ok_unsubscribe)
next
  case (execute ms q s ctx eid callId body rid trace send_throws now)
  show ?case
    by (rule sys_execute_cases [of ctx body eid rid callId trace send_throws now s])
      (use execute in \<open>auto simp: core_ok_def gw_simps disp_reachable_steps exec_ok_register\<close>)
next
  case (cancel ms q s ctx eid reason)
  show ?case
    using cancel_route_state [of ctx eid reason "gs_exec (sy_gateway s)"] cancel(2)
    by (auto simp: core_ok_def gw_simps exec_get_def exec_ok_abort_entry)
next
  case (dispatch s callId provided body trace send_throws)
  show ?case
    by (rule internal_dispatch_cases [of "dp_internalSecret D" provided body callId trace send_throws "gs_disp (sy_gateway s)"])
      (use dispatch in \<open>auto simp: core_ok_def gw_simps disp_reachable_steps\<close>)
qed (auto simp: core_ok_def gw_simps socket_ops client_gone_def disp_reachable_steps finish_state
    exec_ok_cancel exec_ok_cancelByHost exec_ok_remove sub_ok_removeConnection)

section \<open>Every step keeps what was promised before\<close>

text \<open>Connections keep their identity, runs keep everything but their outcome.\<close>

definition sys_ext :: "('c, 's) system \<Rightarrow> ('c, 's) system \<Rightarrow> bool" where
  "sys_ext s s' \<longleftrightarrow>
     (\<forall>sk cl. jm_get (sy_clients s) sk = Some cl \<longrightarrow> (\<exists>cl'. jm_get (sy_clients s') sk = Some cl' \<and>
        cl_connectionId cl' = cl_connectionId cl \<and> cl_namespaceId cl' = cl_namespaceId cl)) \<and>
     (\<forall>eid run. jm_get (sy_runs s) eid = Some run \<longrightarrow> (\<exists>b evs. jm_get (sy_runs s') eid = Some
        (run\<lparr>ru_done := b, ru_events := evs\<rparr>))) \<and>
     (\<forall>sk hc. jm_get (sy_hosts s) sk = Some hc \<longrightarrow> (\<exists>hc'. jm_get (sy_hosts s') sk = Some hc' \<and>
        hs_hostId (hc_session hc') = hs_hostId (hc_session hc) \<and>
        hs_namespaceId (hc_session hc') = hs_namespaceId (hc_session hc)))"

lemma ext_refl_runs: "\<exists>b evs. run = run\<lparr>ru_done := b, ru_events := evs\<rparr>"
  by (intro exI [of _ "ru_done run"] exI [of _ "ru_events run"]) simp

lemma ext_step:
  assumes "sys_step D ok s ev s'" "clients_ok s" "hosts_live s"
  shows "sys_ext s s'"
  using assms
proof (induction rule: sys_step.induct)
  case (client_connect ms q s hello ctx conn)
  then show ?case by (auto simp: sys_ext_def gw_simps ext_refl_runs clients_ok_def)
next
  case (execute ms q s ctx eid callId body rid trace send_throws now)
  show ?case
    by (rule sys_execute_cases [of ctx body eid rid callId trace send_throws now s])
      (use execute in \<open>auto simp: sys_ext_def gw_simps ext_refl_runs\<close>)
next
  case (host_accept ms authorization s hello hostId ns pv caps conn)
  then show ?case by (auto simp: sys_ext_def gw_simps ext_refl_runs hosts_live_def)
qed (auto simp: sys_ext_def gw_simps ext_refl_runs host_message_session)

lemma ext_client:
  "sys_ext s s' \<Longrightarrow> jm_get (sy_clients s) sk = Some cl \<Longrightarrow>
     \<exists>cl'. jm_get (sy_clients s') sk = Some cl' \<and> cl_connectionId cl' = cl_connectionId cl"
  unfolding sys_ext_def by blast

lemma ext_may_see: "sys_ext s s' \<Longrightarrow> may_see s sk eid \<Longrightarrow> may_see s' sk eid"
  unfolding sys_ext_def may_see_def by fastforce

lemma clients_step:
  assumes "sys_step D ok s ev s'" "clients_ok s" "core_ok ok (sy_gateway s)"
  shows "clients_ok s'"
  using assms
proof (induction rule: sys_step.induct)
  case (client_connect ms q s hello ctx conn)
  then have "jm_get (sb_sockets (gs_subs (sy_gateway s))) c \<noteq> Some (sy_nextSocket s)" for c
    using clients_okD(3) [OF client_connect(3)] clients_okD(1) [OF client_connect(3)] by fastforce
  with client_connect show ?case
    by (auto simp: clients_ok_def gw_simps registerSocket_def less_SucI split: if_splits)
next
  case (client_message s sk cl raw out g)
  from client_message(3,4) show ?case
    by (cases rule: client_message_effect) (auto simp: clients_ok_def gw_simps sockets_after)
next
  case (execute ms q s ctx eid callId body rid trace send_throws now)
  show ?case
    by (rule sys_execute_cases [of ctx body eid rid callId trace send_throws now s])
      (use execute in \<open>auto simp: clients_ok_def gw_simps\<close>)
next
  case (client_close s sk cl)
  then have "conn = cl_connectionId cl" if "jm_get (sb_sockets (gs_subs (sy_gateway s))) conn = Some sk" for conn
    using clients_okD(3) [OF client_close(3) that] by auto
  with client_close show ?case by (auto simp: clients_ok_def gw_simps sockets_after)
qed (auto simp: clients_ok_def gw_simps client_gone_def finish_state less_SucI split: if_splits)

lemma runs_step:
  assumes "sys_step D ok s ev s'" "runs_ok s" "core_ok ok (sy_gateway s)"
  shows "runs_ok s'"
  using assms
proof (induction rule: sys_step.induct)
  case (client_message s sk cl raw out g)
  from client_message(3-5) show ?case
    by (cases rule: client_message_effect) (auto simp: runs_ok_def core_ok_def gw_simps view_abort exec_get_def)
next
  case (execute ms q s ctx eid callId body rid trace send_throws now)
  show ?case
    by (rule sys_execute_cases [of ctx body eid rid callId trace send_throws now s])
      (use execute in \<open>auto simp: runs_ok_def gw_simps view_register run_view_def\<close>)
next
  case (cancel ms q s ctx eid reason)
  show ?case
    using cancel_route_state [of ctx eid reason "gs_exec (sy_gateway s)"] cancel(2,3)
    by (auto simp: runs_ok_def core_ok_def gw_simps exec_get_def view_abort)
qed (auto simp: runs_ok_def core_ok_def gw_simps view_cancel view_cancelByHost view_remove run_view_def
    client_gone_def finish_state)

lemma subscriber_may_see:
  assumes "clients_ok s" "confined s"
    and "conn \<in> set (getSubscribers eid (gs_subs (sy_gateway s)))"
    and "jm_get (sb_sockets (gs_subs (sy_gateway s))) conn = Some sk"
  shows "may_see s sk eid"
proof -
  obtain sk' cl' where "jm_get (sy_clients s) sk' = Some cl'" "cl_connectionId cl' = conn" "may_see s sk' eid"
    using confinedD(1) [OF assms(2,3)] by blast
  moreover obtain cl where "jm_get (sy_clients s) sk = Some cl" "cl_connectionId cl = conn"
    using clients_okD(3) [OF assms(1,4)] by blast
  ultimately show ?thesis using clients_okD(2) [OF assms(1)] by metis
qed

lemma broadcast_may_see:
  assumes "clients_ok s" "confined s" "(sk, ev) \<in> set (broadcast is_open eid m (gs_subs (sy_gateway s)))"
  shows "may_see s sk eid"
proof -
  have "\<exists>conn. conn \<in> set (getSubscribers eid (gs_subs (sy_gateway s))) \<and>
      jm_get (sb_sockets (gs_subs (sy_gateway s))) conn = Some sk"
  proof (cases "jm_get (sb_byExecution (gs_subs (sy_gateway s))) eid")
    case None
    with assms(3) show ?thesis by (simp add: broadcast_def)
  next
    case (Some conns)
    with assms(3) obtain c where "c \<in> set conns" "(sk, ev) \<in> set (case jm_get (sb_sockets (gs_subs (sy_gateway s))) c of
        None \<Rightarrow> [] | Some socket \<Rightarrow> if is_open socket then [(socket, m)] else [])"
      by (auto simp: broadcast_def)
    with Some show ?thesis
      by (intro exI [of _ c]) (auto simp: getSubscribers_def split: option.splits if_splits)
  qed
  then show ?thesis using subscriber_may_see assms(1,2) by blast
qed

lemma finish_sent:
  "(sk, ev) \<in> set (snd (fst (execute_finish is_open rid eid dur res g))) \<Longrightarrow>
     \<exists>m. (sk, ev) \<in> set (broadcast is_open eid m (gs_subs g))"
  by (auto simp: execute_finish_def write_all_def writeEvent_def)

text \<open>Confinement: what is left is where subscribers or the log change.\<close>

lemma confinedI:
  assumes "sys_ext s s'" "confined s"
    and "\<And>conn eid. conn \<in> set (getSubscribers eid (gs_subs (sy_gateway s'))) \<Longrightarrow>
      conn \<in> set (getSubscribers eid (gs_subs (sy_gateway s))) \<or>
      (\<exists>sk cl. jm_get (sy_clients s') sk = Some cl \<and> cl_connectionId cl = conn \<and> may_see s' sk eid)"
    and "\<And>sk eid ev. (sk, eid, ev) \<in> set (sy_log s') \<Longrightarrow> (sk, eid, ev) \<in> set (sy_log s) \<or> may_see s' sk eid"
  shows "confined s'"
proof -
  have "\<exists>sk cl. jm_get (sy_clients s') sk = Some cl \<and> cl_connectionId cl = conn \<and> may_see s' sk eid"
    if c: "conn \<in> set (getSubscribers eid (gs_subs (sy_gateway s)))" for conn eid
  proof -
    obtain sk cl where "jm_get (sy_clients s) sk = Some cl" "cl_connectionId cl = conn" "may_see s sk eid"
      using confinedD(1) [OF assms(2) c] by blast
    with ext_client [OF assms(1)] ext_may_see [OF assms(1)] show ?thesis by metis
  qed
  moreover have "may_see s' sk eid" if "(sk, eid, ev) \<in> set (sy_log s)" for sk eid ev
    using confinedD(2) [OF assms(2) that] ext_may_see [OF assms(1)] by blast
  ultimately show ?thesis using assms(3,4) unfolding confined_def by blast
qed

lemma running_run:
  assumes "runs_ok s" "exec_get i (gs_exec (sy_gateway s)) = Some e"
  obtains run where "jm_get (sy_runs s) i = Some run" "\<not> ru_done run" "ru_namespaceId run = ae_namespaceId e"
    "ru_hostId run = ae_hostId e" "ru_signal run = ae_controller e"
proof -
  have "exec_view (gs_exec (sy_gateway s)) i = Some (ae_namespaceId e, ae_hostId e, ae_controller e)"
    using assms(2) by (simp add: exec_view_def)
  with assms(1) have "Option.bind (jm_get (sy_runs s) i) run_view = Some (ae_namespaceId e, ae_hostId e, ae_controller e)"
    unfolding runs_ok_def by metis
  with that show ?thesis by (auto simp: bind_eq_Some_conv run_view_def split: if_splits)
qed

lemma confined_step:
  assumes "sys_step D ok s ev s'" "confined s" "clients_ok s" "hosts_live s" "runs_ok s" "core_ok ok (sy_gateway s)"
  shows "confined s'"
proof (rule confinedI [OF ext_step [OF assms(1,3,4)] assms(2)])
  fix conn eid
  assume "conn \<in> set (getSubscribers eid (gs_subs (sy_gateway s')))"
  with assms show "conn \<in> set (getSubscribers eid (gs_subs (sy_gateway s))) \<or>
      (\<exists>sk cl. jm_get (sy_clients s') sk = Some cl \<and> cl_connectionId cl = conn \<and> may_see s' sk eid)"
  proof (induction rule: sys_step.induct)
    case (client_message s sk cl raw out g)
    from client_message(3) show ?case
    proof (cases rule: client_message_effect)
      case (2 i e)
      obtain run where "jm_get (sy_runs s) i = Some run" "ru_namespaceId run = ae_namespaceId e"
        using running_run [OF client_message(7) 2(1)] by metis
      with 2 client_message(1) have "may_see s sk i" by (auto simp: may_see_def)
      with 2 client_message(1,9) show ?thesis
        by (auto simp: gw_simps may_see_def split: if_splits)
    qed (use client_message(9) in \<open>auto simp: gw_simps split: if_splits\<close>)
  next
    case (execute ms q s ctx eid callId body rid trace send_throws now)
    show ?case
      by (rule sys_execute_cases [of ctx body eid rid callId trace send_throws now s])
        (use execute in \<open>auto simp: gw_simps\<close>)
  qed (auto simp: gw_simps core_ok_def socket_ops srg.subs_remove client_gone_def finish_state)
next
  fix sk eid m
  assume "(sk, eid, m) \<in> set (sy_log s')"
  with assms show "(sk, eid, m) \<in> set (sy_log s) \<or> may_see s' sk eid"
  proof (induction rule: sys_step.induct)
    case (execute ms q s ctx eid callId body rid trace send_throws now)
    show ?case
      by (rule sys_execute_cases [of ctx body eid rid callId trace send_throws now s])
        (use execute in \<open>auto simp: gw_simps\<close>)
  next
    case (finish s eid' run race is_open dur)
    have ext: "sys_ext s (sys_finish is_open eid' run race dur s)"
      using sys_step.finish [OF finish(1-3)] finish(5,6) by (rule ext_step)
    have "may_see s sk eid'" if "(sk, m) \<in> set (snd (fst (execute_finish is_open (ru_requestId run) eid' dur
        (run_result race (ru_requestId run) eid') (sy_gateway s))))"
      using finish_sent [OF that] by (elim exE) (rule broadcast_may_see [OF finish(5,4)])
    with finish(9) ext_may_see [OF ext] show ?case by (auto simp: gw_simps)
  qed (simp_all add: gw_simps)
qed

lemma socket_of_ops [gw_simps]:
  "socket_of (snd (dispatcher_call ns h a m args r tr thr d)) = socket_of d"
  "socket_of (fold handleInbound ms d) = socket_of d"
  "socket_of (call_timeout t d) = socket_of d"
proof -
  show "socket_of (fold handleInbound ms d) = socket_of d"
    by (induction ms arbitrary: d) (simp_all add: same_connections(1) [OF inbound_connections(1)])
qed (rule same_connections(1); simp add: gw_simps)+

lemma hosts_liveD:
  assumes "hosts_live s"
  shows "jm_get (sy_hosts s) sk = Some hc \<Longrightarrow> sk < sy_nextSocket s"
    and "jm_get (sy_hosts s) sk = Some hc \<Longrightarrow> hs_socket (hc_session hc) = sk"
    and "jm_get (sy_hosts s) sk = Some hc \<Longrightarrow> hc_phase hc = HP_closed \<Longrightarrow> \<not> hc_alive hc"
    and "socket_of (gs_disp (sy_gateway s)) ns h = Some sk \<Longrightarrow>
      \<exists>hc. jm_get (sy_hosts s) sk = Some hc \<and> hs_namespaceId (hc_session hc) = ns \<and>
        hs_hostId (hc_session hc) = h \<and> hc_phase hc \<in> {HP_registered, HP_listening}"
  using assms by (simp_all add: hosts_live_def)

lemma hosts_liveI:
  assumes "\<And>sk hc. jm_get (sy_hosts s) sk = Some hc \<Longrightarrow>
      sk < sy_nextSocket s \<and> hs_socket (hc_session hc) = sk \<and> (hc_phase hc = HP_closed \<longrightarrow> \<not> hc_alive hc)"
    and "\<And>ns h sk. socket_of (gs_disp (sy_gateway s)) ns h = Some sk \<Longrightarrow>
      \<exists>hc. jm_get (sy_hosts s) sk = Some hc \<and> hs_namespaceId (hc_session hc) = ns \<and>
        hs_hostId (hc_session hc) = h \<and> hc_phase hc \<in> {HP_registered, HP_listening}"
  shows "hosts_live s"
  using assms unfolding hosts_live_def by blast

lemma hosts_frame:
  assumes "hosts_live s" "sy_hosts s' = sy_hosts s" "sy_nextSocket s \<le> sy_nextSocket s'"
    "socket_of (gs_disp (sy_gateway s')) = socket_of (gs_disp (sy_gateway s))"
  shows "hosts_live s'"
  using hosts_liveD [OF assms(1)] assms(2-4) by (intro hosts_liveI) (force, simp)

text \<open>One connection changes, and no socket is left in the dispatcher that is not a listening one.\<close>

lemma hosts_update:
  assumes "hosts_live s" "sy_hosts s' = jm_set (sy_hosts s) sk hc" "sy_nextSocket s' = n"
    and "sy_nextSocket s \<le> n" "sk < n" "hs_socket (hc_session hc) = sk" "hc_phase hc = HP_closed \<longrightarrow> \<not> hc_alive hc"
    and "\<And>ns h sk'. socket_of (gs_disp (sy_gateway s')) ns h = Some sk' \<Longrightarrow>
      if sk' = sk then hs_namespaceId (hc_session hc) = ns \<and> hs_hostId (hc_session hc) = h \<and> hc_phase hc \<in> {HP_registered, HP_listening}
      else socket_of (gs_disp (sy_gateway s)) ns h = Some sk'"
  shows "hosts_live s'"
proof (rule hosts_liveI)
  fix sk1 hc1
  assume "jm_get (sy_hosts s') sk1 = Some hc1"
  then show "sk1 < sy_nextSocket s' \<and> hs_socket (hc_session hc1) = sk1 \<and> (hc_phase hc1 = HP_closed \<longrightarrow> \<not> hc_alive hc1)"
    using assms(2-7) hosts_liveD(1-3) [OF assms(1), of sk1 hc1] by (auto split: if_splits)
next
  fix ns h sk1
  assume "socket_of (gs_disp (sy_gateway s')) ns h = Some sk1"
  from assms(8) [OF this] hosts_liveD(4) [OF assms(1), of ns h sk1]
  show "\<exists>hc. jm_get (sy_hosts s') sk1 = Some hc \<and> hs_namespaceId (hc_session hc) = ns \<and>
      hs_hostId (hc_session hc) = h \<and> hc_phase hc \<in> {HP_registered, HP_listening}"
    by (simp add: assms(2) split: if_splits)
qed

lemma hosts_step:
  assumes "sys_step D ok s ev s'" "hosts_live s"
  shows "hosts_live s'"
  using assms
proof (induction rule: sys_step.induct)
  case (client_message s sk cl raw out g)
  from client_message(3) have "gs_disp g = gs_disp (sy_gateway s)"
    by (cases rule: client_message_effect) simp_all
  with client_message(4) show ?case by (intro hosts_frame [OF client_message(4)]) (simp_all add: gw_simps)
next
  case (execute ms q s ctx eid callId body rid trace send_throws now)
  show ?case
    by (rule sys_execute_cases [of ctx body eid rid callId trace send_throws now s])
      (rule hosts_frame [OF execute(5)]; simp add: gw_simps)+
next
  case (dispatch s callId provided body trace send_throws)
  show ?case
    by (rule internal_dispatch_cases [of "dp_internalSecret D" provided body callId trace send_throws "gs_disp (sy_gateway s)"])
      (rule hosts_frame [OF dispatch(2)]; simp add: gw_simps)+
next
  case (host_accept ms authorization s hello hostId ns pv caps conn)
  have fresh: "jm_get (sy_hosts s) (sy_nextSocket s) = None"
    using hosts_liveD(1) [OF host_accept(2)] by fastforce
  show ?case
    by (rule hosts_update [OF host_accept(2) host_accept_fields(3) host_accept_fields(6)])
      (use fresh in \<open>auto simp: gw_simps dest!: hosts_liveD(4) [OF host_accept(2)]\<close>)
next
  case (host_lost s sk hc)
  show ?case
    by (rule hosts_update [OF host_lost(3) set_host_fields(4) set_host_fields(7)])
      (use hosts_liveD [OF host_lost(3)] host_lost(1,2) in \<open>auto simp: gw_simps dest!: hosts_liveD(4) [OF host_lost(3)]\<close>)
next
  case (host_prepare s sk hc now)
  show ?case
    by (rule hosts_update [OF host_prepare(3) host_prepare_fields(3) host_prepare_fields(6)])
      (use hosts_liveD(1,2) [OF host_prepare(3) host_prepare(1)] host_prepare(1,2)
        in \<open>auto simp: gw_simps dest!: hosts_liveD(4) [OF host_prepare(3)]\<close>)
next
  case (host_online s sk hc now)
  show ?case
    by (rule hosts_update [OF host_online(3) host_online_fields(3) host_online_fields(6)])
      (use hosts_liveD(1,2) [OF host_online(3) host_online(1)] host_online(1,2)
        in \<open>auto simp: gw_simps dest!: hosts_liveD(4) [OF host_online(3)]\<close>)
next
  case (host_register s sk hc sessionId)
  show ?case
    by (rule hosts_update [OF host_register(3) host_register_fields(4) host_register_fields(7)])
      (use hosts_liveD(1,2) [OF host_register(3) host_register(1)] host_register(1)
        in \<open>auto simp: gw_simps split: if_splits dest!: hosts_liveD(4) [OF host_register(3)]\<close>)
next
  case (host_listen s sk hc spanIds now)
  show ?case
    by (rule hosts_update [OF host_listen(3) host_listen_fields(3) host_listen_fields(6)])
      (use hosts_liveD(1,2) [OF host_listen(3) host_listen(1)] host_listen(1,2)
        in \<open>auto simp: gw_simps dest!: hosts_liveD(4) [OF host_listen(3)]\<close>)
next
  case (host_message s sk hc now raw)
  show ?case
    by (rule hosts_update [OF host_message(5) host_message_fields(3) host_message_fields(6)])
      (use hosts_liveD(1-3) [OF host_message(5) host_message(1)] host_message(1)
        in \<open>auto simp: gw_simps host_message_session dest!: hosts_liveD(4) [OF host_message(5)]\<close>)
next
  case (host_close s sk hc now)
  show ?case
    by (rule hosts_update [OF host_close(4) host_close_fields(3) host_close_fields(6)])
      (use hosts_liveD(1,2) [OF host_close(4) host_close(1)] host_close(1)
        in \<open>auto simp: gw_simps split: if_splits dest!: hosts_liveD(4) [OF host_close(4)]\<close>)
qed (erule hosts_frame; simp add: gw_simps client_gone_def finish_state)+

section \<open>What is sent under a request id\<close>

text \<open>
  A call once made is never sent again, nothing is sent under an id without a promise, and a settled
  promise stays settled.
\<close>

definition disp_ext :: "dispatcher \<Rightarrow> dispatcher \<Rightarrow> bool" where
  "disp_ext d d' \<longleftrightarrow>
     (\<forall>r. jm_get (d_promises d) r \<noteq> None \<longrightarrow>
        jm_get (d_promises d') r \<noteq> None \<and> sent_under r d' = sent_under r d) \<and>
     (\<forall>r. jm_get (d_promises d) r = None \<longrightarrow> sent_under r d = [] \<longrightarrow>
        jm_get (d_promises d') r = None \<longrightarrow> sent_under r d' = []) \<and>
     (\<forall>r p. jm_get (d_promises d) r = Some p \<longrightarrow> p \<noteq> P_pending \<longrightarrow> jm_get (d_promises d') r = Some p)"

lemma sent_under_settle [simp]: "sent_under r (settle r' out d) = sent_under r d"
  by (simp add: sent_under_def)

lemma disp_ext_refl [simp]: "disp_ext d d"
  by (simp add: disp_ext_def)

lemma disp_ext_same:
  "d_promises d' = d_promises d \<Longrightarrow> d_sent d' = d_sent d \<Longrightarrow> disp_ext d d'"
  by (simp add: disp_ext_def sent_under_def)

lemma disp_ext_trans: "disp_ext d d' \<Longrightarrow> disp_ext d' d'' \<Longrightarrow> disp_ext d d''"
  unfolding disp_ext_def by (intro conjI allI impI) (metis option.distinct(1))+

lemma disp_ext_call:
  "jm_get (d_promises d) r = None \<Longrightarrow> disp_ext d (snd (dispatcher_call ns h a m args r tr thr d))"
  by (auto simp: disp_ext_def dispatcher_call_def Let_def sent_under_def call_id_def settle_promise
      split: option.split)

lemma inbound_sent: "d_sent (handleInbound m d) = d_sent d"
  by (simp add: handleInbound_def Let_def split: option.split)

lemma disp_ext_inbound: "disp_ext d (handleInbound m d)"
proof -
  have "jm_get (d_promises (handleInbound m d)) r \<noteq> None \<longleftrightarrow> jm_get (d_promises d) r \<noteq> None" for r
    by (auto simp: handleInbound_def Let_def settle_promise split: option.split)
  moreover have "jm_get (d_promises d) r = Some p \<Longrightarrow> p \<noteq> P_pending \<Longrightarrow>
      jm_get (d_promises (handleInbound m d)) r = Some p" for r p
    by (auto simp: handleInbound_def Let_def settle_promise split: option.split)
  ultimately show ?thesis by (auto simp: disp_ext_def sent_under_def inbound_sent)
qed

lemma disp_ext_inbounds: "disp_ext d (fold handleInbound ms d)"
  by (induction ms arbitrary: d) (auto intro: disp_ext_inbound disp_ext_trans)

lemma disp_ext_timeout: "disp_ext d (call_timeout t d)"
  by (auto simp: disp_ext_def call_timeout_def settle_promise sent_under_def split: option.split)

lemmas disp_exts = disp_ext_refl disp_ext_call disp_ext_inbounds disp_ext_timeout

lemma disp_step_ext:
  assumes "sys_step D ok s ev s'"
  shows "disp_ext (gs_disp (sy_gateway s)) (gs_disp (sy_gateway s'))"
  using assms
proof (induction rule: sys_step.induct)
  case (client_message s sk cl raw out g)
  from client_message(3) show ?case by (cases rule: client_message_effect) (simp_all add: gw_simps)
next
  case (execute ms q s ctx eid callId body rid trace send_throws now)
  show ?case
    by (rule sys_execute_cases [of ctx body eid rid callId trace send_throws now s])
      (use execute in \<open>simp_all add: gw_simps disp_exts\<close>)
next
  case (dispatch s callId provided body trace send_throws)
  show ?case
    by (rule internal_dispatch_cases [of "dp_internalSecret D" provided body callId trace send_throws "gs_disp (sy_gateway s)"])
      (use dispatch in \<open>simp_all add: gw_simps disp_exts\<close>)
qed (simp_all add: gw_simps disp_exts client_gone_def finish_state disp_ext_same)

lemma disp_extD:
  assumes "disp_ext d d'"
  shows "jm_get (d_promises d) r \<noteq> None \<Longrightarrow> jm_get (d_promises d') r \<noteq> None"
    and "jm_get (d_promises d) r \<noteq> None \<Longrightarrow> sent_under r d' = sent_under r d"
    and "jm_get (d_promises d) r = None \<Longrightarrow> sent_under r d = [] \<Longrightarrow> jm_get (d_promises d') r = None \<Longrightarrow>
      sent_under r d' = []"
    and "jm_get (d_promises d) r = Some p \<Longrightarrow> p \<noteq> P_pending \<Longrightarrow> jm_get (d_promises d') r = Some p"
  using assms by (simp_all add: disp_ext_def)

lemma ext_host:
  "sys_ext s s' \<Longrightarrow> jm_get (sy_hosts s) sk = Some hc \<Longrightarrow> \<exists>hc'. jm_get (sy_hosts s') sk = Some hc' \<and>
     hs_hostId (hc_session hc') = hs_hostId (hc_session hc) \<and>
     hs_namespaceId (hc_session hc') = hs_namespaceId (hc_session hc)"
  unfolding sys_ext_def by blast

lemma ext_run:
  "sys_ext s s' \<Longrightarrow> jm_get (sy_runs s) eid = Some run \<Longrightarrow>
     \<exists>b evs. jm_get (sy_runs s') eid = Some (run\<lparr>ru_done := b, ru_events := evs\<rparr>)"
  unfolding sys_ext_def by blast

lemma run_sent_mono:
  assumes "sys_ext s s'" "disp_ext (gs_disp (sy_gateway s)) (gs_disp (sy_gateway s'))" "run_sent s eid run"
  shows "run_sent s' eid (run\<lparr>ru_done := b, ru_events := evs\<rparr>)"
proof -
  obtain sk hc callId tr where r: "ru_socket run = Some sk" "ru_call run = Inr callId" "callId \<noteq> []"
    "jm_get (sy_hosts s) sk = Some hc" "hs_namespaceId (hc_session hc) = ru_namespaceId run"
    "hs_hostId (hc_session hc) = ru_hostId run" "jm_get (d_promises (gs_disp (sy_gateway s))) callId \<noteq> None"
    "sent_under callId (gs_disp (sy_gateway s)) \<in> {[], [(sk, O_call callId ''execution'' ''execute''
       [execute_payload (ru_request run) eid (ru_requestId run)] tr)]}"
    using assms(3) unfolding run_sent_def by blast
  from ext_host [OF assms(1) r(4)] r disp_extD(1,2) [OF assms(2) r(7)] show ?thesis
    unfolding run_sent_def by (intro exI [of _ sk]) auto
qed

lemma started_run_sent:
  assumes "core_ok ok (sy_gateway s)" "hosts_live s" "sent_ok s" "callId \<noteq> []"
    and "jm_get (d_promises (gs_disp (sy_gateway s))) callId = None"
    and "firstHostWithCapability ns cap (gs_disp (sy_gateway s)) = Some h"
    and "ru_namespaceId run = ns" "ru_hostId run = h" "ru_socket run = socket_of (gs_disp (sy_gateway s)) ns h"
    and "ru_call run = fst (dispatcher_call ns h ''execution'' ''execute''
      [execute_payload (ru_request run) eid (ru_requestId run)] callId tr thr (gs_disp (sy_gateway s)))"
    and "gs_disp (sy_gateway s') = snd (dispatcher_call ns h ''execution'' ''execute''
      [execute_payload (ru_request run) eid (ru_requestId run)] callId tr thr (gs_disp (sy_gateway s)))"
    and "sy_hosts s' = sy_hosts s"
  shows "run_sent s' eid run"
proof -
  have "disp_reachable ok (gs_disp (sy_gateway s))" using assms(1) by (simp add: core_ok_def)
  from capability_host(1) [OF this assms(6)] obtain sk where sk: "socket_of (gs_disp (sy_gateway s)) ns h = Some sk"
    by blast
  obtain hc where "jm_get (sy_hosts s) sk = Some hc" "hs_namespaceId (hc_session hc) = ns" "hs_hostId (hc_session hc) = h"
    using hosts_liveD(4) [OF assms(2) sk] by blast
  moreover have "sent_under callId (gs_disp (sy_gateway s)) = []" using assms(3,5) by (simp add: sent_ok_def)
  then have "sent_under callId (gs_disp (sy_gateway s')) \<in> {[], [(sk, O_call callId ''execution'' ''execute''
       [execute_payload (ru_request run) eid (ru_requestId run)] tr)]}"
    using sk by (simp add: assms(11) dispatcher_call_def Let_def sent_under_def call_id_def settle_def split: option.split)
  moreover have "jm_get (d_promises (gs_disp (sy_gateway s'))) callId \<noteq> None"
    using sk by (simp add: assms(11) dispatcher_call_def Let_def settle_promise split: option.split)
  ultimately show ?thesis
    using sk assms(4,7-10,12) unfolding run_sent_def
    by (intro exI [of _ sk]) (auto simp: dispatcher_call_def Let_def)
qed

lemma new_run:
  assumes "sys_step D ok s ev s'" "core_ok ok (sy_gateway s)" "hosts_live s" "sent_ok s"
    and "jm_get (sy_runs s') eid = Some run" "jm_get (sy_runs s) eid = None"
  shows "run_sent s' eid run"
  using assms
proof (induction rule: sys_step.induct)
  case (execute ms q s ctx eid' callId body rid trace send_throws now)
  show ?case
  proof (rule sys_execute_cases [of ctx body eid' rid callId trace send_throws now s])
    assume "snd (sys_execute ctx body eid' rid callId trace send_throws now s) = s"
    with execute(8,9) show ?thesis by simp
  next
    fix ns req h
    assume h: "firstHostWithCapability ns ''execution'' (gs_disp (sy_gateway s)) = Some h"
      and s': "snd (sys_execute ctx body eid' rid callId trace send_throws now s) =
       (set_gateway ((sy_gateway s)
          \<lparr>gs_exec := snd (exec_register eid' rid ns h (er_pluginId req) (er_handlerRef req) now (gs_exec (sy_gateway s))),
           gs_disp := snd (dispatcher_call ns h ''execution'' ''execute'' [execute_payload req eid' rid] callId trace
             send_throws (gs_disp (sy_gateway s)))\<rparr>) s)
       \<lparr>sy_runs := jm_set (sy_runs s) eid'
          \<lparr>ru_requestId = rid, ru_namespaceId = ns, ru_hostId = h, ru_request = req,
           ru_signal = xr_next (gs_exec (sy_gateway s)),
           ru_call = fst (dispatcher_call ns h ''execution'' ''execute'' [execute_payload req eid' rid] callId trace
             send_throws (gs_disp (sy_gateway s))),
           ru_socket = socket_of (gs_disp (sy_gateway s)) ns h, ru_done = False, ru_events = []\<rparr>\<rparr>"
    from execute(8,9) have "eid = eid'" by (auto simp: s' gw_simps split: if_splits)
    with execute(8) show ?thesis
      by (intro started_run_sent [OF execute(5-7) execute(3,4) h, where tr = trace and thr = send_throws])
        (auto simp: s' gw_simps)
  qed
qed (auto simp: gw_simps split: if_splits)

lemma sent_step:
  assumes "sys_step D ok s ev s'" "core_ok ok (sy_gateway s)" "clients_ok s" "hosts_live s" "sent_ok s"
  shows "sent_ok s'"
  unfolding sent_ok_def
proof (intro conjI allI impI)
  note ext = ext_step [OF assms(1,3,4)] and dext = disp_step_ext [OF assms(1)]
  fix r
  assume none: "jm_get (d_promises (gs_disp (sy_gateway s'))) r = None"
  then have "jm_get (d_promises (gs_disp (sy_gateway s))) r = None" using disp_extD(1) [OF dext] by blast
  with assms(5) none show "sent_under r (gs_disp (sy_gateway s')) = []"
    using disp_extD(3) [OF dext] by (simp add: sent_ok_def)
next
  note ext = ext_step [OF assms(1,3,4)] and dext = disp_step_ext [OF assms(1)]
  fix eid run
  assume run: "jm_get (sy_runs s') eid = Some run"
  show "run_sent s' eid run"
  proof (cases "jm_get (sy_runs s) eid")
    case None
    with run show ?thesis using new_run [OF assms(1,2,4,5)] by blast
  next
    case (Some old)
    with ext_run [OF ext Some] run obtain b evs where "run = old\<lparr>ru_done := b, ru_events := evs\<rparr>" by auto
    with run_sent_mono [OF ext dext, of eid old] Some assms(5) show ?thesis by (simp add: sent_ok_def)
  qed
qed

lemma inv_step_system:
  assumes "sys_step D ok s ev s'" "sys_inv ok s"
  shows "sys_inv ok s'"
  using assms core_step [OF assms(1)] clients_step [OF assms(1)] runs_step [OF assms(1)]
    confined_step [OF assms(1)] hosts_step [OF assms(1)] sent_step [OF assms(1)]
  by (simp add: sys_inv_def)

lemma inv_start: "sys_inv ok (start_system r)"
  by (simp add: sys_inv_def inv_defs start_system_def sy_gateway_def disp_reachable.start exec_ok_init
      sub_ok_init exec_view_def exec_get_def socket_of_def sent_under_def)
    (simp add: init_exec_registry_def init_dispatcher_def)

lemma inv_reachable: "sys_reachable D ok s \<Longrightarrow> sys_inv ok s"
  by (induction rule: sys_reachable.induct) (auto intro: inv_start inv_step_system)

lemma sys_inv_parts:
  assumes "sys_inv ok s"
  shows "disp_reachable ok (gs_disp (sy_gateway s))" "exec_ok (gs_exec (sy_gateway s))"
    "sub_ok (gs_subs (sy_gateway s))" "clients_ok s" "runs_ok s" "confined s" "hosts_live s" "sent_ok s"
  using assms by (simp_all add: sys_inv_def core_ok_def)

section \<open>Aborted signals\<close>

text \<open>How a step changes the reason of a signal.\<close>

lemma reason_cancelByHost:
  assumes "exec_ok x" "exec_get k x = Some e"
  shows "abort_reason (snd (cancelByHost h r x)) (ae_controller e) =
    (if ae_hostId e = h \<and> abort_reason x (ae_controller e) = None then Some r else abort_reason x (ae_controller e))"
  using cancelByHost_facts(2) [OF assms(1), of k e h r] assms(2) by (simp add: exec_get_def live_on_def)

lemma same_controller:
  "exec_ok x \<Longrightarrow> exec_get i x = Some e \<Longrightarrow> exec_get j x = Some e' \<Longrightarrow> ae_controller e = ae_controller e' \<Longrightarrow> i = j"
  unfolding exec_get_def using exec_okD(4) by blast

lemma running_entry:
  assumes "runs_ok s" "jm_get (sy_runs s) eid = Some run" "\<not> ru_done run"
  obtains e where "exec_get eid (gs_exec (sy_gateway s)) = Some e" "ae_namespaceId e = ru_namespaceId run"
    "ae_hostId e = ru_hostId run" "ae_controller e = ru_signal run"
proof -
  have "exec_view (gs_exec (sy_gateway s)) eid = Some (ru_namespaceId run, ru_hostId run, ru_signal run)"
    using assms by (simp add: runs_ok_def run_view_def)
  with that show ?thesis by (auto simp: exec_view_def)
qed

lemma abort_cause:
  assumes "sys_step D ok s ev s'" "exec_ok (gs_exec (sy_gateway s))"
    and "exec_get eid (gs_exec (sy_gateway s)) = Some e"
    and "abort_reason (gs_exec (sy_gateway s)) (ae_controller e) = None"
    and "abort_reason (gs_exec (sy_gateway s')) (ae_controller e) = Some r"
  shows "(\<exists>sk cl. ev = SE_client_message sk \<and> jm_get (sy_clients s) sk = Some cl \<and>
       cl_namespaceId cl = Some (ae_namespaceId e) \<and> r \<in> {''user'', ''timeout''}) \<or>
    (\<exists>ctx reason. ev = SE_cancel ctx eid reason \<and> ac_namespaceId ctx = Some (ae_namespaceId e) \<and>
       r = or_else reason ''user'') \<or>
    (ev = SE_client_gone eid \<and> r = ''disconnect'') \<or>
    (\<exists>ns sk. ev = SE_host_close (ae_hostId e) ns sk \<and> r = ''disconnect'')"
  using assms
proof (induction rule: sys_step.induct)
  case (client_message s sk cl raw out g)
  from client_message(3) show ?case
  proof (cases rule: client_message_effect)
    case (4 i e' r')
    with client_message(7,6) have "ae_controller e = ae_controller e'" "r = r'"
      by (auto simp: gw_simps split: if_splits)
    with same_controller [OF client_message(4,5) 4(1)] have "i = eid" by simp
    with 4 client_message(5) have "e' = e" by simp
    with 4 \<open>r = r'\<close> client_message(1) show ?thesis by auto
  qed (use client_message(6,7) in \<open>auto simp: gw_simps\<close>)
next
  case (execute ms q s ctx eid' callId body rid trace send_throws now)
  have "abort_reason (gs_exec (sy_gateway (snd (sys_execute ctx body eid' rid callId trace send_throws now s)))) (ae_controller e) =
      abort_reason (gs_exec (sy_gateway s)) (ae_controller e)"
    by (rule sys_execute_cases [of ctx body eid' rid callId trace send_throws now s])
      (simp_all add: gw_simps register_reason [OF execute(5)])
  with execute(7,8) show ?case by simp
next
  case (cancel ms q s ctx eid' reason)
  from cancel_route_state [of ctx eid' reason "gs_exec (sy_gateway s)"] show ?case
  proof
    assume "\<exists>e. exec_get eid' (gs_exec (sy_gateway s)) = Some e \<and> Some (ae_namespaceId e) = ac_namespaceId ctx \<and>
      abort_reason (gs_exec (sy_gateway s)) (ae_controller e) = None \<and>
      snd (cancel_route (Some ctx) eid' reason (gs_exec (sy_gateway s))) =
        abort_entry e (or_else reason ''user'') (gs_exec (sy_gateway s))"
    then obtain e' where e': "exec_get eid' (gs_exec (sy_gateway s)) = Some e'" "Some (ae_namespaceId e') = ac_namespaceId ctx"
      "snd (cancel_route (Some ctx) eid' reason (gs_exec (sy_gateway s))) =
        abort_entry e' (or_else reason ''user'') (gs_exec (sy_gateway s))" by blast
    with cancel(4,5) have "ae_controller e = ae_controller e'" "r = or_else reason ''user''"
      by (auto simp: gw_simps split: if_splits)
    with same_controller [OF cancel(2,3) e'(1)] e' cancel(3) show ?thesis by auto
  qed (use cancel(4,5) in \<open>simp add: gw_simps\<close>)
next
  case (client_gone s eid' run)
  have "eid' = eid \<and> r = ''disconnect''"
  proof (cases "exec_get eid' (gs_exec (sy_gateway s))")
    case None
    with client_gone(4,5) show ?thesis by (simp add: gw_simps client_gone_def exec_cancel_def exec_get_def)
  next
    case (Some e')
    with client_gone(4,5) have "ae_controller e = ae_controller e' \<and> r = ''disconnect''"
      by (auto simp: gw_simps client_gone_def exec_cancel_def exec_get_def split: if_splits)
    with same_controller [OF client_gone(2,3) Some] show ?thesis by auto
  qed
  then show ?case by simp
next
  case (finish s eid' run race is_open dur)
  then show ?case by (simp add: gw_simps finish_state exec_remove_def abort_reason_def)
next
  case (host_close s sk hc now)
  then show ?case by (auto simp: gw_simps reason_cancelByHost split: if_splits)
qed (simp_all add: gw_simps)

text \<open>A signal once aborted keeps its reason.\<close>

lemma reason_kept:
  assumes "sys_step D ok s ev s'" "exec_ok (gs_exec (sy_gateway s))"
    and "abort_reason (gs_exec (sy_gateway s)) sg = Some r"
  shows "abort_reason (gs_exec (sy_gateway s')) sg = Some r"
  using assms
proof (induction rule: sys_step.induct)
  case (client_message s sk cl raw out g)
  from client_message(3) show ?case
    by (cases rule: client_message_effect) (use client_message(5) in \<open>auto simp: gw_simps\<close>)
next
  case (execute ms q s ctx eid' callId body rid trace send_throws now)
  show ?case
    by (rule sys_execute_cases [of ctx body eid' rid callId trace send_throws now s])
      (use execute(6) in \<open>simp_all add: gw_simps register_reason [OF execute(5)]\<close>)
next
  case (cancel ms q s ctx eid' reason)
  from cancel_route_state [of ctx eid' reason "gs_exec (sy_gateway s)"] cancel(3) show ?case
    by (auto simp: gw_simps)
next
  case (client_gone s eid' run)
  then show ?case by (auto simp: gw_simps client_gone_def exec_cancel_def split: option.split)
next
  case (host_close s sk hc now)
  then show ?case by (simp add: gw_simps cancelByHost_def cancel_all_keeps_reason)
qed (simp_all add: gw_simps finish_state exec_remove_def abort_reason_def)

section \<open>Outcomes\<close>

text \<open>
  The stream of a run: empty until the run is done, then the outcome of its call or its abort.
\<close>

definition call_outcome :: "gateway_state \<Rightarrow> execution_run \<Rightarrow> promise \<Rightarrow> bool" where
  "call_outcome g run p \<longleftrightarrow>
     (\<exists>callId. ru_call run = Inr callId \<and> jm_get (d_promises (gs_disp g)) callId = Some p)"

definition outcome_written :: "gateway_state \<Rightarrow> string \<Rightarrow> execution_run \<Rightarrow> bool" where
  "outcome_written g eid run \<longleftrightarrow>
     (if ru_done run
      then let rid = ru_requestId run in \<exists>dur.
         (\<exists>v. call_outcome g run (P_resolved v) \<and> ru_events run = [E_done rid eid 0 dur (Some v)]) \<or>
         (\<exists>m. call_outcome g run (P_rejected m) \<and>
            ru_events run = [E_error rid eid ''EXECUTION_FAILED'' m False, E_done rid eid 1 dur None]) \<or>
         (\<exists>reason. abort_reason (gs_exec g) (ru_signal run) = Some reason \<and>
            ru_events run = [E_cancelled rid eid reason dur, E_done rid eid 130 dur None])
      else ru_events run = [])"

definition written_ok :: "('c, 's) system \<Rightarrow> bool" where
  "written_ok s \<longleftrightarrow>
     (\<forall>eid run. jm_get (sy_runs s) eid = Some run \<longrightarrow> outcome_written (sy_gateway s) eid run) \<and>
     (\<forall>sk eid ev. (sk, eid, ev) \<in> set (sy_log s) \<longrightarrow>
        (\<exists>run. jm_get (sy_runs s) eid = Some run \<and> ru_done run \<and> ev \<in> set (ru_events run)))"

lemma outcome_written_mono:
  assumes "disp_ext (gs_disp g) (gs_disp g')"
    and "\<And>r. abort_reason (gs_exec g) (ru_signal run) = Some r \<Longrightarrow> abort_reason (gs_exec g') (ru_signal run) = Some r"
    and "outcome_written g eid run"
  shows "outcome_written g' eid run"
proof -
  have "call_outcome g run p \<Longrightarrow> p \<noteq> P_pending \<Longrightarrow> call_outcome g' run p" for p
    using disp_extD(4) [OF assms(1)] by (auto simp: call_outcome_def)
  then have "call_outcome g run (P_resolved v) \<Longrightarrow> call_outcome g' run (P_resolved v)"
    "call_outcome g run (P_rejected m) \<Longrightarrow> call_outcome g' run (P_rejected m)" for v m
    by simp_all
  with assms(2,3) show ?thesis unfolding outcome_written_def Let_def by (auto split: if_splits)
qed

lemma run_result_simps [simp]:
  "run_result (Race_value v) rid eid = R_value v"
  "run_result (Race_aborted reason) rid eid = R_throws (Th_cancelled reason)"
  "run_result (Race_throws (Th_error m)) rid eid = R_throws (Th_error m)"
  by (simp_all add: run_result_def executeWithRetry_def retry_loop.simps merge_config_def RETRY_DEFAULTS_def
      maxAttempts_of_def classifyError_def error_message_def)

text \<open>What each side of the race writes.\<close>

lemma race_events:
  assumes "race \<in> set (run_races g run)" "ru_call run = Inr callId"
    and "events = final_events (ru_requestId run) eid dur (run_result race rid eid)"
  shows "outcome_written g eid (run\<lparr>ru_done := True, ru_events := events\<rparr>)"
proof -
  from assms(1) consider "race = race_of (jm_get (d_promises (gs_disp g)) callId)" "race \<noteq> Race_never"
    | reason where "abort_reason (gs_exec g) (ru_signal run) = Some reason" "race = Race_aborted reason"
    unfolding run_races_def set_filter by (auto simp: assms(2) split: option.splits)
  then show ?thesis
  proof cases
    case 1
    then obtain p where p: "jm_get (d_promises (gs_disp g)) callId = Some p" by (auto simp: race_of_def split: option.splits)
    show ?thesis
    proof (cases p)
      case P_pending
      with 1 p show ?thesis by (simp add: race_of_def)
    next
      case (P_resolved v)
      with 1 p show ?thesis
        by (simp add: outcome_written_def call_outcome_def Let_def assms(2,3) race_of_def final_events_def)
    next
      case (P_rejected m)
      with 1 p show ?thesis
        by (simp add: outcome_written_def call_outcome_def Let_def assms(2,3) race_of_def final_events_def)
    qed
  next
    case (2 reason)
    then show ?thesis by (simp add: outcome_written_def Let_def assms(3) final_events_def)
  qed
qed

text \<open>Every step writes a run's outcome once, and observers get nothing else.\<close>

lemma finish_stream:
  assumes "((stream, sent), g') = execute_finish is_open rid eid dur res g"
  shows "stream = final_events rid eid dur res" "(sk, ev) \<in> set sent \<Longrightarrow> ev \<in> set stream"
proof -
  have w: "concat (map (\<lambda>e. [e]) es) = es" for es :: "execution_event list" by (induction es) simp_all
  show "stream = final_events rid eid dur res"
    using assms by (simp add: execute_finish_def write_all_def writeEvent_def w)
  have "(sk, ev) \<in> set (broadcast is_open eid e subs) \<Longrightarrow> ev = e" for e subs
    by (auto simp: broadcast_def split: option.splits if_splits)
  then show "(sk, ev) \<in> set sent \<Longrightarrow> ev \<in> set stream"
    using assms by (auto simp: execute_finish_def write_all_def writeEvent_def w)
qed

lemma old_runs:
  assumes "sys_step D ok s ev s'" "ev \<noteq> SE_finish eid"
    and "jm_get (sy_runs s') eid = Some run"
  shows "jm_get (sy_runs s) eid = Some run \<or>
    jm_get (sy_runs s) eid = None \<and> \<not> ru_done run \<and> ru_events run = []"
  using assms
proof (induction rule: sys_step.induct)
  case (execute ms q s ctx eid' callId body rid trace send_throws now)
  show ?case
    by (rule sys_execute_cases [of ctx body eid' rid callId trace send_throws now s])
      (use execute in \<open>auto simp: gw_simps split: if_splits\<close>)
qed (auto simp: gw_simps)

lemma old_log:
  assumes "sys_step D ok s ev s'" "\<forall>eid. ev \<noteq> SE_finish eid"
  shows "sy_log s' = sy_log s"
  using assms
proof (induction rule: sys_step.induct)
  case (execute ms q s ctx eid' callId body rid trace send_throws now)
  show ?case
    by (rule sys_execute_cases [of ctx body eid' rid callId trace send_throws now s]) (simp_all add: gw_simps)
qed (auto simp: gw_simps)

lemma written_step:
  assumes "sys_step D ok s ev s'" "sys_inv ok s" "written_ok s"
  shows "written_ok s'"
proof -
  note parts = sys_inv_parts [OF assms(2)]
  note ext = ext_step [OF assms(1) parts(4,7)] and dext = disp_step_ext [OF assms(1)]
  have mono: "outcome_written (sy_gateway s') eid run" if "jm_get (sy_runs s) eid = Some run" for eid run
    using assms(3) that reason_kept [OF assms(1) parts(2)] outcome_written_mono [OF dext]
    unfolding written_ok_def by blast
  show ?thesis
  proof (cases "\<exists>eid. ev = SE_finish eid")
    case False
    have "outcome_written (sy_gateway s') eid run" if "jm_get (sy_runs s') eid = Some run" for eid run
      using old_runs [OF assms(1) _ that] False mono by (auto simp: outcome_written_def)
    moreover have "\<exists>run. jm_get (sy_runs s') eid = Some run \<and> ru_done run \<and> m \<in> set (ru_events run)"
      if "(sk, eid, m) \<in> set (sy_log s')" for sk eid m
    proof -
      have "(sk, eid, m) \<in> set (sy_log s)" using old_log [OF assms(1)] False that by auto
      then obtain run where run: "jm_get (sy_runs s) eid = Some run" "ru_done run" "m \<in> set (ru_events run)"
        using assms(3) unfolding written_ok_def by blast
      then obtain run' where run': "jm_get (sy_runs s') eid = Some run'" using ext_run [OF ext] by blast
      with run(1) have "run' = run" using old_runs [OF assms(1) _ run'] False by auto
      with run run' show ?thesis by blast
    qed
    ultimately show ?thesis unfolding written_ok_def by blast
  next
    case True
    then obtain eid0 where "ev = SE_finish eid0" by blast
    with assms(1) obtain run race is_open dur where run: "jm_get (sy_runs s) eid0 = Some run" "\<not> ru_done run"
      and race: "race \<in> set (run_races (sy_gateway s) run)" and s': "s' = sys_finish is_open eid0 run race dur s"
      by (auto elim: sys_step.cases)
    obtain callId where call: "ru_call run = Inr callId"
      using parts(8) run(1) unfolding sent_ok_def run_sent_def by blast
    obtain stream sent g where f: "((stream, sent), g) = execute_finish is_open (ru_requestId run) eid0 dur
        (run_result race (ru_requestId run) eid0) (sy_gateway s)" by (metis surj_pair)
    have runs': "sy_runs s' = jm_set (sy_runs s) eid0 (run\<lparr>ru_done := True, ru_events := stream\<rparr>)"
      and log': "sy_log s' = sy_log s @ map (\<lambda>(sk, ev). (sk, eid0, ev)) sent"
      by (simp_all add: s' gw_simps f [symmetric])
    have "outcome_written (sy_gateway s) eid0 (run\<lparr>ru_done := True, ru_events := stream\<rparr>)"
      by (rule race_events [OF race call finish_stream(1) [OF f]])
    then have new: "outcome_written (sy_gateway s') eid0 (run\<lparr>ru_done := True, ru_events := stream\<rparr>)"
      by (intro outcome_written_mono [OF dext]) (simp_all add: reason_kept [OF assms(1) parts(2)])
    have "\<exists>r. jm_get (sy_runs s') eid = Some r \<and> ru_done r \<and> m \<in> set (ru_events r)"
      if l: "(sk, eid, m) \<in> set (sy_log s)" for sk eid m
    proof -
      obtain r where r: "jm_get (sy_runs s) eid = Some r" "ru_done r" "m \<in> set (ru_events r)"
        using assms(3) l unfolding written_ok_def by blast
      with run have "eid \<noteq> eid0" by auto
      with r show ?thesis by (simp add: runs')
    qed
    then show ?thesis
      unfolding written_ok_def using mono new finish_stream(2) [OF f] by (auto simp: runs' log')
  qed
qed

lemma written_reachable: "sys_reachable D ok s \<Longrightarrow> written_ok s"
proof (induction rule: sys_reachable.induct)
  case (start r)
  show ?case by (simp add: written_ok_def start_system_def)
next
  case (step s ev s')
  then show ?case using written_step inv_reachable by blast
qed

end
