(* ===== verification/System_Properties.thy ===== *)
theory System_Properties
  imports System_Invariants Auth_Properties
begin

text \<open>
  The properties of the gateway process as a whole (Gateway_System), over every reachable state and so
  over every interleaving of requests, messages, timers and disconnects, with a concrete run for the
  witnesses.
\<close>

section \<open>A concrete run, for the witnesses\<close>

text \<open>
  A host and an observer connect with the same static token, a request starts an execution, the
  observer subscribes, the host answers and the execution ends.
\<close>

definition demo_deployment :: "((string, cval) jsmap, sqlite_store) deployment" where
  "demo_deployment = \<lparr>dp_cache = mem_cache, dp_store = None, dp_jose = plain_jose, dp_hash = id,
     dp_secret = ''key'', dp_internalSecret = None, dp_is_uuid = sample_uuid\<rparr>"

definition demo_start :: "((string, cval) jsmap, sqlite_store) system" where
  "demo_start = start_system (fresh_registry\<lparr>gr_cache := [(tokenKey ''t'', V_token ''h'' ''n'')]\<rparr>)"

definition demo_host :: "host_phase \<Rightarrow> bool \<Rightarrow> host_conn" where
  "demo_host phase alive = \<lparr>hc_session = \<lparr>hs_hostId = ''h'', hs_namespaceId = ''n'', hs_connectionId = ''k'',
     hs_socket = 0, hs_lastHeartbeat = 0\<rparr>, hc_protocolVersion = ''1.0'', hc_helloCaps = [''execution''],
     hc_capabilities = (if phase = HP_accepted then [] else [Execution]), hc_phase = phase, hc_alive = alive\<rparr>"

definition demo_client :: client_session where
  "demo_client = \<lparr>cl_connectionId = ''c'', cl_namespaceId = Some ''n'', cl_open = True\<rparr>"

definition demo_accepted :: "((string, cval) jsmap, sqlite_store) system" where
  "demo_accepted = sys_host_accept ''h'' ''n'' ''k'' ''1.0'' [''execution''] demo_start"

definition demo_prepared :: "((string, cval) jsmap, sqlite_store) system" where
  "demo_prepared = sys_host_prepare demo_deployment 0 (demo_host HP_accepted True) 0 demo_accepted"

definition demo_online :: "((string, cval) jsmap, sqlite_store) system" where
  "demo_online = sys_host_online demo_deployment 0 (demo_host HP_prepared True) 0 demo_prepared"

definition demo_registered :: "((string, cval) jsmap, sqlite_store) system" where
  "demo_registered = sys_host_register 0 (demo_host HP_online True) ''s'' demo_online"

definition demo_listening :: "((string, cval) jsmap, sqlite_store) system" where
  "demo_listening = sys_host_listen demo_deployment 0 (demo_host HP_registered True) (\<lambda>_. ''u'') 0 demo_registered"

definition demo_connected :: "((string, cval) jsmap, sqlite_store) system" where
  "demo_connected = sys_client_connect ''c'' (Some ''n'') demo_listening"

definition demo_context :: auth_context where
  "demo_context = sample_auth\<lparr>ac_userId := Some ''h''\<rparr>"

definition demo_running :: "((string, cval) jsmap, sqlite_store) system" where
  "demo_running = snd (sys_execute demo_context sample_body ''e'' ''r'' ''call''
     \<lparr>tc_traceId = ''t'', tc_spanId = ''u'', tc_parentId = None\<rparr> None 0 demo_connected)"

definition demo_subscribe :: jval where
  "demo_subscribe = JObj [(''type'', JStr ''client:subscribe''), (''executionId'', JStr ''e'')]"

definition demo_subscribed :: "((string, cval) jsmap, sqlite_store) system" where
  "demo_subscribed = set_gateway ((sy_gateway demo_running)\<lparr>gs_subs := subscribe ''c'' ''e'' (gs_subs (sy_gateway demo_running))\<rparr>) demo_running"

definition demo_answer :: jval where
  "demo_answer = JObj [(''type'', JStr ''result''), (''requestId'', JStr ''call'')]"

definition demo_answered :: "((string, cval) jsmap, sqlite_store) system" where
  "demo_answered = sys_host_message demo_deployment 0 (demo_host HP_listening True) 5 (Some demo_answer) demo_subscribed"

definition demo_run :: execution_run where
  "demo_run = \<lparr>ru_requestId = ''r'', ru_namespaceId = ''n'', ru_hostId = ''h'', ru_request = sample_execute,
     ru_signal = 0, ru_call = Inr ''call'', ru_socket = Some 0, ru_done = False, ru_events = []\<rparr>"

definition demo_finished :: "((string, cval) jsmap, sqlite_store) system" where
  "demo_finished = sys_finish (\<lambda>_. True) ''e'' demo_run (Race_value JUndef) 7 demo_answered"

lemma demo_handshake:
  "host_handshake mem_cache plain_jose ''key'' 0 (Some ''Bearer t'') (sy_cache demo_start)
     (Hello_message (Some (JObj [(''type'', JStr ''hello''), (''protocolVersion'', JStr ''1.0''),
       (''agentVersion'', JStr ''1''), (''capabilities'', JArr [JStr ''execution''])]))) =
     HH_accepted ''h'' ''n'' ''1.0'' [''execution'']"
  by code_simp

lemma demo_simps [simp]:
  "dp_cache demo_deployment = mem_cache" "dp_store demo_deployment = None" "dp_jose demo_deployment = plain_jose"
  "dp_secret demo_deployment = ''key''" "dp_is_uuid demo_deployment = sample_uuid"
  by (simp_all add: demo_deployment_def)

lemma demo_accept_step: "sys_step demo_deployment ok demo_start (SE_host_accept 0) demo_accepted"
proof -
  have "sys_step demo_deployment ok demo_start (SE_host_accept (sy_nextSocket demo_start)) demo_accepted"
    unfolding demo_accepted_def by (rule sys_step.host_accept) (simp, rule demo_handshake)
  then show ?thesis by (simp add: demo_start_def start_system_def)
qed

lemma demo_accepted_reachable: "sys_reachable demo_deployment ok demo_accepted"
  by (rule sys_reachable.step [OF sys_reachable.start demo_accept_step [unfolded demo_start_def]])

lemma demo_hosts:
  "jm_get (sy_hosts demo_accepted) 0 = Some (demo_host HP_accepted True)"
  "jm_get (sy_hosts demo_prepared) 0 = Some (demo_host HP_prepared True)"
  "jm_get (sy_hosts demo_online) 0 = Some (demo_host HP_online True)"
  "jm_get (sy_hosts demo_registered) 0 = Some (demo_host HP_registered True)"
  by code_simp+

lemma demo_host_fields [simp]:
  "hc_phase (demo_host phase alive) = phase" "hc_alive (demo_host phase alive) = alive"
  "hs_hostId (hc_session (demo_host phase alive)) = ''h''" "hs_namespaceId (hc_session (demo_host phase alive)) = ''n''"
  by (simp_all add: demo_host_def)

lemma demo_await_steps:
  "sys_step demo_deployment ok demo_accepted (SE_host_await 0) demo_prepared"
  "sys_step demo_deployment ok demo_prepared (SE_host_await 0) demo_online"
  "sys_step demo_deployment ok demo_registered (SE_host_await 0) demo_listening"
  unfolding demo_prepared_def demo_online_def demo_listening_def
  by (rule sys_step.host_prepare [OF demo_hosts(1)], simp)
    (unfold demo_prepared_def [symmetric], rule sys_step.host_online [OF demo_hosts(2)], simp,
     rule sys_step.host_listen [OF demo_hosts(4)], simp)

lemma demo_register_step: "sys_step demo_deployment ok demo_online (SE_host_register ''h'' ''n'' 0) demo_registered"
  using sys_step.host_register [OF demo_hosts(3), of demo_deployment ok "''s''"] by (simp add: demo_registered_def)

lemma demo_client_auth:
  "client_handshake mem_cache plain_jose ''key'' 0 \<lparr>hq_pathname = ''/clients/connect'',
     hq_authorization = Some ''Bearer t'', hq_access_token = None\<rparr>
     (sy_cache demo_listening)
     (Hello_message (Some (JObj [(''type'', JStr ''client:hello''), (''clientVersion'', JStr ''1'')]))) =
   WS_connected demo_context"
  by code_simp

lemma demo_listening_reachable: "sys_reachable demo_deployment ok demo_listening"
  by (rule sys_reachable.step [OF sys_reachable.step [OF sys_reachable.step [OF sys_reachable.step
    [OF demo_accepted_reachable demo_await_steps(1)] demo_await_steps(2)] demo_register_step] demo_await_steps(3)])

lemma demo_listening_clients: "sy_clients demo_listening = []" "sy_nextSocket demo_listening = 1"
  by (simp_all add: gw_simps demo_listening_def demo_registered_def demo_online_def demo_prepared_def demo_accepted_def
      demo_start_def start_system_def)

lemma demo_connect_step: "sys_step demo_deployment ok demo_listening (SE_client_connect 1) demo_connected"
proof -
  have "sys_step demo_deployment ok demo_listening (SE_client_connect (sy_nextSocket demo_listening))
      (sys_client_connect ''c'' (ac_namespaceId demo_context) demo_listening)"
    by (rule sys_step.client_connect, simp, rule demo_client_auth) (simp add: demo_listening_clients)
  then show ?thesis by (simp add: demo_connected_def demo_context_def sample_auth_def demo_listening_clients)
qed

lemma demo_connected_reachable: "sys_reachable demo_deployment ok demo_connected"
  by (rule sys_reachable.step [OF demo_listening_reachable demo_connect_step])

lemma demo_auth:
  "authMiddleware mem_cache plain_jose ''key'' 0 \<lparr>hq_pathname = ''/api/v1/execute'', hq_authorization = Some ''Bearer t'',
     hq_access_token = None\<rparr> (sy_cache demo_connected) = MW_authenticated demo_context"
  by code_simp

lemma demo_connected_facts:
  "jm_get (sy_runs demo_connected) ''e'' = None" "jm_get (d_promises (gs_disp (sy_gateway demo_connected))) ''call'' = None"
  by code_simp+

lemma demo_execute_step: "sys_step demo_deployment ok demo_connected (SE_execute demo_context ''e'') demo_running"
  unfolding demo_running_def
proof (rule sys_step.execute)
  show "authMiddleware (dp_cache demo_deployment) (dp_jose demo_deployment) (dp_secret demo_deployment) 0
      \<lparr>hq_pathname = ''/api/v1/execute'', hq_authorization = Some ''Bearer t'', hq_access_token = None\<rparr>
      (sy_cache demo_connected) = MW_authenticated demo_context"
    using demo_auth by simp
qed (simp_all add: demo_connected_facts)

lemma demo_running_reachable: "sys_reachable demo_deployment ok demo_running"
  by (rule sys_reachable.step [OF demo_connected_reachable demo_execute_step])

lemma demo_running_facts:
  "jm_get (sy_clients demo_running) 1 = Some demo_client" "jm_get (sy_runs demo_running) ''e'' = Some demo_run"
  "map_option ae_namespaceId (exec_get ''e'' (gs_exec (sy_gateway demo_running))) = Some ''n''"
  by code_simp+

lemma demo_subscribe_step: "sys_step demo_deployment ok demo_running (SE_client_message 1) demo_subscribed"
  unfolding demo_subscribed_def
proof (rule sys_step.client_message [OF demo_running_facts(1)])
  show "client_message (dp_is_uuid demo_deployment) (cl_namespaceId demo_client) (cl_connectionId demo_client)
      (Some demo_subscribe) (sy_gateway demo_running) =
      Inr ([], (sy_gateway demo_running)\<lparr>gs_subs := subscribe ''c'' ''e'' (gs_subs (sy_gateway demo_running))\<rparr>)"
    using demo_running_facts(3)
    by (auto simp: demo_subscribe_def client_message_def client_subscribe_def parse_execution_id_def as_string_def
        sample_uuid_def demo_client_def)
qed (simp add: demo_client_def)

lemma demo_subscribed_reachable: "sys_reachable demo_deployment ok demo_subscribed"
  by (rule sys_reachable.step [OF demo_running_reachable demo_subscribe_step])

lemma demo_subscribed_host: "jm_get (sy_hosts demo_subscribed) 0 = Some (demo_host HP_listening True)"
  by code_simp

lemma demo_answer_step:
  assumes "\<And>m. im_type m = ''result'' \<Longrightarrow> ok m"
  shows "sys_step demo_deployment ok demo_subscribed (SE_host_message 0) demo_answered"
  unfolding demo_answered_def
  by (rule sys_step.host_message [OF demo_subscribed_host])
    (auto simp: demo_host_def demo_answer_def inbounds_def inbound_of_def List.map_filter_def assms)

lemma demo_answered_reachable:
  assumes "\<And>m. im_type m = ''result'' \<Longrightarrow> ok m"
  shows "sys_reachable demo_deployment ok demo_answered"
  by (rule sys_reachable.step [OF demo_subscribed_reachable demo_answer_step [OF assms]])

lemma demo_answered_facts:
  "jm_get (sy_runs demo_answered) ''e'' = Some demo_run"
  "jm_get (d_promises (gs_disp (sy_gateway demo_answered))) ''call'' = Some (P_resolved JUndef)"
  by code_simp+

lemma demo_finish_step: "sys_step demo_deployment ok demo_answered (SE_finish ''e'') demo_finished"
  unfolding demo_finished_def
  by (rule sys_step.finish [OF demo_answered_facts(1)])
    (simp_all add: demo_run_def run_races_def race_of_def demo_answered_facts(2))

lemma demo_finished_reachable:
  assumes "\<And>m. im_type m = ''result'' \<Longrightarrow> ok m"
  shows "sys_reachable demo_deployment ok demo_finished"
  by (rule sys_reachable.step [OF demo_answered_reachable [OF assms] demo_finish_step])

lemma demo_finished_facts:
  "sy_log demo_finished = [(1, ''e'', E_done ''r'' ''e'' 0 7 (Some JUndef))]"
  "jm_get (sy_runs demo_finished) ''e'' = Some (demo_run\<lparr>ru_done := True,
     ru_events := [E_done ''r'' ''e'' 0 7 (Some JUndef)]\<rparr>)"
  by code_simp+

section \<open>Runs\<close>

inductive sys_run ::
  "('c, 's) deployment \<Rightarrow> (inbound_msg \<Rightarrow> bool) \<Rightarrow> ('c, 's) system \<Rightarrow> sys_event list \<Rightarrow> ('c, 's) system \<Rightarrow> bool"
  for D :: "('c, 's) deployment" and ok :: "inbound_msg \<Rightarrow> bool" where
  none: "sys_run D ok s [] s"
| more: "sys_run D ok s evs s' \<Longrightarrow> sys_step D ok s' ev s'' \<Longrightarrow> sys_run D ok s (evs @ [ev]) s''"

lemma sys_run_reachable: "sys_run D ok s evs s' \<Longrightarrow> sys_reachable D ok s \<Longrightarrow> sys_reachable D ok s'"
  by (induction rule: sys_run.induct) (auto intro: sys_reachable.step)

text \<open>A connection the dispatcher routes to although its socket is closed.\<close>

definition ghost_host :: "string \<Rightarrow> string \<Rightarrow> sock \<Rightarrow> string set \<Rightarrow> ('c, 's) system \<Rightarrow> bool" where
  "ghost_host h n sk caps s \<longleftrightarrow>
     socket_of (gs_disp (sy_gateway s)) n h = Some sk \<and>
     (\<forall>cap\<in>caps. h \<in> set (capable (gs_disp (sy_gateway s)) n cap)) \<and>
     (\<exists>hc. jm_get (sy_hosts s) sk = Some hc \<and> hc_phase hc \<in> {HP_registered, HP_listening} \<and> \<not> hc_alive hc)"

lemma capable_ops [gw_simps]:
  "capable (snd (dispatcher_call ns h a m args r tr thr d)) = capable d"
  "capable (fold handleInbound ms d) = capable d"
  "capable (call_timeout t d) = capable d"
proof -
  show "capable (fold handleInbound ms d) = capable d"
    by (induction ms arbitrary: d) (simp_all add: same_connections(2) [OF inbound_connections(2)])
qed (rule same_connections(2); simp add: gw_simps)+

lemma ghost_step:
  assumes "sys_step D ok s ev s'" "ghost_host h n sk caps s"
    and "\<forall>sk'. ev \<noteq> SE_host_register h n sk' \<and> ev \<noteq> SE_host_close h n sk'"
    and "hosts_live s"
  shows "ghost_host h n sk caps s'"
  using assms
proof (induction rule: sys_step.induct)
  case (client_message s sk' cl raw out g)
  from client_message(3) have "gs_disp g = gs_disp (sy_gateway s)"
    by (cases rule: client_message_effect) simp_all
  with client_message(4) show ?case by (simp add: ghost_host_def gw_simps)
next
  case (execute ms q s ctx eid callId body rid trace send_throws now)
  show ?case
    by (rule sys_execute_cases [of ctx body eid rid callId trace send_throws now s])
      (use execute(5) in \<open>simp_all add: ghost_host_def gw_simps\<close>)
next
  case (dispatch s callId provided body trace send_throws)
  show ?case
    by (rule internal_dispatch_cases [of "dp_internalSecret D" provided body callId trace send_throws "gs_disp (sy_gateway s)"])
      (use dispatch(2) in \<open>simp_all add: ghost_host_def gw_simps\<close>)
next
  case (host_accept ms authorization s hello hostId ns pv caps' conn)
  then have "sk < sy_nextSocket s" using hosts_liveD(1) [OF host_accept(4)] by (auto simp: ghost_host_def)
  with host_accept(2) show ?case by (auto simp: ghost_host_def gw_simps)
qed (auto simp: ghost_host_def gw_simps client_gone_def finish_state)

lemma ghost_run:
  "sys_run D ok s evs s' \<Longrightarrow> ghost_host h n sk caps s \<Longrightarrow> sys_reachable D ok s \<Longrightarrow>
     \<forall>sk'. SE_host_register h n sk' \<notin> set evs \<and> SE_host_close h n sk' \<notin> set evs \<Longrightarrow> ghost_host h n sk caps s'"
proof (induction rule: sys_run.induct)
  case (more s evs s' ev s'')
  have "hosts_live s'" using sys_inv_parts(7) [OF inv_reachable [OF sys_run_reachable [OF more(1,5)]]] .
  moreover have "ghost_host h n sk caps s'" using more by simp
  moreover have "\<forall>sk'. ev \<noteq> SE_host_register h n sk' \<and> ev \<noteq> SE_host_close h n sk'" using more.prems(3) by auto
  ultimately show ?case using ghost_step [OF more(2)] by blast
qed simp

section \<open>Properties\<close>

text \<open>
  C2: no event crosses namespaces. In every reachable state, whatever was ever sent to an observer is
  an event of a finished execution of the namespace the observer's token names, and one that the
  initiator of that execution was sent as well; and so is every current subscription.
\<close>

theorem observers_stay_in_namespace:
  assumes "sys_reachable D ok s"
  shows "((sk, eid, ev) \<in> set (sy_log s) \<longrightarrow>
      (\<exists>cl run. jm_get (sy_clients s) sk = Some cl \<and> jm_get (sy_runs s) eid = Some run \<and>
         cl_namespaceId cl = Some (ru_namespaceId run) \<and> ru_done run \<and> ev \<in> set (ru_events run))) \<and>
    (conn \<in> set (getSubscribers eid (gs_subs (sy_gateway s))) \<longrightarrow>
      (\<exists>sk' cl run. jm_get (sy_clients s) sk' = Some cl \<and> cl_connectionId cl = conn \<and>
         jm_get (sy_runs s) eid = Some run \<and> cl_namespaceId cl = Some (ru_namespaceId run)))"
proof -
  note inv = sys_inv_parts [OF inv_reachable [OF assms]]
  have "\<exists>cl run. jm_get (sy_clients s) sk = Some cl \<and> jm_get (sy_runs s) eid = Some run \<and>
         cl_namespaceId cl = Some (ru_namespaceId run) \<and> ru_done run \<and> ev \<in> set (ru_events run)"
    if "(sk, eid, ev) \<in> set (sy_log s)"
    using confinedD(2) [OF inv(6) that] written_reachable [OF assms] that
    unfolding may_see_def written_ok_def by fastforce
  moreover have "\<exists>sk' cl run. jm_get (sy_clients s) sk' = Some cl \<and> cl_connectionId cl = conn \<and>
         jm_get (sy_runs s) eid = Some run \<and> cl_namespaceId cl = Some (ru_namespaceId run)"
    if c: "conn \<in> set (getSubscribers eid (gs_subs (sy_gateway s)))"
  proof -
    obtain sk' cl where c: "jm_get (sy_clients s) sk' = Some cl" "cl_connectionId cl = conn" "may_see s sk' eid"
      using confinedD(1) [OF inv(6) c] by blast
    then show ?thesis by (intro exI [of _ sk']) (simp add: may_see_def)
  qed
  ultimately show ?thesis by blast
qed

lemma observers_stay_in_namespace_witness:
  "\<exists>cl run. jm_get (sy_clients demo_finished) 1 = Some cl \<and> jm_get (sy_runs demo_finished) ''e'' = Some run \<and>
     cl_namespaceId cl = Some (ru_namespaceId run) \<and> E_done ''r'' ''e'' 0 7 (Some JUndef) \<in> set (ru_events run)"
proof -
  have "(1, ''e'', E_done ''r'' ''e'' 0 7 (Some JUndef)) \<in> set (sy_log demo_finished)"
    by (simp add: demo_finished_facts(1))
  with observers_stay_in_namespace [OF demo_finished_reachable [OF TrueI], of 1 "''e''"
      "E_done ''r'' ''e'' 0 7 (Some JUndef)"] show ?thesis by blast
qed



text \<open>
  C4: every abort has a cause. A running execution is aborted only by a cancel message of an observer
  of its namespace (``user'' or ``timeout''), by the cancel route for a caller of its namespace (the
  reason given), by its own client going away, or by the close of a host connection with the id of its
  host (``disconnect''). No other step of any other module touches its signal.
\<close>

theorem abort_has_cause:
  assumes "sys_reachable D ok s" "sys_step D ok s ev s'"
    and "jm_get (sy_runs s) eid = Some run" "\<not> ru_done run"
    and "abort_reason (gs_exec (sy_gateway s)) (ru_signal run) = None"
    and "abort_reason (gs_exec (sy_gateway s')) (ru_signal run) = Some r"
  shows "(\<exists>sk cl. ev = SE_client_message sk \<and> jm_get (sy_clients s) sk = Some cl \<and>
       cl_namespaceId cl = Some (ru_namespaceId run) \<and> r \<in> {''user'', ''timeout''}) \<or>
    (\<exists>ctx reason. ev = SE_cancel ctx eid reason \<and> ac_namespaceId ctx = Some (ru_namespaceId run) \<and>
       r = or_else reason ''user'') \<or>
    (ev = SE_client_gone eid \<and> r = ''disconnect'') \<or>
    (\<exists>ns sk. ev = SE_host_close (ru_hostId run) ns sk \<and> r = ''disconnect'')"
proof -
  note inv = sys_inv_parts [OF inv_reachable [OF assms(1)]]
  obtain e where e: "exec_get eid (gs_exec (sy_gateway s)) = Some e" "ae_namespaceId e = ru_namespaceId run"
    "ae_hostId e = ru_hostId run" "ae_controller e = ru_signal run"
    using running_entry [OF inv(5) assms(3,4)] .
  from abort_cause [OF assms(2) inv(2) e(1)] e(2-4) assms(5,6) show ?thesis by simp
qed

lemma demo_gone_facts:
  "abort_reason (gs_exec (sy_gateway demo_running)) 0 = None"
  "abort_reason (gs_exec (client_gone ''e'' (sy_gateway demo_running))) 0 = Some ''disconnect''"
  by code_simp+

lemma abort_has_cause_witness:
  "\<exists>s'. sys_step demo_deployment (\<lambda>_. True) demo_running (SE_client_gone ''e'') s' \<and>
     abort_reason (gs_exec (sy_gateway s')) 0 = Some ''disconnect'' \<and>
     SE_client_gone ''e'' \<noteq> SE_client_message 1"
proof -
  let ?s' = "set_gateway (client_gone ''e'' (sy_gateway demo_running)) demo_running"
  have step: "sys_step demo_deployment (\<lambda>_. True) demo_running (SE_client_gone ''e'') ?s'"
    by (rule sys_step.client_gone [OF demo_running_facts(2)])
  from abort_has_cause [OF demo_running_reachable step demo_running_facts(2), of "''disconnect''"] demo_gone_facts
  have "abort_reason (gs_exec (sy_gateway ?s')) 0 = Some ''disconnect''" by (simp add: demo_run_def gw_simps)
  with step show ?thesis by auto
qed




definition demo_lost :: "((string, cval) jsmap, sqlite_store) system" where
  "demo_lost = set_host 0 (demo_host HP_prepared False) demo_prepared"

lemma demo_lost_facts:
  "sys_reachable demo_deployment ok demo_lost" "jm_get (sy_hosts demo_lost) 0 = Some (demo_host HP_prepared False)"
  "getFromCache mem_cache ''h'' ''n'' (hw_registry (sy_world demo_lost)) \<noteq> None"
proof -
  show "jm_get (sy_hosts demo_lost) 0 = Some (demo_host HP_prepared False)" by (simp add: demo_lost_def gw_simps)
  have "(demo_host HP_prepared True)\<lparr>hc_alive := False\<rparr> = demo_host HP_prepared False" by (simp add: demo_host_def)
  then show "sys_reachable demo_deployment ok demo_lost"
    using sys_reachable.step [OF sys_reachable.step [OF demo_accepted_reachable demo_await_steps(1)]
        sys_step.host_lost [OF demo_hosts(2)]]
    by (simp add: demo_lost_def connecting_def)
  show "getFromCache mem_cache ''h'' ''n'' (hw_registry (sy_world demo_lost)) \<noteq> None" by code_simp
qed


text \<open>
  Until its listeners are installed a host is not heard, although calls may already be sent to it: its
  messages are dropped and its close has no handler.
\<close>

lemma unheard_while_connecting:
  assumes "jm_get (sy_hosts s) sk = Some hc" "connecting (hc_phase hc)"
  shows "\<not> sys_step D ok s (SE_host_message sk) s'" "\<not> sys_step D ok s (SE_host_close h n sk) s'"
    "sys_step D ok s (SE_host_dropped sk) s' \<Longrightarrow> s' = s"
  using assms by (auto elim: sys_step.cases simp: connecting_def)

lemma registered_host_unheard:
  assumes "jm_get (sy_hosts s) sk = Some hc" "hc_phase hc = HP_online" "hs_socket (hc_session hc) = sk"
  shows "socket_of (gs_disp (sy_gateway (sys_host_register sk hc sid s))) (hs_namespaceId (hc_session hc))
      (hs_hostId (hc_session hc)) = Some sk \<and>
    \<not> sys_step D ok (sys_host_register sk hc sid s) (SE_host_message sk) s'"
  using assms unheard_while_connecting(1) [of "sys_host_register sk hc sid s" sk "hc\<lparr>hc_phase := HP_registered\<rparr>" D ok s']
  by (simp add: gw_simps connecting_def)

text \<open>
  A host id is not enough: the close of a host connection aborts the running executions of every host
  with its id, whatever namespace they and the connection belong to.
\<close>

lemma host_close_ignores_namespace:
  assumes "sys_reachable D ok s" "jm_get (sy_runs s) eid = Some run" "\<not> ru_done run"
    and "abort_reason (gs_exec (sy_gateway s)) (ru_signal run) = None"
    and "ru_hostId run = hs_hostId (hc_session hc)"
  shows "abort_reason (gs_exec (sy_gateway (sys_host_close D sk hc now s))) (ru_signal run) = Some ''disconnect''"
proof -
  note inv = sys_inv_parts [OF inv_reachable [OF assms(1)]]
  obtain e where e: "exec_get eid (gs_exec (sy_gateway s)) = Some e" "ae_hostId e = ru_hostId run"
    "ae_controller e = ru_signal run"
    using running_entry [OF inv(5) assms(2,3)] by metis
  from reason_cancelByHost [OF inv(2) e(1)] e assms(4,5) show ?thesis by (simp add: gw_simps)
qed

end
