(* ===== verification/System_Messages.thy ===== *)
theory System_Messages
  imports System_Properties Wire_Format
begin

text \<open>
  What observers receive from the running process: the messages of Wire_Format sent by the transition
  system of Gateway_System, checked against the schema union observers are promised.
\<close>

section \<open>Reasons\<close>

definition known_reasons :: "string set" where
  "known_reasons = {''user'', ''timeout'', ''disconnect'', ''system''}"

lemma cancel_fold_reason:
  "abort_reason (snd (fold (cancel_if_on_host h r) ks (acc, x))) sg \<in> {abort_reason x sg, Some r}"
proof (induction ks arbitrary: acc x)
  case (Cons k ks)
  obtain acc' x' where st: "cancel_if_on_host h r k (acc, x) = (acc', x')" by fastforce
  have "abort_reason x' sg \<in> {abort_reason x sg, Some r}"
    using st by (auto simp: cancel_if_on_host_def split: option.splits if_splits)
  with Cons [of acc' x'] st show ?case by auto
qed simp

text \<open>A step gives a signal one of the known reasons, unless it is the cancel route with another one.\<close>

lemma new_reason:
  assumes "sys_step D ok s ev s'" "exec_ok (gs_exec (sy_gateway s))"
    and "abort_reason (gs_exec (sy_gateway s)) sg = None" "abort_reason (gs_exec (sy_gateway s')) sg = Some r"
  shows "r \<in> known_reasons \<or> (\<exists>ctx eid. ev = SE_cancel ctx eid (Some r))"
  using assms
proof (induction rule: sys_step.induct)
  case (client_message s sk cl raw out g)
  from client_message(3) show ?case
    by (cases rule: client_message_effect)
      (use client_message(5,6) in \<open>auto simp: gw_simps known_reasons_def split: if_splits\<close>)
next
  case (execute ms q s ctx eid' callId body rid trace send_throws now)
  have "abort_reason (gs_exec (sy_gateway (snd (sys_execute ctx body eid' rid callId trace send_throws now s)))) sg =
      abort_reason (gs_exec (sy_gateway s)) sg"
    by (rule sys_execute_cases [of ctx body eid' rid callId trace send_throws now s])
      (simp_all add: gw_simps register_reason [OF execute(5)])
  with execute(6,7) show ?case by simp
next
  case (cancel ms q s ctx eid' reason)
  from cancel_route_state [of ctx eid' reason "gs_exec (sy_gateway s)"] cancel(3,4) show ?case
    by (cases reason) (auto simp: gw_simps known_reasons_def split: if_splits)
next
  case (client_gone s eid' run)
  then show ?case
    by (auto simp: gw_simps client_gone_def exec_cancel_def known_reasons_def split: option.splits if_splits)
next
  case (finish s eid' run race is_open dur)
  then show ?case by (simp add: gw_simps finish_state exec_remove_def abort_reason_def)
next
  case (host_close s sk hc now)
  from cancel_fold_reason [of "hs_hostId (hc_session hc)" "''disconnect''"
      "jm_keys (xr_executions (gs_exec (sy_gateway s)))" "[]" "gs_exec (sy_gateway s)" sg] host_close(5,6)
  show ?case by (auto simp: gw_simps cancelByHost_def known_reasons_def)
qed (simp_all add: gw_simps)

lemma run_reasons:
  assumes "sys_run D ok s evs s'" "sys_reachable D ok s"
    and "\<And>sg r. abort_reason (gs_exec (sy_gateway s)) sg = Some r \<Longrightarrow> r \<in> known_reasons"
    and "\<And>ctx eid r. SE_cancel ctx eid (Some r) \<in> set evs \<Longrightarrow> r \<in> known_reasons"
      and "abort_reason (gs_exec (sy_gateway s')) sg = Some r"
  shows "r \<in> known_reasons"
  using assms
proof (induction arbitrary: sg r rule: sys_run.induct)
  case (more s evs s' ev s'')
  note base = more.prems(1,2)
  have ok: "exec_ok (gs_exec (sy_gateway s'))"
    using sys_inv_parts(2) [OF inv_reachable [OF sys_run_reachable [OF more.hyps(1) base(1)]]] .
  have cancels: "SE_cancel ctx eid (Some r) \<in> set evs \<Longrightarrow> r \<in> known_reasons" for ctx eid r
    using more.prems(3) by auto
  show ?case
  proof (cases "abort_reason (gs_exec (sy_gateway s')) sg")
    case None
    from new_reason [OF more.hyps(2) ok None more.prems(4)] more.prems(3) show ?thesis by auto
  next
    case (Some r')
    with reason_kept [OF more.hyps(2) ok Some] more.prems(4)
    have old: "abort_reason (gs_exec (sy_gateway s')) sg = Some r" by simp
    show ?thesis by (rule more.IH [OF base(1) _ _ old]) (use base(2) cancels in blast)+
  qed
qed blast

section \<open>Properties\<close>

fun event_duration :: "execution_event \<Rightarrow> int" where
  "event_duration (E_done _ _ _ dur _) = dur"
| "event_duration (E_cancelled _ _ _ dur) = dur"
| "event_duration _ = 0"

text \<open>
  C17: observers get what they were promised. In a run of the process from its start in which the cancel
  route is called with the reasons of the protocol only, every message an observer was sent is accepted by
  the union \<open>ClientOutboundMessage\<close>, as long as the clock did not go backwards while the execution ran.
\<close>

theorem observed_events_typed:
  assumes "sys_run D ok (start_system r0) evs s"
    and "\<And>ctx eid r. SE_cancel ctx eid (Some r) \<in> set evs \<Longrightarrow> r \<in> known_reasons"
    and "(sk, eid, ev) \<in> set (sy_log s)"
  shows "accepted ClientOutboundMessage (js_wire (client_json (C_event ev))) \<longleftrightarrow> 0 \<le> event_duration ev"
proof -
  have start: "sys_reachable D ok (start_system r0)" by (rule sys_reachable.start)
  obtain run where run: "jm_get (sy_runs s) eid = Some run" "ru_done run" "ev \<in> set (ru_events run)"
    and out: "outcome_written (sy_gateway s) eid run"
    using written_reachable [OF sys_run_reachable [OF assms(1) start]] assms(3) unfolding written_ok_def by blast
  have known: "reason \<in> known_reasons" if "abort_reason (gs_exec (sy_gateway s)) (ru_signal run) = Some reason" for reason
    by (rule run_reasons [OF assms(1) start _ assms(2) that])
      (simp_all add: start_system_def sy_gateway_def init_exec_registry_def abort_reason_def)
  from out run(2,3) have "event_conforms ev \<longleftrightarrow> 0 \<le> event_duration ev"
    by (auto simp: outcome_written_def Let_def known_reasons_def dest!: known)
  then show ?thesis by (simp only: client_wire client_conforms.simps)
qed

lemma demo_sys_run:
  "sys_run demo_deployment (\<lambda>_. True) demo_start [SE_host_accept 0, SE_host_await 0, SE_host_await 0,
     SE_host_register ''h'' ''n'' 0, SE_host_await 0, SE_client_connect 1, SE_execute demo_context ''e'',
     SE_client_message 1, SE_host_message 0, SE_finish ''e''] demo_finished"
  using sys_run.more [OF sys_run.more [OF sys_run.more [OF sys_run.more [OF sys_run.more [OF sys_run.more [OF
    sys_run.more [OF sys_run.more [OF sys_run.more [OF sys_run.more [OF sys_run.none demo_accept_step]
    demo_await_steps(1)] demo_await_steps(2)] demo_register_step] demo_await_steps(3)] demo_connect_step]
    demo_execute_step] demo_subscribe_step] demo_answer_step] demo_finish_step] by simp

lemma observed_events_typed_witness:
  "accepted ClientOutboundMessage (js_wire (client_json (C_event (E_done ''r'' ''e'' 0 7 (Some JUndef)))))"
  using observed_events_typed [OF demo_sys_run [unfolded demo_start_def], of 1 "''e''" "E_done ''r'' ''e'' 0 7 (Some JUndef)"]
  by (simp add: demo_finished_facts)

end
