(* ===== verification/Tenant_Isolation.thy ===== *)
theory Tenant_Isolation
  imports Server_Routes
begin

text \<open>
  Isolation of namespaces as noninterference: what a namespace is answered depends on its own actions
  only. The locale \<open>tenants\<close> states the three laws a component has to keep, by what a namespace sees of
  its state, and derives the purging theorem. It is interpreted on the host API of server.ts over the
  registry (with the store under the contract \<open>tenant_store\<close>, which the SQLite store keeps) and on the
  routing of the dispatcher. Whose action it is, is what authentication says; what callers write past the
  host API, through the platform route, is not an action here (see \<open>platform_cache_forges_identity\<close> in
  Http_Properties).
\<close>

section \<open>The contract\<close>

fun tenant_run :: "('act \<Rightarrow> 'st \<Rightarrow> 'reply \<times> 'st) \<Rightarrow> 'act list \<Rightarrow> 'st \<Rightarrow> ('act \<times> 'reply) list \<times> 'st" where
  "tenant_run step [] s = ([], s)"
| "tenant_run step (a # as) s =
     (let (reply, s1) = step a s; (rest, s2) = tenant_run step as s1 in ((a, reply) # rest, s2))"

locale tenants =
  fixes step :: "'act \<Rightarrow> 'st \<Rightarrow> 'reply \<times> 'st"
    and owner :: "'act \<Rightarrow> string"
    and plain :: "string \<Rightarrow> bool"
    and inv :: "'st \<Rightarrow> bool"
    and view :: "string \<Rightarrow> 'st \<Rightarrow> 'view"
  assumes keeps_inv: "plain (owner a) \<Longrightarrow> inv s \<Longrightarrow> inv (snd (step a s))"
    and locally_respects: "plain (owner a) \<Longrightarrow> plain n \<Longrightarrow> inv s \<Longrightarrow> owner a \<noteq> n \<Longrightarrow>
      view n (snd (step a s)) = view n s"
    and output_consistent: "plain (owner a) \<Longrightarrow> inv s \<Longrightarrow> inv t \<Longrightarrow> view (owner a) s = view (owner a) t \<Longrightarrow>
      fst (step a s) = fst (step a t)"
    and step_consistent: "plain (owner a) \<Longrightarrow> inv s \<Longrightarrow> inv t \<Longrightarrow> view (owner a) s = view (owner a) t \<Longrightarrow>
      view (owner a) (snd (step a s)) = view (owner a) (snd (step a t))"
begin

theorem noninterference:
  "\<forall>a\<in>set as. plain (owner a) \<Longrightarrow> plain n \<Longrightarrow> inv s \<Longrightarrow> inv t \<Longrightarrow> view n s = view n t \<Longrightarrow>
     filter (\<lambda>(a, reply). owner a = n) (fst (tenant_run step as s)) =
       fst (tenant_run step (filter (\<lambda>a. owner a = n) as) t) \<and>
     view n (snd (tenant_run step as s)) = view n (snd (tenant_run step (filter (\<lambda>a. owner a = n) as) t))"
proof (induction as arbitrary: s t)
  case (Cons a as)
  then have a: "plain (owner a)" "inv (snd (step a s))" by (simp_all add: keeps_inv)
  show ?case
  proof (cases "owner a = n")
    case True
    with Cons.prems have "fst (step a s) = fst (step a t)"
      "view n (snd (step a s)) = view n (snd (step a t))" "inv (snd (step a t))"
      using output_consistent [of a s t] step_consistent [of a s t] keeps_inv [of a t] by auto
    with True Cons.prems a Cons.IH [of "snd (step a s)" "snd (step a t)"] show ?thesis
      by (simp add: case_prod_unfold Let_def)
  next
    case False
    with Cons.prems have "view n (snd (step a s)) = view n t" using locally_respects [of a n s] by simp
    with False Cons.prems a Cons.IH [of "snd (step a s)" t] show ?thesis
      by (simp add: case_prod_unfold Let_def)
  qed
qed simp

text \<open>In particular two interleavings in which a namespace does the same give it the same answers.\<close>

lemma others_do_not_matter:
  assumes "\<forall>a\<in>set as \<union> set bs. plain (owner a)" "plain n" "inv s"
    and "filter (\<lambda>a. owner a = n) as = filter (\<lambda>a. owner a = n) bs"
  shows "filter (\<lambda>(a, reply). owner a = n) (fst (tenant_run step as s)) =
    filter (\<lambda>(a, reply). owner a = n) (fst (tenant_run step bs s))"
  using noninterference [of as n s s] noninterference [of bs n s s] assms by simp

end

section \<open>Stores\<close>

locale tenant_store =
  fixes S :: "'s store_ops" and rows :: "string \<Rightarrow> 's \<Rightarrow> 'r"
  assumes get_out: "rows n s = rows n t \<Longrightarrow> fst (s_get S h n s) = fst (s_get S h n t)"
    and get_rows: "rows m (snd (s_get S h n s)) = rows m s"
    and get_namespace: "fst (s_get S h n s) = Some d \<Longrightarrow> hd_namespaceId d = n"
    and list_out: "rows n s = rows n t \<Longrightarrow> fst (s_list S n s) = fst (s_list S n t)"
    and list_rows: "rows m (snd (s_list S n s)) = rows m s"
    and save_other: "m \<noteq> hd_namespaceId d \<Longrightarrow> rows m (s_save S d now s) = rows m s"
    and save_own: "n = hd_namespaceId d \<Longrightarrow> rows n s = rows n t \<Longrightarrow>
      rows n (s_save S d now s) = rows n (s_save S d now t)"
    and delete_out: "rows n s = rows n t \<Longrightarrow> fst (s_delete S h n s) = fst (s_delete S h n t)"
    and delete_other: "m \<noteq> n \<Longrightarrow> rows m (snd (s_delete S h n s)) = rows m s"
    and delete_own: "rows n s = rows n t \<Longrightarrow> rows n (snd (s_delete S h n s)) = rows n (snd (s_delete S h n t))"
    and token_rows: "rows m (s_saveToken S tok h n now s) = rows m s"

definition namespace_rows :: "string \<Rightarrow> sqlite_store \<Rightarrow> host_row list" where
  "namespace_rows n s = filter (\<lambda>row. ho_namespace_id row = n) (hosts_of s)"

lemma filter_upsert:
  assumes "\<And>r r'. key r = key r' \<Longrightarrow> P r = P r'" "\<And>r. key (upd r new) = key r"
  shows "filter P (upsert key upd new rows) = (if P new then upsert key upd new (filter P rows) else filter P rows)"
proof -
  have upd: "P (upd r new) = P r" for r using assms by blast
  have "filter P (map (\<lambda>r. if key r = key new then upd r new else r) rows) =
      map (\<lambda>r. if key r = key new then upd r new else r) (filter P rows)"
    by (induction rows) (auto simp: upd)
  moreover have "map (\<lambda>r. if key r = key new then upd r new else r) (filter P rows) = filter P rows" if "\<not> P new"
  proof (rule map_idI)
    fix r assume "r \<in> set (filter P rows)"
    then have "key r \<noteq> key new" using assms(1) [of r new] that by auto
    then show "(if key r = key new then upd r new else r) = r" by simp
  qed
  moreover have "key new \<in> key ` set (filter P rows) \<longleftrightarrow> key new \<in> key ` set rows" if "P new"
  proof -
    have "P r" if "key new = key r" for r using assms(1) [OF that] \<open>P new\<close> by simp
    then show ?thesis by (auto simp: image_iff)
  qed
  ultimately show ?thesis by (simp add: upsert_def)
qed

lemma rows_after_save:
  "namespace_rows m (sqlite_save d now s) =
     (if m = hd_namespaceId d then upsert host_key host_update (descriptor_row d now) (namespace_rows m s)
      else namespace_rows m s)"
proof -
  have "host_key r = host_key r' \<Longrightarrow> (ho_namespace_id r = m) = (ho_namespace_id r' = m)" for r r'
    by (simp add: host_key_def)
  from filter_upsert [where P = "\<lambda>r. ho_namespace_id r = m" and key = host_key and upd = host_update, OF this host_update_key]
  show ?thesis by (simp add: namespace_rows_def sqlite_save_def Let_def descriptor_row_def)
qed

lemma rows_after_delete:
  "namespace_rows m (snd (sqlite_delete h n s)) =
     (if m = n then filter (\<lambda>row. ho_host_id row \<noteq> h) (namespace_rows m s) else namespace_rows m s)"
  by (auto simp: namespace_rows_def sqlite_delete_def Let_def filter_filter intro: filter_cong)

lemma rows_migrate [simp]: "namespace_rows m (migrate s) = namespace_rows m s"
  by (simp add: namespace_rows_def)

lemma sqlite_by_rows:
  "fst (sqlite_get h n s) = map_option rowToDescriptor (first_row (filter (\<lambda>row. ho_host_id row = h) (namespace_rows n s)))"
  "fst (sqlite_list n s) = map rowToDescriptor (sort_key ho_created_at (namespace_rows n s))"
  "fst (sqlite_delete h n s) \<longleftrightarrow> filter (\<lambda>row. ho_host_id row = h) (namespace_rows n s) \<noteq> []"
  by (simp_all add: sqlite_get_def sqlite_list_def sqlite_delete_def namespace_rows_def Let_def filter_filter conj_commute)

lemma rows_after_token [simp]: "namespace_rows m (sqlite_saveToken tok h n now s) = namespace_rows m s"
  by (simp add: namespace_rows_def sqlite_saveToken_def Let_def)

interpretation sqlite: tenant_store sqlite_ops namespace_rows
proof unfold_locales
  fix n h :: string and s :: sqlite_store and d :: host_descriptor
  assume "fst (s_get sqlite_ops h n s) = Some d"
  then have "sqlite_persisted s n h = Some d" by (simp add: sqlite_ops_def sqlite_get_result)
  then show "hd_namespaceId d = n"
    by (auto simp: sqlite_persisted_def rowToDescriptor_def host_key_iff dest: row_at_SomeD)
qed (simp_all add: sqlite_ops_def sqlite_by_rows sqlite_reads_migrate rows_after_save rows_after_delete)

section \<open>The host API\<close>

text \<open>
  Requests to \<open>/hosts\<close>, each under the context the middleware gave it (registering is public and names its
  namespace itself), and what the WebSocket handler does to the registry for a connected host.
\<close>

datatype hosts_act =
    HA_register string string int jval
  | HA_list auth_context
  | HA_get auth_context string
  | HA_delete auth_context string
  | HA_ensure string string string "host_capability list" int
  | HA_online string string string int
  | HA_offline string string string int
  | HA_heartbeat string string int

fun hosts_owner :: "hosts_act \<Rightarrow> string" where
  "hosts_owner (HA_register uuid tok now body) = (case parse_host_registration body of None \<Rightarrow> [] | Some reg \<Rightarrow> hr_namespaceId reg)"
| "hosts_owner (HA_list ctx) = auth_namespace ctx"
| "hosts_owner (HA_get ctx h) = auth_namespace ctx"
| "hosts_owner (HA_delete ctx h) = auth_namespace ctx"
| "hosts_owner (HA_ensure h n name caps now) = n"
| "hosts_owner (HA_online h n conn now) = n"
| "hosts_owner (HA_offline h n conn now) = n"
| "hosts_owner (HA_heartbeat h n now) = n"

fun hosts_step ::
  "'c cache_ops \<Rightarrow> 's store_ops option \<Rightarrow> hosts_act \<Rightarrow> ('c, 's) host_registry \<Rightarrow>
     hosts_reply option \<times> ('c, 's) host_registry" where
  "hosts_step C St (HA_register uuid tok now body) r = map_prod Some id (route_hosts_register C St uuid tok now body r)"
| "hosts_step C St (HA_list ctx) r = map_prod Some id (route_hosts_list C St (Some ctx) r)"
| "hosts_step C St (HA_get ctx h) r = map_prod Some id (route_hosts_get C St (Some ctx) h r)"
| "hosts_step C St (HA_delete ctx h) r = map_prod Some id (route_hosts_delete C St (Some ctx) h r)"
| "hosts_step C St (HA_ensure h n name caps now) r = (None, ensureRegistered C St h n name caps now r)"
| "hosts_step C St (HA_online h n conn now) r = (None, setOnline C St h n conn now r)"
| "hosts_step C St (HA_offline h n conn now) r = (None, setOffline C St h n conn now r)"
| "hosts_step C St (HA_heartbeat h n now) r = (None, heartbeat C h n now r)"

text \<open>What a namespace sees: its cached hosts, its index and its rows.\<close>

definition hosts_seen :: "'c cache_ops \<Rightarrow> string \<Rightarrow> ('c, 's) host_registry \<Rightarrow> string \<Rightarrow> host_descriptor option" where
  "hosts_seen C n r = (\<lambda>h. getFromCache C h n r)"

definition index_seen :: "'c cache_ops \<Rightarrow> string \<Rightarrow> ('c, 's) host_registry \<Rightarrow> string list" where
  "index_seen C n r = index_list C (indexKey n) r"

definition hosts_view ::
  "'c cache_ops \<Rightarrow> (string \<Rightarrow> 's \<Rightarrow> 'r) \<Rightarrow> string \<Rightarrow> ('c, 's) host_registry \<Rightarrow>
     (string \<Rightarrow> host_descriptor option) \<times> string list \<times> 'r" where
  "hosts_view C rows n r = (hosts_seen C n r, index_seen C n r, rows n (gr_store r))"

text \<open>A cached descriptor names the namespace it is filed under.\<close>

definition filed_ok :: "'c cache_ops \<Rightarrow> ('c, 's) host_registry \<Rightarrow> bool" where
  "filed_ok C r \<longleftrightarrow> (\<forall>n h d. no_colon n \<longrightarrow> getFromCache C h n r = Some d \<longrightarrow> hd_namespaceId d = n)"

lemma cached_is_seen: "getFromCache C h n r = hosts_seen C n r h" "index_list C (indexKey n) r = index_seen C n r"
  by (simp_all add: hosts_seen_def index_seen_def)

lemma filed_ok_seen: "filed_ok C r \<longleftrightarrow> (\<forall>n h d. no_colon n \<longrightarrow> hosts_seen C n r h = Some d \<longrightarrow> hd_namespaceId d = n)"
  by (simp add: filed_ok_def hosts_seen_def)

context icache
begin

lemma seen_cong:
  "gr_cache r = gr_cache r' \<Longrightarrow> hosts_seen C n r = hosts_seen C n r'"
  "gr_cache r = gr_cache r' \<Longrightarrow> index_seen C n r = index_seen C n r'"
  by (simp_all add: hosts_seen_def index_seen_def getFromCache_def index_list_def)

lemma seen_store [simp]:
  "hosts_seen C n (r\<lparr>gr_store := s\<rparr>) = hosts_seen C n r" "index_seen C n (r\<lparr>gr_store := s\<rparr>) = index_seen C n r"
  "hosts_seen C n (reg_store_save St d now r) = hosts_seen C n r"
  "index_seen C n (reg_store_save St d now r) = index_seen C n r"
  "hosts_seen C n (clear_grace k r) = hosts_seen C n r" "index_seen C n (clear_grace k r) = index_seen C n r"
  "hosts_seen C n (arm_grace h m r) = hosts_seen C n r" "index_seen C n (arm_grace h m r) = index_seen C n r"
  by (rule seen_cong; simp)+

lemma seen_put [simp]:
  "no_colon n \<Longrightarrow> no_colon m \<Longrightarrow> hosts_seen C n (reg_set C (hostKey m h) (V_host d) r) =
     (if n = m then (hosts_seen C n r)(h \<mapsto> d) else hosts_seen C n r)"
  "index_seen C n (reg_set C (hostKey m h) v r) = index_seen C n r"
  "hosts_seen C n (reg_set C (tokenKey t) v r) = hosts_seen C n r"
  "index_seen C n (reg_set C (tokenKey t) v r) = index_seen C n r"
  by (auto simp: hosts_seen_def index_seen_def index_list_def getFromCache_def reg_set_def read_over_set hostKey_inj
      fun_eq_iff)

lemma seen_add [simp]:
  "hosts_seen C n (addToIndex C m h r) = hosts_seen C n r"
  "index_seen C n (addToIndex C m h r) =
     (if n = m \<and> h \<notin> set (index_seen C n r) then index_seen C n r @ [h] else index_seen C n r)"
  by (auto simp: hosts_seen_def index_seen_def index_list_def getFromCache_def reg_set_def read_over_set addToIndex_def
      add_to_list_def Let_def)

lemma seen_remove [simp]:
  "hosts_seen C n (removeFromIndex C m h r) = hosts_seen C n r"
  "index_seen C n (removeFromIndex C m h r) =
     (if n = m then filter (\<lambda>x. x \<noteq> h) (index_seen C n r) else index_seen C n r)"
  by (auto simp: hosts_seen_def index_seen_def index_list_def getFromCache_def reg_set_def read_over_set removeFromIndex_def)

lemma seen_delete [simp]:
  "no_colon n \<Longrightarrow> no_colon m \<Longrightarrow> hosts_seen C n (r\<lparr>gr_cache := cdelete C (gr_cache r) (hostKey m h)\<rparr>) =
     (if n = m then (hosts_seen C n r)(h := None) else hosts_seen C n r)"
  "index_seen C n (r\<lparr>gr_cache := cdelete C (gr_cache r) (hostKey m h)\<rparr>) = index_seen C n r"
  by (auto simp: hosts_seen_def index_seen_def index_list_def getFromCache_def read_over_delete hostKey_inj fun_eq_iff)

end

lemma store_kept [simp]:
  "gr_store (reg_set C k v r) = gr_store r" "gr_store (addToIndex C m h r) = gr_store r"
  "gr_store (removeFromIndex C m h r) = gr_store r" "gr_store (clear_grace k r) = gr_store r"
  "gr_store (arm_grace h m r) = gr_store r"
  by (auto simp: reg_set_def addToIndex_def add_to_list_def removeFromIndex_def clear_grace_def arm_grace_def Let_def
      split: option.splits)

section \<open>The host API keeps the contract\<close>

definition store_rows_ok :: "'s store_ops option \<Rightarrow> (string \<Rightarrow> 's \<Rightarrow> 'r) \<Rightarrow> bool" where
  "store_rows_ok St rows \<longleftrightarrow> (\<forall>S. St = Some S \<longrightarrow> tenant_store S rows)"

lemma reg_get_alt:
  "reg_get C St h m r = (case hosts_seen C m r h of
     Some d \<Rightarrow> (Some d, r)
   | None \<Rightarrow> (case St of
       None \<Rightarrow> (None, r)
     | Some S \<Rightarrow> (let r1 = r\<lparr>gr_store := snd (s_get S h m (gr_store r))\<rparr>
         in case fst (s_get S h m (gr_store r)) of
              None \<Rightarrow> (None, r1)
            | Some d \<Rightarrow> (Some (go_offline d),
                addToIndex C m h (reg_set C (hostKey m h) (V_host (go_offline d)) r1)))))"
  by (simp add: reg_get_def cached_is_seen Let_def split: option.split prod.split)

text \<open>What of the registry an operation on a namespace reads and writes.\<close>

definition namespace_local ::
  "'c cache_ops \<Rightarrow> (string \<Rightarrow> 's \<Rightarrow> 'r) \<Rightarrow> string \<Rightarrow> (('c, 's) host_registry \<Rightarrow> 'x \<times> ('c, 's) host_registry) \<Rightarrow> bool" where
  "namespace_local C rows m f \<longleftrightarrow>
     (\<forall>r. filed_ok C r \<longrightarrow> filed_ok C (snd (f r)) \<and>
        (\<forall>n. no_colon n \<longrightarrow> n \<noteq> m \<longrightarrow> hosts_view C rows n (snd (f r)) = hosts_view C rows n r)) \<and>
     (\<forall>r r'. filed_ok C r \<longrightarrow> filed_ok C r' \<longrightarrow> hosts_view C rows m r = hosts_view C rows m r' \<longrightarrow>
        fst (f r) = fst (f r') \<and> hosts_view C rows m (snd (f r)) = hosts_view C rows m (snd (f r')))"

lemma namespace_localI:
  assumes "\<And>r. filed_ok C r \<Longrightarrow> filed_ok C (snd (f r))"
    and "\<And>r n. filed_ok C r \<Longrightarrow> no_colon n \<Longrightarrow> n \<noteq> m \<Longrightarrow> hosts_view C rows n (snd (f r)) = hosts_view C rows n r"
    and "\<And>r r'. filed_ok C r \<Longrightarrow> filed_ok C r' \<Longrightarrow> hosts_view C rows m r = hosts_view C rows m r' \<Longrightarrow> fst (f r) = fst (f r')"
    and "\<And>r r'. filed_ok C r \<Longrightarrow> filed_ok C r' \<Longrightarrow> hosts_view C rows m r = hosts_view C rows m r' \<Longrightarrow>
      hosts_view C rows m (snd (f r)) = hosts_view C rows m (snd (f r'))"
  shows "namespace_local C rows m f"
  unfolding namespace_local_def using assms by blast

context icache
begin

lemma local_get:
  fixes St :: "'s store_ops option"
  assumes st: "store_rows_ok St rows" and m: "no_colon m"
  shows "namespace_local C rows m (reg_get C St h m)"
proof (rule namespace_localI)
  fix r :: "('c, 's) host_registry"
  assume r: "filed_ok C r"
  show "filed_ok C (snd (reg_get C St h m r))"
    using r st m by (auto simp: reg_get_alt filed_ok_seen Let_def go_offline_def store_rows_ok_def
        dest: tenant_store.get_namespace split: option.splits if_splits)
next
  fix r :: "('c, 's) host_registry" and n
  assume "no_colon n" "n \<noteq> m"
  then show "hosts_view C rows n (snd (reg_get C St h m r)) = hosts_view C rows n r"
    using st m by (auto simp: reg_get_alt hosts_view_def Let_def store_rows_ok_def tenant_store.get_rows
        split: option.splits)
next
  fix r r' :: "('c, 's) host_registry"
  assume v: "hosts_view C rows m r = hosts_view C rows m r'"
  then have get: "St = Some S \<Longrightarrow> fst (s_get S h m (gr_store r)) = fst (s_get S h m (gr_store r'))" for S
    using st tenant_store.get_out [of S rows m "gr_store r" "gr_store r'" h] by (simp add: store_rows_ok_def hosts_view_def)
  show "fst (reg_get C St h m r) = fst (reg_get C St h m r')"
    using v get by (auto simp: reg_get_alt hosts_view_def Let_def split: option.splits)
  show "hosts_view C rows m (snd (reg_get C St h m r)) = hosts_view C rows m (snd (reg_get C St h m r'))"
    using v get st m by (auto simp: reg_get_alt hosts_view_def Let_def store_rows_ok_def tenant_store.get_rows
        split: option.splits)
qed

lemma local_list:
  fixes St :: "'s store_ops option"
  assumes st: "store_rows_ok St rows" and m: "no_colon m"
  shows "namespace_local C rows m (reg_list C St m)"
proof (rule namespace_localI)
  fix r r' :: "('c, 's) host_registry"
  assume v: "hosts_view C rows m r = hosts_view C rows m r'"
  then have "St = Some S \<Longrightarrow> fst (s_list S m (gr_store r)) = fst (s_list S m (gr_store r'))" for S
    using st tenant_store.list_out [of S rows m "gr_store r" "gr_store r'"] by (simp add: store_rows_ok_def hosts_view_def)
  with v show "fst (reg_list C St m r) = fst (reg_list C St m r')"
    by (auto simp: reg_list_def hosts_view_def cached_is_seen case_prod_unfold Let_def split: option.splits)
  from v st show "hosts_view C rows m (snd (reg_list C St m r)) = hosts_view C rows m (snd (reg_list C St m r'))"
    by (auto simp: reg_list_def hosts_view_def case_prod_unfold Let_def store_rows_ok_def tenant_store.list_rows
        split: option.splits)
qed (use st in \<open>auto simp: reg_list_def hosts_view_def filed_ok_seen case_prod_unfold Let_def store_rows_ok_def
      tenant_store.list_rows split: option.splits\<close>)

lemma local_deregister:
  fixes St :: "'s store_ops option"
  assumes st: "store_rows_ok St rows" and m: "no_colon m"
  shows "namespace_local C rows m (deregister C St h m)"
proof (rule namespace_localI)
  fix r r' :: "('c, 's) host_registry"
  assume v: "hosts_view C rows m r = hosts_view C rows m r'"
  then have d: "St = Some S \<Longrightarrow> fst (s_delete S h m (gr_store r)) = fst (s_delete S h m (gr_store r')) \<and>
      rows m (snd (s_delete S h m (gr_store r))) = rows m (snd (s_delete S h m (gr_store r')))" for S
    using st tenant_store.delete_out [of S rows m "gr_store r" "gr_store r'"]
      tenant_store.delete_own [of S rows m "gr_store r" "gr_store r'"]
    by (simp add: store_rows_ok_def hosts_view_def)
  from d show "fst (deregister C St h m r) = fst (deregister C St h m r')"
    by (auto simp: deregister_def case_prod_unfold Let_def split: option.splits)
  from v d m show "hosts_view C rows m (snd (deregister C St h m r)) = hosts_view C rows m (snd (deregister C St h m r'))"
    by (auto simp: deregister_def hosts_view_def case_prod_unfold Let_def split: option.splits)
qed (use st m in \<open>auto simp: deregister_def hosts_view_def filed_ok_seen case_prod_unfold Let_def store_rows_ok_def
      tenant_store.delete_other split: option.splits if_splits\<close>)

lemma local_register:
  fixes St :: "'s store_ops option"
  assumes st: "store_rows_ok St rows" and m: "no_colon (hr_namespaceId reg)"
  shows "namespace_local C rows (hr_namespaceId reg) (reg_register C St uuid tok now reg)"
proof (rule namespace_localI)
  fix r r' :: "('c, 's) host_registry"
  assume v: "hosts_view C rows (hr_namespaceId reg) r = hosts_view C rows (hr_namespaceId reg) r'"
  show "fst (reg_register C St uuid tok now reg r) = fst (reg_register C St uuid tok now reg r')"
    by (simp add: reg_register_def Let_def)
  from v st m show "hosts_view C rows (hr_namespaceId reg) (snd (reg_register C St uuid tok now reg r)) =
      hosts_view C rows (hr_namespaceId reg) (snd (reg_register C St uuid tok now reg r'))"
    by (auto simp: reg_register_def hosts_view_def Let_def store_rows_ok_def tenant_store.token_rows
        intro: tenant_store.save_own split: option.splits)
qed (use st m in \<open>auto simp: reg_register_def hosts_view_def filed_ok_seen Let_def store_rows_ok_def
      tenant_store.token_rows tenant_store.save_other split: option.splits if_splits\<close>)

text \<open>The other operations are sequences of small ones.\<close>

lemma local_return: "namespace_local C rows m (\<lambda>r. (x, r))"
  by (simp add: namespace_local_def)

lemma local_bind:
  fixes f :: "('c, 's) host_registry \<Rightarrow> 'x \<times> ('c, 's) host_registry"
    and g :: "'x \<Rightarrow> ('c, 's) host_registry \<Rightarrow> 'y \<times> ('c, 's) host_registry"
  assumes f: "namespace_local C rows m f" and Q: "\<And>r. filed_ok C r \<Longrightarrow> Q (fst (f r))"
    and g: "\<And>x. Q x \<Longrightarrow> namespace_local C rows m (g x)"
  shows "namespace_local C rows m (\<lambda>r. g (fst (f r)) (snd (f r)))"
proof (rule namespace_localI)
  fix r :: "('c, 's) host_registry"
  assume r: "filed_ok C r"
  note fr = f [unfolded namespace_local_def, THEN conjunct1, rule_format, OF r]
    and gr = g [OF Q [OF r], unfolded namespace_local_def, THEN conjunct1, rule_format]
  show "filed_ok C (snd (g (fst (f r)) (snd (f r))))" using fr gr by blast
  show "hosts_view C rows n (snd (g (fst (f r)) (snd (f r)))) = hosts_view C rows n r" if "no_colon n" "n \<noteq> m" for n
    using fr gr that by metis
next
  fix r r' :: "('c, 's) host_registry"
  assume r: "filed_ok C r" "filed_ok C r'" "hosts_view C rows m r = hosts_view C rows m r'"
  have fr: "filed_ok C (snd (f r))" "filed_ok C (snd (f r'))" "fst (f r) = fst (f r')"
    "hosts_view C rows m (snd (f r)) = hosts_view C rows m (snd (f r'))"
    using f r unfolding namespace_local_def by blast+
  note gr = g [OF Q [OF r(2)], unfolded namespace_local_def, THEN conjunct2, rule_format, OF fr(1,2,4)]
  show "fst (g (fst (f r)) (snd (f r))) = fst (g (fst (f r')) (snd (f r')))"
    "hosts_view C rows m (snd (g (fst (f r)) (snd (f r)))) = hosts_view C rows m (snd (g (fst (f r')) (snd (f r'))))"
    using gr by (simp_all add: fr(3))
qed

lemma local_seq:
  "namespace_local C rows m (\<lambda>r. (y, f r)) \<Longrightarrow> namespace_local C rows m (\<lambda>r. (x, g r)) \<Longrightarrow>
     namespace_local C rows m (\<lambda>r. (x, g (f r)))"
  using local_bind [where f = "\<lambda>r. (y, f r)" and Q = "\<lambda>_. True" and g = "\<lambda>_ r. (x, g r)"] by simp

lemma local_read:
  "no_colon m \<Longrightarrow> namespace_local C rows m (\<lambda>r. (getFromCache C h m r, r))"
  by (simp add: namespace_local_def hosts_view_def cached_is_seen)

lemma local_put:
  "no_colon m \<Longrightarrow> hd_namespaceId d = m \<Longrightarrow> namespace_local C rows m (\<lambda>r. (x, reg_set C (hostKey m h) (V_host d) r))"
  by (auto simp: namespace_local_def hosts_view_def filed_ok_seen)

lemma local_small:
  "namespace_local C rows m (\<lambda>r. (x, clear_grace k r))" "namespace_local C rows m (\<lambda>r. (x, arm_grace h n r))"
  "namespace_local C rows m (\<lambda>r. (x, addToIndex C m h r))"
  by (auto simp: namespace_local_def hosts_view_def filed_ok_seen)

lemma local_save:
  fixes St :: "'s store_ops option"
  assumes "store_rows_ok St rows" "hd_namespaceId d = m"
  shows "namespace_local C rows m (\<lambda>r. (x, reg_store_save St d now r))"
  using assms by (auto simp: namespace_local_def hosts_view_def filed_ok_seen reg_store_save_def store_rows_ok_def
      tenant_store.save_other intro: tenant_store.save_own split: option.split)

lemma local_on_cached:
  assumes m: "no_colon m" and g: "\<And>d. hd_namespaceId d = m \<Longrightarrow> namespace_local C rows m (\<lambda>r. (x, g d r))"
  shows "namespace_local C rows m (\<lambda>r. (x, case getFromCache C h m r of None \<Rightarrow> r | Some d \<Rightarrow> g d r))"
proof -
  have "namespace_local C rows m (\<lambda>r. (x, case found of None \<Rightarrow> r | Some d \<Rightarrow> g d r))"
    if "\<forall>d. found = Some d \<longrightarrow> hd_namespaceId d = m" for found
    using that g by (cases found) (simp_all add: local_return)
  from local_bind [OF local_read [OF m], where Q = "\<lambda>found. \<forall>d. found = Some d \<longrightarrow> hd_namespaceId d = m" and
      g = "\<lambda>found r. (x, case found of None \<Rightarrow> r | Some d \<Rightarrow> g d r)", unfolded fst_conv snd_conv, OF _ this] m
  show ?thesis by (simp add: filed_ok_def)
qed

lemma local_live:
  fixes St :: "'s store_ops option"
  assumes st: "store_rows_ok St rows" and m: "no_colon m"
  shows "namespace_local C rows m (\<lambda>r. (x, setOnline C St h m conn now r))"
    and "namespace_local C rows m (\<lambda>r. (x, setOffline C St h m conn now r))"
    and "namespace_local C rows m (\<lambda>r. (x, heartbeat C h m now r))"
proof -
  note seqs = local_seq [OF _ local_small(2)] local_seq [OF _ local_save [OF st]] local_seq [OF local_small(1)]
  show "namespace_local C rows m (\<lambda>r. (x, setOnline C St h m conn now r))"
    unfolding setOnline_def Let_def
    by (rule local_on_cached [OF m]) (rule seqs(2) [OF seqs(3) [OF local_put [OF m]]]; simp)
  show "namespace_local C rows m (\<lambda>r. (x, setOffline C St h m conn now r))"
    unfolding setOffline_def Let_def
  proof (rule local_on_cached [OF m])
    fix d :: host_descriptor
    assume d: "hd_namespaceId d = m"
    show "namespace_local C rows m (\<lambda>r. (x, if filter (\<lambda>c. c \<noteq> conn) (hd_connections d) \<noteq> []
      then reg_set C (hostKey m h) (V_host (d\<lparr>hd_status := Online, hd_lastSeen := now,
        hd_connections := filter (\<lambda>c. c \<noteq> conn) (hd_connections d)\<rparr>)) r
      else arm_grace h m (reg_store_save St (d\<lparr>hd_status := Reconnecting, hd_lastSeen := now, hd_connections := []\<rparr>) now
        (reg_set C (hostKey m h) (V_host (d\<lparr>hd_status := Reconnecting, hd_lastSeen := now, hd_connections := []\<rparr>)) r))))"
      using d by (cases "filter (\<lambda>c. c \<noteq> conn) (hd_connections d) = []")
        (simp_all add: local_put [OF m] seqs(1) [OF seqs(2) [OF local_put [OF m]]])
  qed
  show "namespace_local C rows m (\<lambda>r. (x, heartbeat C h m now r))"
    unfolding heartbeat_def by (rule local_on_cached [OF m]) (rule local_put [OF m], simp)
qed

lemma local_ensure:
  fixes St :: "'s store_ops option"
  assumes st: "store_rows_ok St rows" and m: "no_colon m"
  shows "namespace_local C rows m (\<lambda>r. (x, ensureRegistered C St h m name caps now r))"
proof -
  let ?Q = "\<lambda>found. \<forall>d. found = Some d \<longrightarrow> hd_namespaceId d = m"
  let ?new = "\<lparr>hd_hostId = h, hd_name = name, hd_namespaceId = m, hd_capabilities = caps, hd_status = Offline,
    hd_lastSeen = now, hd_connections = [], hd_hostType = None, hd_workspaces = None, hd_plugins = None,
    hd_createdAt = Some now, hd_updatedAt = Some now\<rparr>"
  let ?g = "\<lambda>found r. (x, case found of
      Some d \<Rightarrow> if caps \<noteq> [] \<and> hd_capabilities d \<noteq> caps
        then reg_set C (hostKey m h) (V_host (d\<lparr>hd_capabilities := caps, hd_updatedAt := Some now\<rparr>))
          (reg_store_save St (d\<lparr>hd_capabilities := caps, hd_updatedAt := Some now\<rparr>) now r) else r
    | None \<Rightarrow> addToIndex C m h (reg_set C (hostKey m h) (V_host ?new) (reg_store_save St ?new now r)))"
  have found: "?Q (fst (reg_get C St h m r))" if "filed_ok C r" for r :: "('c, 's) host_registry"
    using that st m by (auto simp: reg_get_alt filed_ok_seen Let_def go_offline_def store_rows_ok_def
        dest: tenant_store.get_namespace split: option.splits)
  have "namespace_local C rows m (?g found)" if "?Q found" for found
  proof (cases found)
    case None
    show ?thesis
      by (simp add: None) (rule local_seq [OF local_seq [OF local_save [OF st] local_put [OF m]] local_small(3)]; simp)
  next
    case (Some d)
    with that have d: "hd_namespaceId d = m" by simp
    show ?thesis
    proof (cases "caps \<noteq> [] \<and> hd_capabilities d \<noteq> caps")
      case True
      with d show ?thesis by (simp add: Some local_seq [OF local_save [OF st] local_put [OF m]])
    next
      case False
      show ?thesis by (simp only: Some option.case if_not_P [OF False] local_return)
    qed
  qed
  from local_bind [OF local_get [OF st m], where Q = ?Q and g = ?g, OF found this]
  show ?thesis unfolding ensureRegistered_def Let_def case_prod_unfold by simp
qed

end

section \<open>The interpretations\<close>

lemma local_map:
  assumes f: "namespace_local C rows m f"
  shows "namespace_local C rows m (\<lambda>r. map_prod g id (f r))"
proof (rule namespace_localI; unfold fst_map_prod snd_map_prod id_apply)
  fix r r' assume "filed_ok C r" "filed_ok C r'" "hosts_view C rows m r = hosts_view C rows m r'"
  with f have "fst (f r) = fst (f r')" unfolding namespace_local_def by blast
  then show "g (fst (f r)) = g (fst (f r'))" by (rule arg_cong)
qed (use f in \<open>unfold namespace_local_def, blast\<close>)+

lemma routes_as_operations:
  "hosts_step C St (HA_list ctx) = (\<lambda>r. map_prod (Some \<circ> HO_hosts) id (reg_list C St (auth_namespace ctx) r))"
  "hosts_step C St (HA_get ctx h) = (\<lambda>r. map_prod (\<lambda>found. Some (case found of None \<Rightarrow> HO_not_found | Some d \<Rightarrow> HO_host d)) id
     (reg_get C St h (auth_namespace ctx) r))"
  "hosts_step C St (HA_delete ctx h) = (\<lambda>r. map_prod (\<lambda>deleted. Some (if deleted then HO_no_content else HO_not_found)) id
     (deregister C St h (auth_namespace ctx) r))"
  "parse_host_registration body = Some reg \<Longrightarrow> hosts_step C St (HA_register uuid tok now body) =
     (\<lambda>r. map_prod (\<lambda>(d, token). Some (HO_created (hd_hostId d) token (hd_status d))) id (reg_register C St uuid tok now reg r))"
  "hosts_step C St (HA_ensure h n name caps now) = (\<lambda>r. (None, ensureRegistered C St h n name caps now r))"
  "hosts_step C St (HA_online h n conn now) = (\<lambda>r. (None, setOnline C St h n conn now r))"
  "hosts_step C St (HA_offline h n conn now) = (\<lambda>r. (None, setOffline C St h n conn now r))"
  "hosts_step C St (HA_heartbeat h n now) = (\<lambda>r. (None, heartbeat C h n now r))"
  by (auto simp: fun_eq_iff route_hosts_list_def route_hosts_get_def route_hosts_delete_def route_hosts_register_def
      map_prod_def case_prod_unfold Let_def split: option.split prod.split)

lemma hosts_step_local:
  fixes St :: "'s store_ops option"
  assumes "icache C" "store_rows_ok St rows" "no_colon (hosts_owner a)"
  shows "namespace_local C rows (hosts_owner a) (hosts_step C St a)"
proof (cases a)
  case (HA_register uuid tok now body)
  show ?thesis
  proof (cases "parse_host_registration body")
    case None
    then show ?thesis
      by (simp add: HA_register namespace_local_def route_hosts_register_def)
  next
    case (Some reg)
    with assms show ?thesis
      by (simp add: HA_register routes_as_operations(4) [OF Some] local_map icache.local_register del: hosts_step.simps)
  qed
qed (use assms in \<open>simp_all add: routes_as_operations local_map icache.local_list icache.local_get icache.local_deregister
      icache.local_ensure icache.local_live del: hosts_step.simps\<close>)

lemma hosts_tenants:
  fixes St :: "'s store_ops option"
  assumes "icache C" "store_rows_ok St rows"
  shows "tenants (hosts_step C St) hosts_owner no_colon (filed_ok C) (hosts_view C rows)"
proof
  fix a and s t :: "('a, 's) host_registry"
  assume a: "no_colon (hosts_owner a)" and s: "filed_ok C s"
  note l = hosts_step_local [OF assms a, unfolded namespace_local_def]
  show "filed_ok C (snd (hosts_step C St a s))" using l s by blast
  show "hosts_view C rows n (snd (hosts_step C St a s)) = hosts_view C rows n s"
    if "no_colon n" "hosts_owner a \<noteq> n" for n using l s that by blast
  assume t: "filed_ok C t" "hosts_view C rows (hosts_owner a) s = hosts_view C rows (hosts_owner a) t"
  show "fst (hosts_step C St a s) = fst (hosts_step C St a t)"
    "hosts_view C rows (hosts_owner a) (snd (hosts_step C St a s)) = hosts_view C rows (hosts_owner a) (snd (hosts_step C St a t))"
    using l s t by blast+
qed

lemma sqlite_rows_ok: "store_rows_ok (Some sqlite_ops) namespace_rows"
  by (simp add: store_rows_ok_def sqlite.tenant_store_axioms)

interpretation host_api: tenants "hosts_step mem_cache (Some sqlite_ops)" hosts_owner no_colon "filed_ok mem_cache"
  "hosts_view mem_cache namespace_rows"
  by (rule hosts_tenants [OF mem.icache_axioms sqlite_rows_ok])

section \<open>The routing of the dispatcher\<close>

text \<open>Connections and the choice of a host; what a call then does depends on its socket alone.\<close>

datatype routing_act =
    RA_register string string sock "string list"
  | RA_remove string string
  | RA_first string
  | RA_capable string string

fun routing_owner :: "routing_act \<Rightarrow> string" where
  "routing_owner (RA_register h n ws caps) = n"
| "routing_owner (RA_remove h n) = n"
| "routing_owner (RA_first n) = n"
| "routing_owner (RA_capable n cap) = n"

fun routing_step :: "routing_act \<Rightarrow> dispatcher \<Rightarrow> string option \<times> dispatcher" where
  "routing_step (RA_register h n ws caps) d = (None, registerConnection h n ws caps d)"
| "routing_step (RA_remove h n) d = (None, removeConnection h n d)"
| "routing_step (RA_first n) d = (firstHost n d, d)"
| "routing_step (RA_capable n cap) d = (firstHostWithCapability n cap d, d)"

definition routing_view ::
  "string \<Rightarrow> dispatcher \<Rightarrow> (string, sock) jsmap option \<times> (string, string list) jsmap option" where
  "routing_view n d = (jm_get (d_connections d) n, jm_get (d_capabilityIndex d) n)"

lemma has_key: "jm_has m k \<longleftrightarrow> jm_get m k \<noteq> None"
  by (simp add: jm_has_def)

lemma routing_after_register:
  "routing_view n (registerConnection h m ws caps d) =
     (if n = m then (Some (jm_set (or_else (fst (routing_view m d)) []) h ws),
        if caps = [] then snd (routing_view m d)
        else Some (fold (add_capability h) caps (or_else (snd (routing_view m d)) [])))
      else routing_view n d)"
  by (auto simp: routing_view_def registerConnection_def Let_def has_key or_else_def split: option.splits)

lemma routing_after_remove:
  "routing_view n (removeConnection h m d) =
     (if n = m then (map_option (\<lambda>hosts. jm_delete hosts h) (fst (routing_view m d)),
        map_option (jm_map (\<lambda>_ hosts. js_remove hosts h)) (snd (routing_view m d)))
      else routing_view n d)"
  by (auto simp: routing_view_def removeConnection_def Let_def split: option.splits)

lemma routing_reads:
  "firstHost n d = Option.bind (fst (routing_view n d)) (\<lambda>hosts. first_row (jm_keys hosts))"
  "firstHostWithCapability n cap d = Option.bind (snd (routing_view n d)) (\<lambda>index. Option.bind (jm_get index cap)
     (find (\<lambda>h. Option.bind (fst (routing_view n d)) (\<lambda>hosts. jm_get hosts h) \<noteq> None)))"
  by (auto simp: firstHost_def firstHostWithCapability_def routing_view_def socket_of_def first_row_def
      split: option.splits list.splits)

interpretation routing: tenants routing_step routing_owner "\<lambda>_. True" "\<lambda>_. True" routing_view
proof
  fix a d d'
  show "routing_view n (snd (routing_step a d)) = routing_view n d" if "routing_owner a \<noteq> n" for n
    using that by (cases a) (simp_all add: routing_after_register routing_after_remove)
  assume v: "routing_view (routing_owner a) d = routing_view (routing_owner a) d'"
  then show "fst (routing_step a d) = fst (routing_step a d')" by (cases a) (simp_all add: routing_reads)
  from v show "routing_view (routing_owner a) (snd (routing_step a d)) = routing_view (routing_owner a) (snd (routing_step a d'))"
    by (cases a) (simp_all add: routing_after_register routing_after_remove)
qed simp

section \<open>Properties\<close>


definition sample_tenant :: "string \<Rightarrow> auth_context" where
  "sample_tenant n = \<lparr>ac_type = Some ''cli'', ac_userId = None, ac_namespaceId = Some n, ac_tier = None, ac_permissions = []\<rparr>"

definition empty_registry :: "((string, cval) jsmap, sqlite_store) host_registry" where
  "empty_registry = \<lparr>gr_cache = [], gr_store = \<lparr>sq_migrated = False, sq_hosts = None, sq_tokens = None\<rparr>,
     gr_timers = [], gr_armed = [], gr_nextTimer = 0\<rparr>"

definition sample_acts :: "hosts_act list" where
  "sample_acts = [HA_ensure ''h'' ''a'' ''laptop'' [] 1, HA_online ''h'' ''a'' ''k'' 2, HA_list (sample_tenant ''b''),
     HA_delete (sample_tenant ''b'') ''h'', HA_get (sample_tenant ''b'') ''h'']"


text \<open>
  The colon matters: the cache key of a host joins namespace and host id with one, so a token for the
  namespace \<open>a\<close> reads, and removes, the hosts of the namespace \<open>a:b\<close> under the id \<open>b:h\<close>.
\<close>

lemma colon_crosses_tenants:
  assumes "getFromCache C h (a @ '':'' @ b) r = Some d" "ac_namespaceId ctx = Some a"
  shows "fst (route_hosts_get C St (Some ctx) (b @ '':'' @ h) r) = HO_host d"
  using assms by (simp add: route_hosts_get_def reg_get_def auth_namespace_def or_else_def getFromCache_def hostKey_def)

end
