(* ===== verification/Http_Server.thy ===== *)
theory Http_Server
  imports Gateway_System Service_Endpoints LLM_Routes Gateway_Bootstrap
begin

text \<open>
  The HTTP side of the gateway as one function (apps/gateway-app/src/server.ts, \<open>createServer\<close>): the
  routes it and the route modules register, in their order, the middleware in front of them and the
  handlers of the other theories behind it, over the state of Gateway_System and what the platform,
  the collector and the two cached documents add to it.

  Fastify's router and body parser are not part of the repository. Where a request was routed to, an index
  into the table with the values of the path parameters, is an argument; \<open>fill\<close> says which path a route and
  its parameters stand for. A request that was not routed here belongs to an upstream proxy or to nobody.
\<close>

section \<open>Routes\<close>

datatype endpoint =
    EP_auth_register
  | EP_auth_token
  | EP_auth_refresh
  | EP_health
  | EP_ready
  | EP_metrics
  | EP_describe
  | EP_observability_health
  | EP_hosts_register
  | EP_hosts_list
  | EP_hosts_get string
  | EP_hosts_delete string
  | EP_execute
  | EP_cancel string
  | EP_chat
  | EP_telemetry
  | EP_platform string string
  | EP_openapi_merged
  | EP_internal_dispatch
  | EP_resolve_host

datatype path_part = Fixed string | Param

text \<open>Method, path and the handler for the values of the parameters.\<close>

definition gateway_routes :: "(string \<times> path_part list \<times> (string list \<Rightarrow> endpoint)) list" where
  "gateway_routes =
     [(''POST'', [Fixed ''auth'', Fixed ''register''], \<lambda>_. EP_auth_register),
      (''POST'', [Fixed ''auth'', Fixed ''token''], \<lambda>_. EP_auth_token),
      (''POST'', [Fixed ''auth'', Fixed ''refresh''], \<lambda>_. EP_auth_refresh),
      (''GET'', [Fixed ''health''], \<lambda>_. EP_health),
      (''GET'', [Fixed ''ready''], \<lambda>_. EP_ready),
      (''GET'', [Fixed ''metrics''], \<lambda>_. EP_metrics),
      (''GET'', [Fixed ''observability'', Fixed ''describe''], \<lambda>_. EP_describe),
      (''GET'', [Fixed ''observability'', Fixed ''health''], \<lambda>_. EP_observability_health),
      (''POST'', [Fixed ''hosts'', Fixed ''register''], \<lambda>_. EP_hosts_register),
      (''GET'', [Fixed ''hosts''], \<lambda>_. EP_hosts_list),
      (''GET'', [Fixed ''hosts'', Param], \<lambda>ps. EP_hosts_get (ps ! 0)),
      (''DELETE'', [Fixed ''hosts'', Param], \<lambda>ps. EP_hosts_delete (ps ! 0)),
      (''POST'', [Fixed ''api'', Fixed ''v1'', Fixed ''execute''], \<lambda>_. EP_execute),
      (''POST'', [Fixed ''api'', Fixed ''v1'', Fixed ''execute'', Param, Fixed ''cancel''], \<lambda>ps. EP_cancel (ps ! 0)),
      (''POST'', [Fixed ''llm'', Fixed ''v1'', Fixed ''chat'', Fixed ''completions''], \<lambda>_. EP_chat),
      (''POST'', [Fixed ''telemetry'', Fixed ''v1'', Fixed ''ingest''], \<lambda>_. EP_telemetry),
      (''POST'', [Fixed ''platform'', Fixed ''v1'', Param, Param], \<lambda>ps. EP_platform (ps ! 0) (ps ! 1)),
      (''GET'', [Fixed ''openapi-merged.json''], \<lambda>_. EP_openapi_merged),
      (''POST'', [Fixed ''internal'', Fixed ''dispatch''], \<lambda>_. EP_internal_dispatch),
      (''POST'', [Fixed ''internal'', Fixed ''resolve-host''], \<lambda>_. EP_resolve_host)]"

definition endpoint_of :: "nat \<times> string list \<Rightarrow> endpoint" where
  "endpoint_of hit = (case hit of (i, ps) \<Rightarrow> snd (snd (gateway_routes ! i)) ps)"

fun fill :: "path_part list \<Rightarrow> string list \<Rightarrow> string" where
  "fill [] ps = []"
| "fill (Fixed s # r) ps = CHR ''/'' # s @ fill r ps"
| "fill (Param # r) (p # ps) = CHR ''/'' # p @ fill r ps"
| "fill (Param # r) [] = CHR ''/'' # fill r []"

text \<open>
  The router's contract for a path: the route is one of the table, of the method, its parameters are
  segments, and the path is the route with the parameters filled in.
\<close>

definition routed_ok :: "string \<Rightarrow> string \<Rightarrow> nat \<times> string list \<Rightarrow> bool" where
  "routed_ok httpMethod path hit =
     (case hit of (i, ps) \<Rightarrow>
        i < length gateway_routes \<and> fst (gateway_routes ! i) = httpMethod \<and>
        length ps = length (filter (\<lambda>part. part = Param) (fst (snd (gateway_routes ! i)))) \<and>
        list_all (\<lambda>p. p \<noteq> [] \<and> CHR ''/'' \<notin> set p) ps \<and>
        path = fill (fst (snd (gateway_routes ! i))) ps)"

section \<open>State and surroundings\<close>

record ('c, 's, 'p) server =
  sv_system :: "('c, 's) system"
  sv_platform :: 'p
  sv_collector :: collector
  sv_health :: "health_snapshot option"
    \<comment> \<open>under \<open>HEALTH_CACHE_KEY\<close>\<close>
  sv_openapi :: "jval option"
    \<comment> \<open>under \<open>MERGED_CACHE_KEY\<close>\<close>

text \<open>
  What the adapters of the platform act on. \<open>bootstrap.ts\<close> gives the gateway \<open>platform.cache\<close> and makes the
  host store of the adapter \<open>sqlDatabase\<close>, so beside their own state this is the cache with everything the
  gateway keeps there and the tables of the store.
\<close>

record ('c, 's, 'p) adapter_state =
  as_platform :: 'p
  as_cache :: 'c
  as_store :: 's
  as_health :: "health_snapshot option"
  as_openapi :: "jval option"

text \<open>
  The platform and the libraries the handlers call. Of the models and of \<open>track\<close> it is assumed that they
  leave the gateway's records alone.
\<close>

record ('c, 's, 'p) platform_env =
  pe_adapters :: "('c, 's, 'p) adapter_state platform_ops"
  pe_llm :: "'p platform_llm"
  pe_analytics :: "(string \<Rightarrow> jval \<Rightarrow> 'p \<Rightarrow> thrown option \<times> 'p) option"
  pe_json_parse :: "string \<Rightarrow> jval option"
  pe_stringify :: "jval \<Rightarrow> string"
  pe_is_datetime :: "string \<Rightarrow> bool"
  pe_mergeSpecs :: "jval list \<Rightarrow> jval"
  pe_contract :: observability_contract
  pe_NODE_ENV :: "string option"
  pe_startupTime :: int

text \<open>A request as the handlers read it.\<close>

record request =
  rq_http :: http_request
  rq_internal_secret :: "string option"
  rq_body :: jval

text \<open>What the outside decides while a request is served: clocks, random values, probes and fetches.\<close>

record chance =
  ch_now :: int
  ch_iso :: string
  ch_durationMs :: int
  ch_uuid1 :: string
  ch_uuid2 :: string
  ch_uuid3 :: string
  ch_secret :: string
  ch_span :: trace_context
  ch_send_throws :: "string option"
  ch_available :: "string \<Rightarrow> bool"
  ch_upstreams :: "(string \<times> bool) list"
  ch_adapterMs :: "string \<Rightarrow> int option"
  ch_upstreamMs :: "string \<Rightarrow> int option"
  ch_usage :: usage_reading
  ch_operationLines :: "string list"
  ch_operations :: "top_operation list"
  ch_specs :: "jval option list"

datatype http_reply =
    RP_elsewhere
  | RP_unauthorized string
  | RP_auth auth_reply
  | RP_health health_snapshot
  | RP_ready ready_reply
  | RP_metrics "string \<times> string list"
  | RP_describe service_describe
  | RP_observability service_health
  | RP_hosts hosts_reply
  | RP_execute execute_reply
  | RP_cancel cancel_reply
  | RP_chat llm_reply
  | RP_telemetry telemetry_reply
  | RP_platform platform_reply
  | RP_openapi jval
  | RP_dispatch dispatch_reply
  | RP_resolve resolve_reply

section \<open>Handlers\<close>

text \<open>Lifting a handler to the part of the state it works on.\<close>

definition on_cache :: "('c \<Rightarrow> 'r \<times> 'c) \<Rightarrow> ('c, 's, 'p) server \<Rightarrow> 'r \<times> ('c, 's, 'p) server" where
  "on_cache f sv =
     (let (reply, c) = f (sy_cache (sv_system sv))
      in (reply, sv\<lparr>sv_system := set_registry ((hw_registry (sy_world (sv_system sv)))\<lparr>gr_cache := c\<rparr>) (sv_system sv)\<rparr>))"

definition on_registry ::
  "(('c, 's) host_registry \<Rightarrow> 'r \<times> ('c, 's) host_registry) \<Rightarrow> ('c, 's, 'p) server \<Rightarrow> 'r \<times> ('c, 's, 'p) server" where
  "on_registry f sv =
     (let (reply, r) = f (hw_registry (sy_world (sv_system sv)))
      in (reply, sv\<lparr>sv_system := set_registry r (sv_system sv)\<rparr>))"

definition on_gateway :: "(gateway_state \<Rightarrow> 'r \<times> gateway_state) \<Rightarrow> ('c, 's, 'p) server \<Rightarrow> 'r \<times> ('c, 's, 'p) server" where
  "on_gateway f sv =
     (let (reply, g) = f (sy_gateway (sv_system sv)) in (reply, sv\<lparr>sv_system := set_gateway g (sv_system sv)\<rparr>))"

definition on_platform :: "('p \<Rightarrow> 'r \<times> 'p) \<Rightarrow> ('c, 's, 'p) server \<Rightarrow> 'r \<times> ('c, 's, 'p) server" where
  "on_platform f sv = (let (reply, p) = f (sv_platform sv) in (reply, sv\<lparr>sv_platform := p\<rparr>))"

definition adapter_view :: "('c, 's, 'p) server \<Rightarrow> ('c, 's, 'p) adapter_state" where
  "adapter_view sv =
     \<lparr>as_platform = sv_platform sv, as_cache = sy_cache (sv_system sv),
      as_store = gr_store (hw_registry (sy_world (sv_system sv))), as_health = sv_health sv, as_openapi = sv_openapi sv\<rparr>"

definition set_adapter_view :: "('c, 's, 'p) adapter_state \<Rightarrow> ('c, 's, 'p) server \<Rightarrow> ('c, 's, 'p) server" where
  "set_adapter_view a sv =
     sv\<lparr>sv_system := set_registry ((hw_registry (sy_world (sv_system sv)))\<lparr>gr_cache := as_cache a, gr_store := as_store a\<rparr>)
          (sv_system sv),
        sv_platform := as_platform a, sv_health := as_health a, sv_openapi := as_openapi a\<rparr>"

definition on_adapters ::
  "(('c, 's, 'p) adapter_state \<Rightarrow> 'r \<times> ('c, 's, 'p) adapter_state) \<Rightarrow> ('c, 's, 'p) server \<Rightarrow> 'r \<times> ('c, 's, 'p) server" where
  "on_adapters f sv = (let (reply, a) = f (adapter_view sv) in (reply, set_adapter_view a sv))"

definition probe :: "('c, 's, 'p) platform_env \<Rightarrow> chance \<Rightarrow> ('c, 's, 'p) server \<Rightarrow> health_snapshot \<times> ('c, 's, 'p) server" where
  "probe E x sv =
     (let (health, cached) = collectHealthSnapshot (ch_available x) (ch_upstreams x) (pe_startupTime E) (ch_now x)
            (sv_health sv)
      in (health, sv\<lparr>sv_health := cached\<rparr>))"

fun handle ::
  "('c, 's) deployment \<Rightarrow> ('c, 's, 'p) platform_env \<Rightarrow> endpoint \<Rightarrow> auth_context option \<Rightarrow> request \<Rightarrow> chance \<Rightarrow>
     ('c, 's, 'p) server \<Rightarrow> http_reply \<times> ('c, 's, 'p) server" where
  "handle D E EP_auth_register auth q x sv =
     map_prod RP_auth id (on_cache (route_register (dp_cache D) (dp_hash D) (ch_secret x) (ch_uuid1 x) (ch_uuid2 x)
       (ch_now x) (rq_body q)) sv)"
| "handle D E EP_auth_token auth q x sv =
     map_prod RP_auth id (on_cache (route_token (dp_cache D) (dp_hash D) (dp_jose D) (dp_secret D) (ch_uuid1 x)
       (ch_now x) (rq_body q)) sv)"
| "handle D E EP_auth_refresh auth q x sv =
     map_prod RP_auth id (on_cache (route_refresh (dp_cache D) (dp_hash D) (dp_jose D) (dp_secret D) (ch_uuid1 x)
       (ch_now x) (rq_body q)) sv)"
| "handle D E EP_health auth q x sv = map_prod RP_health id (probe E x sv)"
| "handle D E EP_ready auth q x sv = map_prod (RP_ready \<circ> route_ready) id (probe E x sv)"
| "handle D E EP_metrics auth q x sv =
     (let (health, sv1) = probe E x sv;
          (reply, co) = route_metrics (ch_usage x) health (ch_operationLines x) (sv_collector sv1)
      in (RP_metrics reply, sv1\<lparr>sv_collector := co\<rparr>))"
| "handle D E EP_describe auth q x sv = (RP_describe (buildDescribe (pe_contract E) (pe_NODE_ENV E) (sv_collector sv)), sv)"
| "handle D E EP_observability_health auth q x sv =
     (let (health, sv1) = probe E x sv
      in (RP_observability (route_observability_health (ch_adapterMs x) (ch_upstreamMs x) health (ch_operations x)
            (ch_now x) (sv_collector sv1)), sv1))"
| "handle D E EP_hosts_register auth q x sv =
     map_prod RP_hosts id (on_registry (route_hosts_register (dp_cache D) (dp_store D) (ch_uuid1 x) (ch_secret x)
       (ch_now x) (rq_body q)) sv)"
| "handle D E EP_hosts_list auth q x sv =
     map_prod RP_hosts id (on_registry (route_hosts_list (dp_cache D) (dp_store D) auth) sv)"
| "handle D E (EP_hosts_get hostId) auth q x sv =
     map_prod RP_hosts id (on_registry (route_hosts_get (dp_cache D) (dp_store D) auth hostId) sv)"
| "handle D E (EP_hosts_delete hostId) auth q x sv =
     map_prod RP_hosts id (on_registry (route_hosts_delete (dp_cache D) (dp_store D) auth hostId) sv)"
| "handle D E EP_execute auth q x sv =
     (case auth of
        None \<Rightarrow> (RP_execute XR_unauthorized, sv)
      | Some ctx \<Rightarrow>
          let (reply, s) = sys_execute ctx (rq_body q) (ch_uuid1 x) (ch_uuid2 x) (ch_uuid3 x) (ch_span x)
                (ch_send_throws x) (ch_now x) (sv_system sv)
          in (RP_execute reply, sv\<lparr>sv_system := s\<rparr>))"
| "handle D E (EP_cancel executionId) auth q x sv =
     map_prod RP_cancel id (on_gateway (\<lambda>g.
       let (reply, x) = cancel_route auth executionId (as_string (js_member (rq_body q) ''reason'')) (gs_exec g)
       in (reply, g\<lparr>gs_exec := x\<rparr>)) sv)"
| "handle D E EP_chat auth q x sv =
     map_prod RP_chat id (on_platform (llm_route (pe_json_parse E) (pe_stringify E) (pe_llm E) auth (rq_body q)
       (''chatcmpl-'' @ nat_string (nat (ch_now x)) @ ''-'' @ ch_uuid1 x) (ch_now x)) sv)"
| "handle D E EP_telemetry auth q x sv =
     map_prod RP_telemetry id (on_platform (telemetry_route (pe_is_datetime E) (pe_analytics E) auth (ch_iso x)
       (rq_body q)) sv)"
| "handle D E (EP_platform adapterName methodName) auth q x sv =
     map_prod RP_platform id (on_adapters (platform_route (pe_adapters E) (pe_stringify E) auth adapterName methodName
       (rq_body q) (ch_durationMs x)) sv)"
| "handle D E EP_openapi_merged auth q x sv =
     (let (reply, written) = openapi_merged (pe_mergeSpecs E) (sv_openapi sv) (ch_specs x)
      in (RP_openapi reply, sv\<lparr>sv_openapi := or_else_opt written (sv_openapi sv)\<rparr>))"
| "handle D E EP_internal_dispatch auth q x sv =
     map_prod RP_dispatch id (on_gateway (\<lambda>g.
       let (reply, d) = internal_dispatch (dp_internalSecret D) (rq_internal_secret q) (rq_body q) (ch_uuid3 x)
             (ch_span x) (ch_send_throws x) (gs_disp g)
       in (reply, g\<lparr>gs_disp := d\<rparr>)) sv)"
| "handle D E EP_resolve_host auth q x sv =
     map_prod RP_resolve id (on_registry (resolve_host (dp_cache D) (dp_store D) (dp_internalSecret D)
       (rq_internal_secret q) (rq_body q) (gs_disp (sy_gateway (sv_system sv)))) sv)"

text \<open>The \<open>onRequest\<close> hook of the scope, then the handler.\<close>

definition serve ::
  "('c, 's) deployment \<Rightarrow> ('c, 's, 'p) platform_env \<Rightarrow> (nat \<times> string list) option \<Rightarrow> request \<Rightarrow> chance \<Rightarrow>
     ('c, 's, 'p) server \<Rightarrow> http_reply \<times> ('c, 's, 'p) server" where
  "serve D E hit q x sv =
     (case hit of
        None \<Rightarrow> (RP_elsewhere, sv)
      | Some route \<Rightarrow>
          (case authMiddleware (dp_cache D) (dp_jose D) (dp_secret D) (ch_now x) (rq_http q) (sy_cache (sv_system sv)) of
             MW_unauthorized message \<Rightarrow> (RP_unauthorized message, sv)
           | MW_public \<Rightarrow> handle D E (endpoint_of route) None q x sv
           | MW_authenticated ctx \<Rightarrow> handle D E (endpoint_of route) (Some ctx) q x sv))"

section \<open>Paths\<close>

text \<open>A route with its parameters filled in is a path the middleware does not change.\<close>

definition clean_segment :: "string \<Rightarrow> bool" where
  "clean_segment s \<longleftrightarrow> s \<noteq> [] \<and> CHR ''/'' \<notin> set s"

lemma squeeze_clean:
  "clean_segment s \<Longrightarrow> r = [] \<or> hd r = CHR ''/'' \<Longrightarrow>
     squeeze_slashes (CHR ''/'' # s @ r) = CHR ''/'' # s @ squeeze_slashes r"
proof -
  assume s: "clean_segment s" and r: "r = [] \<or> hd r = CHR ''/''"
  have "CHR ''/'' \<notin> set t \<Longrightarrow> squeeze_slashes (t @ r) = t @ squeeze_slashes r" for t
    by (induction t) (auto simp: squeeze_Cons)
  with s show ?thesis by (cases s) (auto simp: clean_segment_def squeeze_Cons)
qed

lemma fill_hd: "fill parts ps = [] \<or> hd (fill parts ps) = CHR ''/''"
  by (induction parts ps rule: fill.induct) auto

definition clean_parts :: "path_part list \<Rightarrow> bool" where
  "clean_parts parts \<longleftrightarrow> list_all (\<lambda>part. case part of Fixed s \<Rightarrow> clean_segment s | Param \<Rightarrow> True) parts"

lemma fill_clean:
  "clean_parts parts \<Longrightarrow> list_all clean_segment ps \<Longrightarrow> length ps = length (filter (\<lambda>part. part = Param) parts) \<Longrightarrow>
     squeeze_slashes (fill parts ps) = fill parts ps \<and> (parts \<noteq> [] \<longrightarrow> fill parts ps \<noteq> [] \<and> last (fill parts ps) \<noteq> CHR ''/'')"
proof (induction parts ps rule: fill.induct)
  case (2 s r ps)
  then show ?case
    using squeeze_clean [of s "fill r ps"] fill_hd [of r ps]
    by (cases r) (auto simp: clean_parts_def clean_segment_def dest: last_in_set)
next
  case (3 r p ps)
  then show ?case
    using squeeze_clean [of p "fill r ps"] fill_hd [of r ps]
    by (cases r) (auto simp: clean_parts_def clean_segment_def dest: last_in_set)
qed (simp_all add: clean_parts_def)

lemma strip_clean: "p \<noteq> [] \<Longrightarrow> last p \<noteq> CHR ''/'' \<Longrightarrow> strip_slashes p = p"
  by (cases p rule: rev_cases) (simp_all add: strip_slashes_def)

lemma routePath_fill:
  assumes "clean_parts parts" "parts \<noteq> []" "list_all clean_segment ps"
    "length ps = length (filter (\<lambda>part. part = Param) parts)"
  shows "routePath (fill parts ps) = fill parts ps"
  using fill_clean [OF assms(1,3,4)] assms(2) by (simp add: routePath_def strip_clean Let_def)

lemma routes_clean: "list_all (\<lambda>(m, parts, f). clean_parts parts \<and> parts \<noteq> []) gateway_routes"
  by code_simp

definition public_endpoints :: "endpoint set" where
  "public_endpoints = {EP_health, EP_hosts_register, EP_auth_register, EP_auth_token, EP_auth_refresh,
     EP_internal_dispatch, EP_resolve_host}"

text \<open>
  A path is public exactly for the seven endpoints; the one exception is a host that is called
  \<open>register\<close>, whose path the middleware takes for the registration.
\<close>

lemma public_paths:
  assumes "routed_ok m path hit"
  shows "routePath path \<in> set PUBLIC_ROUTES \<longleftrightarrow>
    endpoint_of hit \<in> public_endpoints \<union> {EP_hosts_get ''register'', EP_hosts_delete ''register''}"
proof -
  obtain i ps where hit: "hit = (i, ps)" by fastforce
  let ?parts = "fst (snd (gateway_routes ! i))"
  have i: "i < length gateway_routes" and ps: "list_all clean_segment ps"
    "length ps = length (filter (\<lambda>part. part = Param) ?parts)" and path: "path = fill ?parts ps"
    using assms by (auto simp: hit routed_ok_def clean_segment_def list_all_iff)
  have "clean_parts ?parts" "?parts \<noteq> []"
    using routes_clean i by (auto simp: list_all_length case_prod_unfold)
  then have p: "routePath path = path" using routePath_fill ps by (simp add: path)
  have "i \<in> {0,1,2,3,4,5,6,7,8,9,10,11,12,13,14,15,16,17,18,19}"
    using i unfolding insert_iff empty_iff by (simp add: gateway_routes_def) presburger
  then have "fill ?parts ps \<in> set PUBLIC_ROUTES \<longleftrightarrow>
      endpoint_of hit \<in> public_endpoints \<union> {EP_hosts_get ''register'', EP_hosts_delete ''register''}"
    using ps(2) unfolding hit endpoint_of_def public_endpoints_def PUBLIC_ROUTES_def
    by (elim insertE emptyE; simp add: gateway_routes_def; (auto simp: length_Suc_conv)?)
  with p show ?thesis by (simp add: path)
qed

section \<open>What a request can change\<close>

lemma set_registry_same [gw_simps]: "set_registry (hw_registry (sy_world s)) s = s"
  by (simp add: set_registry_def)

lemma set_registry_registry [gw_simps]: "hw_registry (sy_world (set_registry r s)) = r"
  by (simp add: set_registry_def)

lemma same_gateway [simp]: "g\<lparr>gs_exec := gs_exec g\<rparr> = g" "g\<lparr>gs_disp := gs_disp g\<rparr> = g"
  by simp_all

lemma same_cache [simp]: "r\<lparr>gr_cache := gr_cache r\<rparr> = r" "r\<lparr>gr_cache := gr_cache r, gr_store := gr_store r\<rparr> = r"
  by simp_all

lemma adapter_view_same [simp]: "set_adapter_view (adapter_view sv) sv = sv"
  by (simp add: set_adapter_view_def adapter_view_def sy_cache_def set_registry_same)

lemma adapter_view_system [gw_simps]:
  "sv_system (set_adapter_view a sv) = set_registry ((hw_registry (sy_world (sv_system sv)))
     \<lparr>gr_cache := as_cache a, gr_store := as_store a\<rparr>) (sv_system sv)"
  by (simp add: set_adapter_view_def)

lemma lifted [gw_simps]:
  "snd (on_cache f sv) = sv\<lparr>sv_system := set_registry ((hw_registry (sy_world (sv_system sv)))
     \<lparr>gr_cache := snd (f (sy_cache (sv_system sv)))\<rparr>) (sv_system sv)\<rparr>"
  "snd (on_registry h sv) = sv\<lparr>sv_system := set_registry (snd (h (hw_registry (sy_world (sv_system sv))))) (sv_system sv)\<rparr>"
  "snd (on_gateway k sv) = sv\<lparr>sv_system := set_gateway (snd (k (sy_gateway (sv_system sv)))) (sv_system sv)\<rparr>"
  "snd (on_platform l sv) = sv\<lparr>sv_platform := snd (l (sv_platform sv))\<rparr>"
  "snd (on_adapters o' sv) = set_adapter_view (snd (o' (adapter_view sv))) sv"
  "snd (probe E x sv) = sv\<lparr>sv_health := snd (collectHealthSnapshot (ch_available x) (ch_upstreams x) (pe_startupTime E)
     (ch_now x) (sv_health sv))\<rparr>"
  "fst (on_registry h sv) = fst (h (hw_registry (sy_world (sv_system sv))))"
  "fst (on_gateway k sv) = fst (k (sy_gateway (sv_system sv)))"
  "fst (on_platform l sv) = fst (l (sv_platform sv))"
  "fst (on_adapters o' sv) = fst (o' (adapter_view sv))"
  by (simp_all add: on_cache_def on_registry_def on_gateway_def on_platform_def on_adapters_def probe_def case_prod_unfold Let_def)

text \<open>The 401 of the middleware or of the handler itself.\<close>

definition refused :: "http_reply \<Rightarrow> bool" where
  "refused reply \<longleftrightarrow> (\<exists>message. reply = RP_unauthorized message) \<or>
     reply \<in> {RP_hosts HO_unauthorized, RP_execute XR_unauthorized, RP_cancel CR_unauthorized,
       RP_chat LR_unauthorized, RP_telemetry TR_unauthorized, RP_platform PR_unauthorized}"

text \<open>The endpoints that answer whoever reaches them: only the middleware stands in front of them.\<close>

definition unguarded_endpoints :: "endpoint set" where
  "unguarded_endpoints = {EP_ready, EP_metrics, EP_describe, EP_observability_health, EP_openapi_merged}"

lemma unauthenticated_handler:
  "ep \<notin> public_endpoints \<union> unguarded_endpoints \<Longrightarrow>
     refused (fst (handle D E ep None q x sv)) \<and> snd (handle D E ep None q x sv) = sv"
  by (cases ep)
    (simp_all add: public_endpoints_def unguarded_endpoints_def refused_def gw_simps route_hosts_list_def route_hosts_get_def
      route_hosts_delete_def cancel_route_def llm_route_def telemetry_route_def platform_route_def)

lemma forbidden_dispatch:
  "\<not> internal_allowed secret provided \<Longrightarrow> internal_dispatch secret provided body r tr thr d = (DR_forbidden, d)"
  "\<not> internal_allowed secret provided \<Longrightarrow> resolve_host C St secret provided body d r' = (RR_forbidden, r')"
  by (simp_all add: internal_dispatch_def resolve_host_def)

lemma public_handler:
  assumes "ep \<in> public_endpoints \<union> unguarded_endpoints" "handle D E ep None q x sv = (reply, sv')"
  defines "s \<equiv> sv_system sv" and "s' \<equiv> sv_system sv'"
  shows "sv_platform sv' = sv_platform sv"
    and "sy_runs s' = sy_runs s \<and> sy_clients s' = sy_clients s \<and> sy_hosts s' = sy_hosts s \<and> sy_log s' = sy_log s \<and>
      gs_exec (sy_gateway s') = gs_exec (sy_gateway s) \<and> gs_subs (sy_gateway s') = gs_subs (sy_gateway s)"
    and "gs_disp (sy_gateway s') \<noteq> gs_disp (sy_gateway s) \<Longrightarrow>
      ep = EP_internal_dispatch \<and> internal_allowed (dp_internalSecret D) (rq_internal_secret q)"
    and "hw_registry (sy_world s') \<noteq> hw_registry (sy_world s) \<Longrightarrow>
      ep \<in> {EP_auth_register, EP_auth_token, EP_auth_refresh, EP_hosts_register} \<or>
      ep = EP_resolve_host \<and> internal_allowed (dp_internalSecret D) (rq_internal_secret q)"
proof -
  have sv': "sv' = snd (handle D E ep None q x sv)" using assms(2) by simp
  show "sv_platform sv' = sv_platform sv"
    using assms(1) by (cases ep) (simp_all add: sv' public_endpoints_def unguarded_endpoints_def gw_simps
        case_prod_unfold Let_def)
  show "sy_runs s' = sy_runs s \<and> sy_clients s' = sy_clients s \<and> sy_hosts s' = sy_hosts s \<and> sy_log s' = sy_log s \<and>
      gs_exec (sy_gateway s') = gs_exec (sy_gateway s) \<and> gs_subs (sy_gateway s') = gs_subs (sy_gateway s)"
    using assms(1) by (cases ep) (simp_all add: sv' s_def s'_def public_endpoints_def unguarded_endpoints_def gw_simps
        case_prod_unfold Let_def)
  show "ep = EP_internal_dispatch \<and> internal_allowed (dp_internalSecret D) (rq_internal_secret q)"
    if "gs_disp (sy_gateway s') \<noteq> gs_disp (sy_gateway s)"
    using assms(1) that by (cases ep; cases "internal_allowed (dp_internalSecret D) (rq_internal_secret q)")
      (simp_all add: sv' s_def s'_def public_endpoints_def unguarded_endpoints_def gw_simps case_prod_unfold Let_def
        forbidden_dispatch)
  show "ep \<in> {EP_auth_register, EP_auth_token, EP_auth_refresh, EP_hosts_register} \<or>
      ep = EP_resolve_host \<and> internal_allowed (dp_internalSecret D) (rq_internal_secret q)"
    if "hw_registry (sy_world s') \<noteq> hw_registry (sy_world s)"
    using assms(1) that by (cases ep; cases "internal_allowed (dp_internalSecret D) (rq_internal_secret q)")
      (simp_all add: sv' s_def s'_def public_endpoints_def unguarded_endpoints_def gw_simps case_prod_unfold Let_def
        forbidden_dispatch)
qed

section \<open>Requests are steps of the process\<close>

text \<open>\<open>randomUUID\<close> gave values that are not in use.\<close>

definition fresh_chance :: "chance \<Rightarrow> ('c, 's) system \<Rightarrow> bool" where
  "fresh_chance x s \<longleftrightarrow> jm_get (sy_runs s) (ch_uuid1 x) = None \<and> ch_uuid3 x \<noteq> [] \<and>
     jm_get (d_promises (gs_disp (sy_gateway s))) (ch_uuid3 x) = None"

definition registry_step_or_same ::
  "('c, 's) deployment \<Rightarrow> ('c, 's) host_registry \<Rightarrow> ('c, 's) host_registry \<Rightarrow> bool" where
  "registry_step_or_same D r r' \<longleftrightarrow> r' = r \<or> reg_step (dp_cache D) (dp_store D) r r'"

lemma hosts_routes_step:
  "registry_step_or_same D r (snd (route_hosts_register (dp_cache D) (dp_store D) uuid tok now body r))"
  "registry_step_or_same D r (snd (route_hosts_list (dp_cache D) (dp_store D) auth r))"
  "registry_step_or_same D r (snd (route_hosts_get (dp_cache D) (dp_store D) auth h r))"
  "registry_step_or_same D r (snd (route_hosts_delete (dp_cache D) (dp_store D) auth h r))"
  "registry_step_or_same D r (snd (resolve_host (dp_cache D) (dp_store D) secret provided body d r))"
proof -
  note step = reg_step.intros [where C = "dp_cache D" and St = "dp_store D" and r = r]
  show "registry_step_or_same D r (snd (route_hosts_register (dp_cache D) (dp_store D) uuid tok now body r))"
    using step(1) by (auto simp: registry_step_or_same_def route_hosts_register_def case_prod_unfold Let_def
        split: option.splits)
  show "registry_step_or_same D r (snd (route_hosts_list (dp_cache D) (dp_store D) auth r))"
    using step(8) by (auto simp: registry_step_or_same_def route_hosts_list_def case_prod_unfold Let_def
        split: option.splits)
  show "registry_step_or_same D r (snd (route_hosts_get (dp_cache D) (dp_store D) auth h r))"
    using step(6) by (auto simp: registry_step_or_same_def route_hosts_get_def split: option.splits prod.splits)
      (metis snd_conv)+
  show "registry_step_or_same D r (snd (route_hosts_delete (dp_cache D) (dp_store D) auth h r))"
    using step(9) by (auto simp: registry_step_or_same_def route_hosts_delete_def case_prod_unfold Let_def
        split: option.splits)
  show "registry_step_or_same D r (snd (resolve_host (dp_cache D) (dp_store D) secret provided body d r))"
    using step(6) by (auto simp: registry_step_or_same_def resolve_host_def case_prod_unfold Let_def)
qed

end
