(* ===== verification/Process_Lifecycle.thy ===== *)
theory Process_Lifecycle
  imports Http_Server Runtime_Server
begin

text \<open>
  The life of the two processes: the gateway from its start (bootstrap.ts, index.ts, manifest.ts of
  apps/gateway-app) to a signal, with what may fail on the way, and the runtime server around its client
  (packages/gateway-runtime-server: runtime-server.ts, cli.ts).
\<close>

section \<open>The manifest\<close>

text \<open>Its description is left out.\<close>

record service_manifest =
  mf_schema :: string
  mf_id :: string
  mf_name :: string
  mf_version :: string
  mf_entry :: string
  mf_port :: int
  mf_healthCheck :: string
  mf_dependsOn :: "string list"
  mf_env :: "(string \<times> string \<times> string) list"
    \<comment> \<open>variable, description, default\<close>

definition manifest :: service_manifest where
  "manifest = \<lparr>mf_schema = ''kb.service/1'', mf_id = ''gateway'', mf_name = ''Gateway'', mf_version = ''1.0.0'',
     mf_entry = ''dist/index.js'',
     mf_port = 4000, mf_healthCheck = ''/health'', mf_dependsOn = [''rest'', ''workflow''],
     mf_env = [(''PORT'', ''HTTP port'', ''4000''), (''NODE_ENV'', ''Environment mode'', ''development'')]\<rparr>"

text \<open>
  The manifest and the program agree: without a configuration the gateway listens on the port of the
  manifest, and its health check is a path that is answered without a token.
\<close>

lemma manifest_agrees:
  "map_option gc_port (loadGatewayConfig is_url None) = Some (mf_port manifest)"
  "routed_ok ''GET'' (mf_healthCheck manifest) (3, []) \<and> endpoint_of (3, []) = EP_health"
  "authMiddleware C J k ms \<lparr>hq_pathname = mf_healthCheck manifest, hq_authorization = None, hq_access_token = None\<rparr> c = MW_public"
proof -
  show "map_option gc_port (loadGatewayConfig is_url None) = Some (mf_port manifest)"
    by (simp add: loadGatewayConfig_def parse_gateway_config_def as_object_def schema_default_def manifest_def)
  show "routed_ok ''GET'' (mf_healthCheck manifest) (3, []) \<and> endpoint_of (3, []) = EP_health" by code_simp
  have "routePath (mf_healthCheck manifest) \<in> set PUBLIC_ROUTES" by code_simp
  then show "authMiddleware C J k ms \<lparr>hq_pathname = mf_healthCheck manifest, hq_authorization = None,
      hq_access_token = None\<rparr> c = MW_public"
    by (simp add: authMiddleware_def)
qed

section \<open>Starting the gateway\<close>

text \<open>
  What \<open>bootstrap\<close> meets: whether the platform comes up, the configuration file, the database adapter with
  the store on it, whether reading the store throws, the environment, the process at that moment and
  whether the port can be bound.
\<close>

record 's surroundings =
  ss_platform_up :: bool
  ss_configFile :: "jval option option"
  ss_sqlDatabase :: "'s store_ops option"
  ss_store_reads :: bool
  ss_GATEWAY_JWT_SECRET :: "string option"
  ss_instanceId :: string
  ss_now :: int
  ss_usage :: usage_reading
  ss_binds :: bool

datatype start_failure = SF_platform | SF_config | SF_restore | SF_listen

record ('c, 's, 'p) gateway_process =
  gp_server :: "('c, 's, 'p) server"
  gp_secret :: string
  gp_restored :: nat
  gp_port :: int
  gp_host :: string

text \<open>\<open>createServer\<close> on the registry: nothing is connected, the collector starts its readings.\<close>

definition create_server ::
  "'s surroundings \<Rightarrow> gateway_config \<Rightarrow> ('c, 's) host_registry \<Rightarrow> 'p \<Rightarrow> ('c, 's, 'p) server" where
  "create_server env config registry p =
     \<lparr>sv_system = start_system registry, sv_platform = p,
      sv_collector = collector_register (ss_usage env) (new_collector (ss_instanceId env) (map fst (gc_upstreams config))
        (ss_now env) (ur_cpu1 (ss_usage env)) (ur_rss (ss_usage env)) (ur_heapUsed (ss_usage env))),
      sv_health = None, sv_openapi = None\<rparr>"

definition start_gateway ::
  "(string \<Rightarrow> bool) \<Rightarrow> 'c cache_ops \<Rightarrow> 's surroundings \<Rightarrow> 'c \<Rightarrow> 's \<Rightarrow> 'p \<Rightarrow>
     start_failure + ('c, 's, 'p) gateway_process" where
  "start_gateway is_url C env c s p =
     (if \<not> ss_platform_up env then Inl SF_platform
      else case loadGatewayConfig is_url (ss_configFile env) of
        None \<Rightarrow> Inl SF_config
      | Some config \<Rightarrow>
          let hostStore = ss_sqlDatabase env
          in if hostStore \<noteq> None \<and> \<not> ss_store_reads env then Inl SF_restore
             else let ((restoredCount, secret), registry) =
                        bootstrap C hostStore config (ss_GATEWAY_JWT_SECRET env) (ss_now env) c s;
                      server = create_server env config registry p
                  in if \<not> ss_binds env then Inl SF_listen
                     else Inr \<lparr>gp_server = server, gp_secret = secret, gp_restored = restoredCount,
                       gp_port = gc_port config, gp_host = ''0.0.0.0''\<rparr>)"

text \<open>index.ts: a start that fails ends the process.\<close>

definition exit_of_start :: "start_failure + ('c, 's, 'p) gateway_process \<Rightarrow> int option" where
  "exit_of_start started = (case started of Inl failure \<Rightarrow> Some 1 | Inr gateway \<Rightarrow> None)"

text \<open>
  A signal: the platform is shut down, then the server is closed, then the process exits. A step that
  rejects ends the handler; nobody catches it. Every further signal runs the same again.
\<close>

datatype shutdown_effect = SD_platform | SD_close | SD_exit int | SD_unhandled

definition on_signal :: "bool \<Rightarrow> bool \<Rightarrow> shutdown_effect list" where
  "on_signal platform_shuts_down server_closes =
     (if \<not> platform_shuts_down then [SD_platform, SD_unhandled]
      else if \<not> server_closes then [SD_platform, SD_close, SD_unhandled]
      else [SD_platform, SD_close, SD_exit 0])"

text \<open>The platform goes away before the server stops taking requests, which then find no adapters.\<close>

lemma platform_first:
  "SD_close \<in> set (on_signal p c) \<Longrightarrow> \<exists>rest. on_signal p c = SD_platform # SD_close # rest"
  by (auto simp: on_signal_def split: if_splits)

section \<open>The runtime server around its client\<close>

record runtime_process =
  rp_client :: runtime_options
  rp_handlers :: "string list"
  rp_server :: runtime_server

text \<open>The constructor: the client and the one handler registered with it.\<close>

definition start_runtime :: "string \<Rightarrow> string \<Rightarrow> string option \<Rightarrow> runtime_process" where
  "start_runtime gatewayUrl accessToken agentVersion =
     \<lparr>rp_client = new_runtime_client gatewayUrl accessToken agentVersion, rp_handlers = [''execution''],
      rp_server = new_runtime_server\<rparr>"

text \<open>The callbacks of the client, and the signals cli.ts listens to; the exit code when the process ends.\<close>

datatype runtime_event = RE_connected string string | RE_disconnected | RE_start_failed | RE_signal

fun on_runtime_event :: "runtime_event \<Rightarrow> runtime_process \<Rightarrow> int option \<times> runtime_process" where
  "on_runtime_event (RE_connected hostId sessionId) rv = (None, rv\<lparr>rp_server := onConnected hostId (rp_server rv)\<rparr>)"
| "on_runtime_event RE_disconnected rv = (None, rv)"
| "on_runtime_event RE_start_failed rv = (Some 1, rv)"
| "on_runtime_event RE_signal rv = (Some 0, rv)"

fun connected_as :: "runtime_event \<Rightarrow> string option" where
  "connected_as (RE_connected hostId sessionId) = Some hostId"
| "connected_as _ = None"

text \<open>The host id is that of the last connection, also while there is none.\<close>

lemma host_id_is_last:
  "getHostId (rp_server (fold (\<lambda>e. snd \<circ> on_runtime_event e) es rv)) =
     or_else_opt (first_row (rev (List.map_filter connected_as es))) (getHostId (rp_server rv))"
proof (induction es arbitrary: rv)
  case (Cons e es)
  show ?case
  proof (cases e)
    case (RE_connected h i)
    then show ?thesis
      using Cons [of "snd (on_runtime_event e rv)"]
      by (cases "rev (List.map_filter connected_as es)")
        (simp_all add: getHostId_def onConnected_def first_row_def or_else_opt_def List.map_filter_def)
  qed (use Cons in \<open>simp_all add: getHostId_def List.map_filter_def\<close>)
qed (simp add: first_row_def or_else_opt_def List.map_filter_def)

section \<open>Properties\<close>


definition sample_surroundings :: "bool \<Rightarrow> sqlite_store surroundings" where
  "sample_surroundings binds = \<lparr>ss_platform_up = True, ss_configFile = None, ss_sqlDatabase = Some sqlite_ops,
     ss_store_reads = True, ss_GATEWAY_JWT_SECRET = None, ss_instanceId = ''i'', ss_now = 0,
     ss_usage = \<lparr>ur_cpu1 = (0, 0), ur_cpu2 = (0, 0), ur_now = 0, ur_rss = 0, ur_heapUsed = 0, ur_mean = None\<rparr>,
     ss_binds = binds\<rparr>"


end
