(* ===== verification/Http_Properties.thy ===== *)
theory Http_Properties
  imports Process_Lifecycle System_Properties
begin

text \<open>
  Properties of the HTTP side as a whole (Http_Server): who reaches what without a token, and how requests
  relate to the transition system of Gateway_System, what the platform route lets a caller do to the
  gateway's own cache, with a concrete server for the witnesses.
\<close>

section \<open>A concrete server\<close>

definition demo_platform :: "((string, cval) jsmap, sqlite_store, unit) platform_env" where
  "demo_platform = \<lparr>pe_adapters = \<lparr>pl_has_adapter = \<lambda>_. False, pl_has_method = \<lambda>_ _. False,
       pl_invoke = \<lambda>_ _ _ p. (PO_value JNull, p)\<rparr>,
     pe_llm = LLM_none, pe_analytics = None, pe_json_parse = \<lambda>_. None, pe_stringify = \<lambda>_. [], pe_is_datetime = \<lambda>_. True,
     pe_mergeSpecs = JArr, pe_contract = \<lparr>oc_schema = [], oc_contractVersion = [], oc_metrics = []\<rparr>,
     pe_NODE_ENV = None, pe_startupTime = 0\<rparr>"

definition demo_chance :: chance where
  "demo_chance = \<lparr>ch_now = 0, ch_iso = [], ch_durationMs = 1, ch_uuid1 = ''e'', ch_uuid2 = ''r'', ch_uuid3 = ''call'',
     ch_secret = ''s'', ch_span = \<lparr>tc_traceId = ''t'', tc_spanId = ''u'', tc_parentId = None\<rparr>, ch_send_throws = None,
     ch_available = \<lambda>_. True, ch_upstreams = [], ch_adapterMs = \<lambda>_. None, ch_upstreamMs = \<lambda>_. None,
     ch_usage = \<lparr>ur_cpu1 = (0, 0), ur_cpu2 = (0, 0), ur_now = 0, ur_rss = 0, ur_heapUsed = 0, ur_mean = None\<rparr>,
     ch_operationLines = [], ch_operations = [], ch_specs = []\<rparr>"

definition demo_request :: "string \<Rightarrow> string option \<Rightarrow> jval \<Rightarrow> request" where
  "demo_request pathname authorization body =
     \<lparr>rq_http = \<lparr>hq_pathname = pathname, hq_authorization = authorization, hq_access_token = None\<rparr>,
      rq_internal_secret = None, rq_body = body\<rparr>"

definition demo_server :: "((string, cval) jsmap, sqlite_store, unit) server" where
  "demo_server = \<lparr>sv_system = demo_connected, sv_platform = (), sv_collector = new_collector ''i'' [] 0 (0, 0) 0 0,
     sv_health = None, sv_openapi = None\<rparr>"

lemma public_not_refused:
  "ep \<in> public_endpoints \<Longrightarrow> \<not> refused (fst (handle D E ep None q x sv))"
  by (auto simp: public_endpoints_def refused_def gw_simps route_hosts_register_def case_prod_unfold
      Let_def split: option.splits)

section \<open>Requests and steps\<close>

text \<open>Serving a request is one step of Gateway_System or leaves the system alone.\<close>

lemma request_step:
  assumes "fresh_chance x (sv_system sv)" "serve D E hit q x sv = (reply, sv')"
  shows "(sv_system sv' = sv_system sv \<or> (\<exists>ev. sys_step D ok (sv_system sv) ev (sv_system sv'))) \<and>
    (\<forall>route. hit = Some route \<and> endpoint_of route \<in> unguarded_endpoints \<union> {EP_health, EP_chat, EP_telemetry}
       \<longrightarrow> sv_system sv' = sv_system sv)"
proof -
  let ?s = "sv_system sv"
  have reg: "set_registry r' ?s = ?s \<or> (\<exists>ev. sys_step D ok ?s ev (set_registry r' ?s))"
    if "registry_step_or_same D (hw_registry (sy_world ?s)) r'" for r'
    using that sys_step.registry [of D ?s r' ok] by (auto simp: registry_step_or_same_def gw_simps)
  have handled: "sv_system (snd (handle D E ep auth q x sv)) = ?s \<or>
      (\<exists>ev. sys_step D ok ?s ev (sv_system (snd (handle D E ep auth q x sv))))"
    if auth: "\<And>ctx. auth = Some ctx \<Longrightarrow> authMiddleware (dp_cache D) (dp_jose D) (dp_secret D) (ch_now x) (rq_http q)
      (sy_cache ?s) = MW_authenticated ctx" for ep auth
  proof (cases ep)
    case EP_auth_register
    show ?thesis by (rule disjI2, rule exI, simp add: EP_auth_register gw_simps, rule sys_step.auth_register)
  next
    case EP_auth_token
    show ?thesis by (rule disjI2, rule exI, simp add: EP_auth_token gw_simps, rule sys_step.auth_token)
  next
    case EP_auth_refresh
    show ?thesis by (rule disjI2, rule exI, simp add: EP_auth_refresh gw_simps, rule sys_step.auth_refresh)
  next
    case EP_execute
    show ?thesis
    proof (cases auth)
      case (Some ctx)
      from sys_step.execute [OF auth [OF Some], of "ch_uuid1 x" "ch_uuid3 x" ok "rq_body q" "ch_uuid2 x" "ch_span x"
          "ch_send_throws x" "ch_now x"] assms(1)
      show ?thesis by (auto simp: EP_execute Some fresh_chance_def case_prod_unfold Let_def)
    qed (simp add: EP_execute)
  next
    case (EP_cancel i)
    show ?thesis
    proof (cases auth)
      case (Some ctx)
      from sys_step.cancel [OF auth [OF Some], of ok i "as_string (js_member (rq_body q) ''reason'')"]
      show ?thesis by (auto simp: EP_cancel Some gw_simps case_prod_unfold Let_def)
    qed (simp add: EP_cancel gw_simps cancel_route_def)
  next
    case (EP_platform a n)
    show ?thesis
    proof (cases auth)
      case (Some ctx)
      from sys_step.platform [OF auth [OF Some]] show ?thesis by (auto simp: EP_platform gw_simps)
    qed (simp add: EP_platform gw_simps platform_route_def)
  next
    case EP_internal_dispatch
    from sys_step.dispatch [of ?s "ch_uuid3 x" D ok "rq_internal_secret q" "rq_body q" "ch_span x" "ch_send_throws x"] assms(1)
    show ?thesis by (auto simp: EP_internal_dispatch fresh_chance_def gw_simps case_prod_unfold Let_def)
  qed (simp_all add: gw_simps case_prod_unfold Let_def reg hosts_routes_step)
  have "sv_system sv' = ?s \<or> (\<exists>ev. sys_step D ok ?s ev (sv_system sv'))"
  proof (cases hit)
    case (Some route)
    then show ?thesis
      using assms(2) handled [of None "endpoint_of route"] handled [of "Some ctx" "endpoint_of route" for ctx]
      by (auto simp: serve_def split: mw_result.splits)
  qed (use assms(2) in \<open>simp add: serve_def\<close>)
  moreover have "sv_system sv' = ?s" if "hit = Some route"
    "endpoint_of route \<in> unguarded_endpoints \<union> {EP_health, EP_chat, EP_telemetry}" for route
  proof -
    have "sv_system (snd (handle D E (endpoint_of route) auth q x sv)) = ?s" for auth
      using that(2) by (auto simp: unguarded_endpoints_def gw_simps case_prod_unfold Let_def)
    then show ?thesis using assms(2) that(1) by (auto simp: serve_def split: mw_result.splits) (metis snd_conv)+
  qed
  ultimately show ?thesis by blast
qed

text \<open>
  What a gateway that came up can be after any requests, with everything else that happens in the process in
  between. Its system is a reachable one, so what System_Properties shows holds for it.
\<close>

inductive gateway_reachable ::
  "('c, 's) deployment \<Rightarrow> ('c, 's, 'p) platform_env \<Rightarrow> (inbound_msg \<Rightarrow> bool) \<Rightarrow> ('c, 's, 'p) server \<Rightarrow> bool"
  for D :: "('c, 's) deployment" and E :: "('c, 's, 'p) platform_env" and ok :: "inbound_msg \<Rightarrow> bool" where
  up: "start_gateway is_url (dp_cache D) env c s p = Inr gp \<Longrightarrow> dp_store D = ss_sqlDatabase env \<Longrightarrow>
     dp_secret D = gp_secret gp \<Longrightarrow> gateway_reachable D E ok (gp_server gp)"
| request: "gateway_reachable D E ok sv \<Longrightarrow> fresh_chance x (sv_system sv) \<Longrightarrow> serve D E hit q x sv = (reply, sv') \<Longrightarrow>
     gateway_reachable D E ok sv'"
| event: "gateway_reachable D E ok sv \<Longrightarrow> sys_step D ok (sv_system sv) ev s' \<Longrightarrow>
     gateway_reachable D E ok (sv\<lparr>sv_system := s'\<rparr>)"

lemma started_system:
  "start_gateway is_url C env c s p = Inr gp \<Longrightarrow> \<exists>r. sv_system (gp_server gp) = start_system r"
  by (auto simp: start_gateway_def create_server_def Let_def case_prod_unfold split: if_splits option.splits)

lemma step_or_same_reachable:
  "sys_reachable D ok s \<Longrightarrow> s' = s \<or> (\<exists>ev. sys_step D ok s ev s') \<Longrightarrow> sys_reachable D ok s'"
  by (auto intro: sys_reachable.step)

lemma gateway_reachable_system: "gateway_reachable D E ok sv \<Longrightarrow> sys_reachable D ok (sv_system sv)"
proof (induction rule: gateway_reachable.induct)
  case (up is_url env c s p gp)
  from started_system [OF up(1)] show ?case by (auto intro: sys_reachable.start)
next
  case (request sv x hit q reply sv')
  from step_or_same_reachable [OF request.IH] request_step [OF request(2,3), of ok] show ?case by blast
qed (auto intro: sys_reachable.step)

section \<open>Properties\<close>



text \<open>
  Even if the middleware and the router disagree about the path of a URL, no protected handler acts: each
  checks the context itself. Only the five endpoints of \<open>unguarded_endpoints\<close> rely on the middleware.
\<close>

lemma handlers_guard_themselves:
  assumes "serve D E (Some hit) q x sv = (reply, sv')" "endpoint_of hit \<notin> public_endpoints \<union> unguarded_endpoints"
    and "\<forall>ctx. authMiddleware (dp_cache D) (dp_jose D) (dp_secret D) (ch_now x) (rq_http q) (sy_cache (sv_system sv)) \<noteq>
      MW_authenticated ctx"
  shows "refused reply \<and> sv' = sv"
  using assms unauthenticated_handler [OF assms(2), of D E q x sv]
  by (auto simp: serve_def refused_def split: mw_result.splits)


definition demo_execute_request :: request where
  "demo_execute_request = demo_request ''/api/v1/execute'' (Some ''Bearer t'') sample_body"

lemma demo_request_facts:
  "fresh_chance demo_chance (sv_system demo_server)"
  "gs_exec (sy_gateway (sv_system (snd (serve demo_deployment demo_platform (Some (12, [])) demo_execute_request
     demo_chance demo_server)))) \<noteq> gs_exec (sy_gateway (sv_system demo_server))"
proof -
  show "fresh_chance demo_chance (sv_system demo_server)"
    using demo_connected_facts by (simp add: fresh_chance_def demo_chance_def demo_server_def)
  show "gs_exec (sy_gateway (sv_system (snd (serve demo_deployment demo_platform (Some (12, [])) demo_execute_request
     demo_chance demo_server)))) \<noteq> gs_exec (sy_gateway (sv_system demo_server))"
    by code_simp
qed


section \<open>The gateway's cache is an adapter\<close>

text \<open>
  The contract of \<open>ICache.set\<close> as the adapter \<open>cache\<close>: it writes the value, and the entry of a token reads
  back as that entry. \<open>reads\<close> is how the gateway reads the JSON value under a key.
\<close>

definition token_entry :: "string \<Rightarrow> string \<Rightarrow> jval" where
  "token_entry hostId namespaceId = JObj [(''hostId'', JStr hostId), (''namespaceId'', JStr namespaceId)]"

definition cache_adapter ::
  "'c cache_ops \<Rightarrow> (string \<Rightarrow> jval \<Rightarrow> cval) \<Rightarrow> ('c, 's, 'p) adapter_state platform_ops \<Rightarrow> bool" where
  "cache_adapter C reads P \<longleftrightarrow>
     pl_has_adapter P ''cache'' \<and> pl_has_method P ''cache'' ''set'' \<and>
     (\<forall>k v a. pl_invoke P ''cache'' ''set'' [JStr k, v] a =
        (PO_value JUndef, a\<lparr>as_cache := cset C (as_cache a) k (reads k v) None\<rparr>)) \<and>
     (\<forall>t h n. reads (tokenKey t) (token_entry h n) = V_token h n)"

definition cache_set_request :: "request \<Rightarrow> string \<Rightarrow> jval \<Rightarrow> request" where
  "cache_set_request q k v = q\<lparr>rq_body := JObj [(''args'', JArr [JStr k, v])]\<rparr>"

text \<open>
  C9: the boundary of all isolation between tenants. The allowlist of the platform route has \<open>cache.set\<close>, and
  the adapter \<open>cache\<close> is the cache the gateway keeps its tokens in: whoever has any token writes an entry
  for a token of his choice, and with that token he is the host and the namespace of his choice, over HTTP
  on every protected path and on the host WebSocket.
\<close>

theorem platform_cache_forges_identity:
  assumes "icache (dp_cache D)" "cache_adapter (dp_cache D) reads (pe_adapters E)"
    and "authMiddleware (dp_cache D) (dp_jose D) (dp_secret D) (ch_now x) (rq_http q) (sy_cache (sv_system sv)) =
      MW_authenticated ctx"
    and "endpoint_of hit = EP_platform ''cache'' ''set''" "plain_token t" "auth_verify (dp_jose D) (dp_secret D) ms t = None"
    and "serve D E (Some hit) (cache_set_request q (tokenKey t) (token_entry h n)) x sv = (reply, sv')"
  shows "reply = RP_platform (PR_ok JUndef (ch_durationMs x)) \<and>
    (routePath path \<notin> set PUBLIC_ROUTES \<longrightarrow>
      authMiddleware (dp_cache D) (dp_jose D) (dp_secret D) ms
        \<lparr>hq_pathname = path, hq_authorization = Some (''Bearer '' @ t), hq_access_token = None\<rparr> (sy_cache (sv_system sv')) =
      MW_authenticated \<lparr>ac_type = Some ''machine'', ac_userId = Some h, ac_namespaceId = Some n, ac_tier = Some ''free'',
        ac_permissions = [''host:connect'']\<rparr>) \<and>
    host_handshake (dp_cache D) (dp_jose D) (dp_secret D) ms (Some (''Bearer '' @ t)) (sy_cache (sv_system sv'))
      (Hello_message raw) = host_hello h n raw"
proof -
  let ?q = "cache_set_request q (tokenKey t) (token_entry h n)"
  let ?view = "adapter_view sv"
  have body: "parse_platform_call (rq_body ?q) = Some [JStr (tokenKey t), token_entry h n]" "rq_http ?q = rq_http q"
    by (simp_all add: cache_set_request_def parse_platform_call_def as_object_def)
  have allowed: "allowed_methods ''cache'' = Allowed [''get'', ''set'', ''delete'', ''clear'']" by code_simp
  let ?after = "?view\<lparr>as_cache := cset (dp_cache D) (as_cache ?view) (tokenKey t) (V_token h n) None\<rparr>"
  have "platform_route (pe_adapters E) (pe_stringify E) (Some ctx) ''cache'' ''set'' (rq_body ?q) (ch_durationMs x) ?view =
      (PR_ok JUndef (ch_durationMs x), ?after)"
    using assms(2) by (simp add: platform_route_def allowed body cache_adapter_def platform_result_def)
  then have sv': "reply = RP_platform (PR_ok JUndef (ch_durationMs x))" "sv' = set_adapter_view ?after sv"
    using assms(3,4,7) by (simp_all add: serve_def body on_adapters_def)
  have "c_token (dp_cache D) (sy_cache (sv_system sv')) (tokenKey t) = Some (h, n)"
    by (simp add: sv' set_adapter_view_def sy_cache_def gw_simps icache.cache_simps [OF assms(1)])
  then have "auth_resolveToken (dp_cache D) (dp_jose D) (dp_secret D) ms t (sy_cache (sv_system sv')) =
      Some \<lparr>ac_type = Some ''machine'', ac_userId = Some h, ac_namespaceId = Some n, ac_tier = Some ''free'',
        ac_permissions = [''host:connect'']\<rparr>"
    using assms(6) by (simp add: auth_resolveToken_def)
  then show ?thesis
    using sv' assms(5) bearer_plain [OF assms(5), simplified]
    by (auto simp: authMiddleware_def request_token_def host_handshake_def plain_token_def or_else_opt_def)
qed

definition demo_reads :: "string \<Rightarrow> jval \<Rightarrow> cval" where
  "demo_reads k v = (case (js_member v ''hostId'', js_member v ''namespaceId'') of
     (JStr h, JStr n) \<Rightarrow> V_token h n | _ \<Rightarrow> V_strings [])"

definition demo_cache_platform :: "((string, cval) jsmap, sqlite_store, unit) platform_env" where
  "demo_cache_platform = demo_platform\<lparr>pe_adapters := \<lparr>pl_has_adapter = \<lambda>name. name = ''cache'',
     pl_has_method = \<lambda>_ _. True,
     pl_invoke = \<lambda>name m args a. (case args of
         [JStr k, v] \<Rightarrow> (PO_value JUndef, a\<lparr>as_cache := jm_set (as_cache a) k (demo_reads k v)\<rparr>)
       | _ \<Rightarrow> (PO_value JUndef, a))\<rparr>\<rparr>"

text \<open>A host of the namespace \<open>n\<close> becomes \<open>boss\<close> of the namespace \<open>other\<close>.\<close>

lemma platform_cache_forges_identity_witness:
  "authMiddleware mem_cache plain_jose ''key'' 0
     \<lparr>hq_pathname = ''/hosts'', hq_authorization = Some ''Bearer x'', hq_access_token = None\<rparr>
     (sy_cache (sv_system (snd (serve demo_deployment demo_cache_platform (Some (16, [''cache'', ''set'']))
       (cache_set_request (demo_request ''/platform/v1/cache/set'' (Some ''Bearer t'') JUndef) (tokenKey ''x'')
         (token_entry ''boss'' ''other'')) demo_chance demo_server)))) =
   MW_authenticated \<lparr>ac_type = Some ''machine'', ac_userId = Some ''boss'', ac_namespaceId = Some ''other'',
     ac_tier = Some ''free'', ac_permissions = [''host:connect'']\<rparr>"
proof -
  let ?q = "demo_request ''/platform/v1/cache/set'' (Some ''Bearer t'') JUndef"
  have d: "dp_cache demo_deployment = mem_cache" "dp_jose demo_deployment = plain_jose" "dp_secret demo_deployment = ''key''"
    by (simp_all add: demo_deployment_def)
  have adapter: "cache_adapter (dp_cache demo_deployment) demo_reads (pe_adapters demo_cache_platform)"
    by (simp add: d cache_adapter_def demo_cache_platform_def demo_reads_def token_entry_def mem_cache_def)
  have "\<exists>ctx. authMiddleware (dp_cache demo_deployment) (dp_jose demo_deployment) (dp_secret demo_deployment)
      (ch_now demo_chance) (rq_http ?q) (sy_cache (sv_system demo_server)) = MW_authenticated ctx"
    by (rule exI [of _ "\<lparr>ac_type = Some ''machine'', ac_userId = Some ''h'', ac_namespaceId = Some ''n'',
      ac_tier = Some ''free'', ac_permissions = [''host:connect'']\<rparr>"]) code_simp
  then obtain ctx where auth: "authMiddleware (dp_cache demo_deployment) (dp_jose demo_deployment) (dp_secret demo_deployment)
      (ch_now demo_chance) (rq_http ?q) (sy_cache (sv_system demo_server)) = MW_authenticated ctx" ..
  have other: "endpoint_of (16, [''cache'', ''set'']) = EP_platform ''cache'' ''set''"
    by (simp add: endpoint_of_def gateway_routes_def)
  have "plain_token ''x''" "auth_verify (dp_jose demo_deployment) (dp_secret demo_deployment) 0 ''x'' = None"
    "routePath ''/hosts'' \<notin> set PUBLIC_ROUTES" by code_simp+
  with platform_cache_forges_identity [of demo_deployment, OF _ adapter auth other _ _ surjective_pairing, of "''x''" 0 "''boss''"
      "''other''" "''/hosts''"] mem.icache_axioms
  show ?thesis by (simp add: d)
qed

end
